theory Spec2Isabelle
  imports Complex_Main "HOL-Library.AList" "HOL-Library.Char_ord" "HOL-Library.List_Lexorder"
    "HOL-Library.Log_Nat"
begin

section \<open>Helpers of app.py\<close>

text \<open>
  The exceptions the modelled code can raise: \<open>ValueError\<close> from
  \<^verbatim>\<open>datetime.strptime\<close> on a string that is not a time, \<open>KeyError\<close> from a
  dictionary subscript.
\<close>

datatype exn = ValueError | KeyError

subsection \<open>clamp\<close>

text \<open>\<^verbatim>\<open>def clamp(v, lo, hi): return max(lo, min(hi, v))\<close>\<close>

definition clamp :: "int \<Rightarrow> int \<Rightarrow> int \<Rightarrow> int" where
  "clamp v lo hi = max lo (min hi v)"

subsection \<open>Strings\<close>

text \<open>
  A Python \<open>str\<close> is modelled by its UTF-8 bytes. \<^verbatim>\<open>str.strip()\<close> removes
  leading and trailing whitespace; of the ASCII range Python counts the code points
  9 to 13, 28 to 31 and 32 as whitespace. Whitespace and decimal digits outside ASCII,
  which Python recognises too, are not part of this model.
\<close>

definition isspace :: "char \<Rightarrow> bool" where
  "isspace c = (let n = (of_char c :: nat) in (9 \<le> n \<and> n \<le> 13) \<or> (28 \<le> n \<and> n \<le> 32))"

definition strip :: "string \<Rightarrow> string" where
  "strip s = rev (dropWhile isspace (rev (dropWhile isspace s)))"

definition isdigit :: "char \<Rightarrow> bool" where
  "isdigit c = (let n = (of_char c :: nat) in 48 \<le> n \<and> n \<le> 57)"

definition digit_val :: "char \<Rightarrow> int" where
  "digit_val c = int (of_char c) - 48"

subsection \<open>parse_time_hhmm\<close>

text \<open>
  \<^verbatim>\<open>datetime.strptime(t.strip(), "%H:%M")\<close> compiles the format to the regular
  expression \<^verbatim>\<open>(?P<H>2[0-3]|[0-1]\d|\d):(?P<M>[0-5]\d|\d)\<close>, matches it at the start of
  the string and raises \<open>ValueError\<close> when there is no match or when the match stops
  before the end of the string. Each function below lists the matches of one part of
  the expression in the order the backtracking matcher tries them, with the rest of the
  string after the match; the first complete match is the one \<^verbatim>\<open>re.match\<close> returns.

  The result is the \<open>datetime\<close> of that time on 1900-01-01; \<open>dt_day\<close> counts days from
  that date.
\<close>

record datetime =
  dt_day :: int
  dt_hour :: int
  dt_minute :: int

definition re_H :: "string \<Rightarrow> (int \<times> string) list" where
  "re_H s =
     (case s of
        a # b # r \<Rightarrow>
          (if a = CHR ''2'' \<and> b \<in> set ''0123'' then [(20 + digit_val b, r)] else []) @
          (if a \<in> set ''01'' \<and> isdigit b then [(10 * digit_val a + digit_val b, r)] else [])
      | _ \<Rightarrow> []) @
     (case s of a # r \<Rightarrow> (if isdigit a then [(digit_val a, r)] else []) | [] \<Rightarrow> [])"

definition re_colon :: "string \<Rightarrow> string list" where
  "re_colon s = (case s of c # r \<Rightarrow> (if c = CHR '':'' then [r] else []) | [] \<Rightarrow> [])"

definition re_M :: "string \<Rightarrow> (int \<times> string) list" where
  "re_M s =
     (case s of
        a # b # r \<Rightarrow> (if a \<in> set ''012345'' \<and> isdigit b then [(10 * digit_val a + digit_val b, r)] else [])
      | _ \<Rightarrow> []) @
     (case s of a # r \<Rightarrow> (if isdigit a then [(digit_val a, r)] else []) | [] \<Rightarrow> [])"

definition re_HM :: "string \<Rightarrow> (int \<times> int \<times> string) list" where
  "re_HM s =
     concat (map (\<lambda>(h, r1).
       concat (map (\<lambda>r2. map (\<lambda>(m, r3). (h, m, r3)) (re_M r2)) (re_colon r1))) (re_H s))"

definition strptime_HM :: "string \<Rightarrow> exn + datetime" where
  "strptime_HM data_string =
     (case re_HM data_string of
        [] \<Rightarrow> Inl ValueError
      | (h, m, rest) # _ \<Rightarrow>
          if rest \<noteq> [] then Inl ValueError
          else Inr \<lparr>dt_day = 0, dt_hour = h, dt_minute = m\<rparr>)"

text \<open>\<^verbatim>\<open>def parse_time_hhmm(t): return datetime.strptime(t.strip(), "%H:%M")\<close>\<close>

definition parse_time_hhmm :: "string \<Rightarrow> exn + datetime" where
  "parse_time_hhmm t = strptime_HM (strip t)"

subsection \<open>minutes_between\<close>

text \<open>
  Comparison, \<^verbatim>\<open>+ timedelta(days=1)\<close> and \<^verbatim>\<open>(e - s).total_seconds()\<close> on
  \<open>datetime\<close> values, through the number of seconds since 1900-01-01 00:00.
\<close>

definition dt_seconds :: "datetime \<Rightarrow> int" where
  "dt_seconds x = 86400 * dt_day x + 3600 * dt_hour x + 60 * dt_minute x"

definition add_days :: "datetime \<Rightarrow> int \<Rightarrow> datetime" where
  "add_days x n = x\<lparr>dt_day := dt_day x + n\<rparr>"

text \<open>
  \<^verbatim>\<open>
  def minutes_between(start, end):
      s = parse_time_hhmm(start)
      e = parse_time_hhmm(end)
      if e <= s:
          e += timedelta(days=1)
      return int((e - s).total_seconds() // 60)
  \<close>
\<close>

definition minutes_between :: "string \<Rightarrow> string \<Rightarrow> exn + int" where
  "minutes_between start end' =
     (case parse_time_hhmm start of
        Inl x \<Rightarrow> Inl x
      | Inr s \<Rightarrow>
          (case parse_time_hhmm end' of
             Inl x \<Rightarrow> Inl x
           | Inr e \<Rightarrow>
               (let e = (if dt_seconds e \<le> dt_seconds s then add_days e 1 else e)
                in Inr ((dt_seconds e - dt_seconds s) div 60))))"

subsection \<open>Dates\<close>

text \<open>
  A \<^verbatim>\<open>datetime.date\<close> has the attributes \<open>year\<close>, \<open>month\<close> and \<open>day\<close>. Its methods
  are those of the standard library's \<^verbatim>\<open>datetime.py\<close>: the ordinal of a date
  (\<^verbatim>\<open>_ymd2ord\<close>; day 1 is 0001-01-01), \<^verbatim>\<open>weekday()\<close> \<open>= (toordinal() + 6) % 7\<close>
  (0 is Monday), and comparison of the triples \<open>(year, month, day)\<close>. The constructor
  of \<open>date\<close> accepts only the dates of \<open>valid_date\<close>.
\<close>

record date =
  year :: int
  month :: int
  day :: int

definition is_leap :: "int \<Rightarrow> bool" where
  "is_leap y = (y mod 4 = 0 \<and> (y mod 100 \<noteq> 0 \<or> y mod 400 = 0))"

definition DAYS_IN_MONTH :: "int list" where
  "DAYS_IN_MONTH = [-1, 31, 28, 31, 30, 31, 30, 31, 31, 30, 31, 30, 31]"

definition DAYS_BEFORE_MONTH :: "int list" where
  "DAYS_BEFORE_MONTH = [-1, 0, 31, 59, 90, 120, 151, 181, 212, 243, 273, 304, 334]"

definition days_in_month :: "int \<Rightarrow> int \<Rightarrow> int" where
  "days_in_month y m = (if m = 2 \<and> is_leap y then 29 else DAYS_IN_MONTH ! nat m)"

definition days_before_year :: "int \<Rightarrow> int" where
  "days_before_year y' = (let y = y' - 1 in y * 365 + y div 4 - y div 100 + y div 400)"

definition days_before_month :: "int \<Rightarrow> int \<Rightarrow> int" where
  "days_before_month y m = DAYS_BEFORE_MONTH ! nat m + (if m > 2 \<and> is_leap y then 1 else 0)"

definition valid_date :: "date \<Rightarrow> bool" where
  "valid_date d =
     (1 \<le> year d \<and> year d \<le> 9999 \<and> 1 \<le> month d \<and> month d \<le> 12 \<and>
      1 \<le> day d \<and> day d \<le> days_in_month (year d) (month d))"

definition toordinal :: "date \<Rightarrow> int" where
  "toordinal d = days_before_year (year d) + days_before_month (year d) (month d) + day d"

definition date_weekday :: "date \<Rightarrow> int" where
  "date_weekday d = (toordinal d + 6) mod 7"

definition date_le :: "date \<Rightarrow> date \<Rightarrow> bool" where
  "date_le a b =
     (year a < year b \<or>
      (year a = year b \<and> (month a < month b \<or> (month a = month b \<and> day a \<le> day b))))"

text \<open>
  \<^verbatim>\<open>str(n)\<close> for \<open>n \<ge> 0\<close>, \<^verbatim>\<open>s.zfill(width)\<close> for a string without a sign, and
  \<^verbatim>\<open>s.replace(c, '')\<close> for a single character \<open>c\<close>.
\<close>

definition digit_char :: "nat \<Rightarrow> char" where
  "digit_char n = ''0123456789'' ! n"

fun str_nat :: "nat \<Rightarrow> string" where
  "str_nat n =
     (if n < 10 then [digit_char n]
      else str_nat (n div 10) @ [digit_char (n mod 10)])"

declare str_nat.simps [simp del]

definition zfill :: "nat \<Rightarrow> string \<Rightarrow> string" where
  "zfill width s = replicate (width - length s) (CHR ''0'') @ s"

definition remove_char :: "char \<Rightarrow> string \<Rightarrow> string" where
  "remove_char c s = filter (\<lambda>x. x \<noteq> c) s"

text \<open>
  \<^verbatim>\<open>d.strftime("%Y-%m-%d")\<close>: month and day padded to two digits. The year is
  written as the C library writes it, which on Linux is without padding; for the
  four-digit years of the date picker the two agree.
\<close>

definition strftime_ymd :: "date \<Rightarrow> string" where
  "strftime_ymd d =
     str_nat (nat (year d)) @ ''-'' @ zfill 2 (str_nat (nat (month d))) @ ''-'' @
     zfill 2 (str_nat (nat (day d)))"

text \<open>The string \<open>HH:MM\<close> of an hour and a minute, each written with two digits.\<close>

definition hhmm :: "nat \<Rightarrow> nat \<Rightarrow> string" where
  "hhmm h m = zfill 2 (str_nat h) @ '':'' @ zfill 2 (str_nat m)"

subsection \<open>Weekday labels\<close>

text \<open>
  \<^verbatim>\<open>WEEK_ORDER\<close> lists the seven Korean weekday labels, Monday first; each label is one
  Hangul syllable, written here as its three UTF-8 bytes. \<^verbatim>\<open>WEEKDAY_MAP\<close> maps
  \<^verbatim>\<open>date.weekday()\<close> to the label; a key outside 0..6 would raise \<open>KeyError\<close>.
\<close>

definition wd_mon :: string where "wd_mon = [CHR 0xEC, CHR 0x9B, CHR 0x94]"
definition wd_tue :: string where "wd_tue = [CHR 0xED, CHR 0x99, CHR 0x94]"
definition wd_wed :: string where "wd_wed = [CHR 0xEC, CHR 0x88, CHR 0x98]"
definition wd_thu :: string where "wd_thu = [CHR 0xEB, CHR 0xAA, CHR 0xA9]"
definition wd_fri :: string where "wd_fri = [CHR 0xEA, CHR 0xB8, CHR 0x88]"
definition wd_sat :: string where "wd_sat = [CHR 0xED, CHR 0x86, CHR 0xA0]"
definition wd_sun :: string where "wd_sun = [CHR 0xEC, CHR 0x9D, CHR 0xBC]"

definition WEEK_ORDER :: "string list" where
  "WEEK_ORDER = [wd_mon, wd_tue, wd_wed, wd_thu, wd_fri, wd_sat, wd_sun]"

definition WEEKDAY_MAP :: "(int \<times> string) list" where
  "WEEKDAY_MAP =
     [(0, wd_mon), (1, wd_tue), (2, wd_wed), (3, wd_thu), (4, wd_fri), (5, wd_sat), (6, wd_sun)]"

text \<open>\<^verbatim>\<open>def weekday_kr(d): return WEEKDAY_MAP[d.weekday()]\<close>\<close>

definition weekday_kr :: "date \<Rightarrow> exn + string" where
  "weekday_kr d =
     (case map_of WEEKDAY_MAP (date_weekday d) of None \<Rightarrow> Inl KeyError | Some w \<Rightarrow> Inr w)"

section \<open>The session store\<close>

text \<open>
  The store is the dictionary \<^verbatim>\<open>{"days": {date_str: {"weekday": wd, "sessions": [...]}}}\<close>
  kept in the browser session. A session is the dictionary \<^verbatim>\<open>add_session\<close> builds, with
  the keys \<open>id\<close>, \<open>subject\<close>, \<open>start\<close>, \<open>end\<close>, \<open>duration_min\<close>, \<open>focused_min\<close>,
  \<open>pause_count\<close> and \<open>created_at\<close>. The dictionary of the days is an association list in
  insertion order, as a Python \<open>dict\<close> keeps its keys.

  The store is also what an upload puts in its place, and the upload checks nothing below
  the key \<open>days\<close>: a day or a session of an uploaded snapshot may lack any of its keys.
  So every key of a day and of a session is a field that holds \<open>None\<close> when the dictionary
  has no such key, and \<open>dict_get\<close> is \<^verbatim>\<open>d.get(key, default)\<close>. The values that are
  present have the types \<^verbatim>\<open>add_session\<close> writes: strings, integers, a list of sessions.
\<close>

definition dict_get :: "'a option \<Rightarrow> 'a \<Rightarrow> 'a" where
  "dict_get v dflt = (case v of None \<Rightarrow> dflt | Some x \<Rightarrow> x)"

record session =
  key_id :: "string option"
  key_subject :: "string option"
  key_start :: "string option"
  key_end :: "string option"
  key_duration_min :: "int option"
  key_focused_min :: "int option"
  key_pause_count :: "int option"
  key_created_at :: "string option"

record bucket =
  key_weekday :: "string option"
  key_sessions :: "session list option"

record store =
  days :: "(string \<times> bucket) list"

text \<open>\<^verbatim>\<open>day.get("sessions", [])\<close>\<close>

definition sessions_of :: "bucket \<Rightarrow> session list" where
  "sessions_of b = dict_get (key_sessions b) []"

text \<open>
  \<^verbatim>\<open>
  def init_store():
      if "store" not in st.session_state:
          st.session_state.store = {"days": {}}
  \<close>
  The argument is the entry \<open>store\<close> of the session state, \<open>None\<close> when there is none yet.
\<close>

definition init_store :: "store option \<Rightarrow> store" where
  "init_store st = (case st of None \<Rightarrow> \<lparr>days = []\<rparr> | Some s \<Rightarrow> s)"

text \<open>
  What \<^verbatim>\<open>add_session\<close> reads from its environment: Python's \<open>hash\<close> of the tuple
  \<open>(ds, start, subject, now_str())\<close>, which differs from process to process, and the
  two readings of the clock by \<^verbatim>\<open>now_str()\<close>, the first inside the hash and the second
  for \<open>created_at\<close>.
\<close>

record env =
  py_hash :: "string \<times> string \<times> string \<times> string \<Rightarrow> int"
  now_str1 :: string
  now_str2 :: string

definition default_subject :: string where
  "default_subject = [CHR 0xEA, CHR 0xB3, CHR 0xB5, CHR 0xEB, CHR 0xB6, CHR 0x80]"

text \<open>
  \<^verbatim>\<open>
  def add_session(d, subject, start, end, pause, focused):
      store = st.session_state.store
      ds = d.strftime("%Y-%m-%d")
      if ds not in store["days"]:
          store["days"][ds] = {"weekday": weekday_kr(d), "sessions": []}
      dur = minutes_between(start, end)
      focused = clamp(int(focused), 0, dur)
      pause = max(0, int(pause))
      sid = f"{ds.replace('-','')}-{start.replace(':','')}-{str(abs(hash((ds, start, subject, now_str()))) % 10000).zfill(4)}"
      sess = {"id": sid, "subject": subject.strip() or default_subject,
              "start": start.strip(), "end": end.strip(), "duration_min": dur,
              "focused_min": focused, "pause_count": pause, "created_at": now_str()}
      store["days"][ds]["sessions"].append(sess)
  \<close>
  (\<open>default_subject\<close> stands for the literal of the source, a Korean word of two
  syllables.) The function mutates the store; the model returns the store as the call
  leaves it, and the exception when the call raises one. The bucket of the date is
  created before the times are parsed, so a call that raises on the times leaves the new
  bucket behind. The arguments \<open>pause\<close> and \<open>focused\<close> are the integers of the number
  inputs, on which \<^verbatim>\<open>int(...)\<close> changes nothing.

  \<open>ensure_bucket\<close> is the \<^verbatim>\<open>if ds not in store["days"]\<close> statement, \<open>new_session\<close>
  the lines from \<^verbatim>\<open>focused = clamp(...)\<close> to the end of the dictionary \<open>sess\<close>, and
  \<open>append_session\<close> the last line: the subscript \<^verbatim>\<open>["sessions"]\<close> raises \<open>KeyError\<close>
  when the bucket of the date, which an upload has put there, has no such key, and then
  the store holds no new session.
\<close>

definition ensure_bucket :: "date \<Rightarrow> store \<Rightarrow> exn + store" where
  "ensure_bucket d store =
     (let ds = strftime_ymd d in
      if map_of (days store) ds = None
      then (case weekday_kr d of
              Inl x \<Rightarrow> Inl x
            | Inr wd \<Rightarrow>
                Inr (store\<lparr>days :=
                       AList.update ds \<lparr>key_weekday = Some wd, key_sessions = Some []\<rparr> (days store)\<rparr>))
      else Inr store)"

definition new_session ::
  "env \<Rightarrow> string \<Rightarrow> string \<Rightarrow> string \<Rightarrow> string \<Rightarrow> int \<Rightarrow> int \<Rightarrow> int \<Rightarrow> session" where
  "new_session ev ds subject start end' pause focused dur =
     (let focused = clamp focused 0 dur;
          pause = max 0 pause;
          sid = remove_char (CHR ''-'') ds @ ''-'' @ remove_char (CHR '':'') start @ ''-'' @
                zfill 4 (str_nat (nat (\<bar>py_hash ev (ds, start, subject, now_str1 ev)\<bar> mod 10000)))
      in \<lparr>key_id = Some sid,
          key_subject = Some (if strip subject = [] then default_subject else strip subject),
          key_start = Some (strip start),
          key_end = Some (strip end'),
          key_duration_min = Some dur,
          key_focused_min = Some focused,
          key_pause_count = Some pause,
          key_created_at = Some (now_str2 ev)\<rparr>)"

definition append_session :: "string \<Rightarrow> session \<Rightarrow> store \<Rightarrow> store \<times> exn option" where
  "append_session ds sess store =
     (case map_of (days store) ds of
        None \<Rightarrow> (store, Some KeyError)
      | Some b0 \<Rightarrow>
          (case key_sessions b0 of
             None \<Rightarrow> (store, Some KeyError)
           | Some ss \<Rightarrow>
               (store\<lparr>days :=
                  AList.map_entry ds (\<lambda>b. b\<lparr>key_sessions := Some (ss @ [sess])\<rparr>) (days store)\<rparr>,
                None)))"

definition add_session ::
  "env \<Rightarrow> date \<Rightarrow> string \<Rightarrow> string \<Rightarrow> string \<Rightarrow> int \<Rightarrow> int \<Rightarrow> store \<Rightarrow> store \<times> exn option" where
  "add_session ev d subject start end' pause focused store =
     (let ds = strftime_ymd d in
      case ensure_bucket d store of
        Inl x \<Rightarrow> (store, Some x)
      | Inr store1 \<Rightarrow>
          (case minutes_between start end' of
             Inl x \<Rightarrow> (store1, Some x)
           | Inr dur \<Rightarrow>
               append_session ds (new_session ev ds subject start end' pause focused dur) store1))"

text \<open>
  \<^verbatim>\<open>
  def delete_session(session_id):
      store = st.session_state.store
      days = store.get("days", {})
      empty = []
      for ds, day in days.items():
          before = len(day.get("sessions", []))
          day["sessions"] = [s for s in day.get("sessions", []) if s.get("id") != session_id]
          if before != len(day["sessions"]) and len(day["sessions"]) == 0:
              empty.append(ds)
      for ds in empty:
          days.pop(ds, None)
  \<close>
  \<open>keep_others\<close> is the assignment to \<^verbatim>\<open>day["sessions"]\<close>, which gives the day the
  key \<open>sessions\<close> when it had none; \<open>emptied\<close> is the test of the \<^verbatim>\<open>if\<close>, and
  \<open>AList.delete\<close> the \<^verbatim>\<open>pop\<close>. A session without the key \<open>id\<close> has the id \<open>None\<close>,
  which is no string, and is kept.
\<close>

definition keep_others :: "string \<Rightarrow> bucket \<Rightarrow> bucket" where
  "keep_others session_id b =
     b\<lparr>key_sessions := Some (filter (\<lambda>s. key_id s \<noteq> Some session_id) (sessions_of b))\<rparr>"

definition emptied :: "string \<Rightarrow> bucket \<Rightarrow> bool" where
  "emptied session_id b =
     (let len_before = length (sessions_of b)
      in len_before \<noteq> length (sessions_of (keep_others session_id b)) \<and>
         length (sessions_of (keep_others session_id b)) = 0)"

definition delete_session :: "string \<Rightarrow> store \<Rightarrow> store" where
  "delete_session session_id store =
     (let empty = map fst (filter (\<lambda>(ds, b). emptied session_id b) (days store));
          days1 = map (\<lambda>(ds, b). (ds, keep_others session_id b)) (days store)
      in store\<lparr>days := fold AList.delete empty days1\<rparr>)"

text \<open>
  A call of the store's interface, and the store after a sequence of calls on the
  initial store. A call of \<^verbatim>\<open>add_session\<close> that raises counts as a call: the store
  goes on as that call left it.
\<close>

datatype call =
  Add env date string string string int int
| Delete string

fun apply_call :: "call \<Rightarrow> store \<Rightarrow> store" where
  "apply_call (Add ev d subject start end' pause focused) s =
     fst (add_session ev d subject start end' pause focused s)"
| "apply_call (Delete session_id) s = delete_session session_id s"

definition run_calls :: "call list \<Rightarrow> store" where
  "run_calls calls = fold apply_call calls (init_store None)"

subsection \<open>Flat rows\<close>

text \<open>
  \<^verbatim>\<open>
  def store_to_flat_rows(store):
      rows = []
      days = store.get("days", {})
      for date_str in sorted(days.keys()):
          day = days[date_str]
          wd = day.get("weekday", "")
          for s in day.get("sessions", []):
              rows.append({
                  "id": s.get("id", ""), "date": date_str, "weekday": wd,
                  "subject": s.get("subject", ""), "start": s.get("start", ""),
                  "end": s.get("end", ""),
                  "duration_min": int(s.get("duration_min", 0)),
                  "focused_min": int(s.get("focused_min", 0)),
                  "pause_count": int(s.get("pause_count", 0)),
                  "created_at": s.get("created_at", ""),
              })
      return rows
  \<close>
  A row has all the keys of a session, with the default in the place of a key the session
  lacks, and the keys \<open>date\<close> and \<open>weekday\<close>. The page adds the column \<open>date_obj\<close>, the date
  that \<^verbatim>\<open>pd.to_datetime\<close> reads from \<open>date\<close>.
\<close>

record row =
  sess_id :: string
  sess_subject :: string
  sess_start :: string
  sess_end :: string
  duration_min :: int
  focused_min :: int
  pause_count :: int
  created_at :: string
  row_date :: string
  row_weekday :: string

record drow = row +
  date_obj :: date

definition flat_row :: "string \<Rightarrow> string \<Rightarrow> session \<Rightarrow> row" where
  "flat_row date_str wd s =
     \<lparr>sess_id = dict_get (key_id s) '''',
      sess_subject = dict_get (key_subject s) '''',
      sess_start = dict_get (key_start s) '''',
      sess_end = dict_get (key_end s) '''',
      duration_min = dict_get (key_duration_min s) 0,
      focused_min = dict_get (key_focused_min s) 0,
      pause_count = dict_get (key_pause_count s) 0,
      created_at = dict_get (key_created_at s) '''',
      row_date = date_str, row_weekday = wd\<rparr>"

definition store_to_flat_rows :: "store \<Rightarrow> row list" where
  "store_to_flat_rows store =
     concat (map (\<lambda>(date_str, b). map (flat_row date_str (dict_get (key_weekday b) '''')) (sessions_of b))
                 (sort_key fst (days store)))"

section \<open>KPIs\<close>

subsection \<open>Integer columns\<close>

text \<open>
  A data frame is the list of its rows. pandas gives a column of integers the type it
  infers from the integers: \<open>int64\<close> when all of them fit a signed 64-bit integer,
  \<open>uint64\<close> when none is negative and all are below \<open>2\<^sup>6\<^sup>4\<close>, and a column of Python
  objects otherwise. \<^verbatim>\<open>Series.sum()\<close> adds an \<open>int64\<close> column as signed 64-bit integers,
  which wraps around modulo \<open>2\<^sup>6\<^sup>4\<close>, a \<open>uint64\<close> column modulo \<open>2\<^sup>6\<^sup>4\<close> without a sign, and
  a column of Python integers exactly. \<open>column_sum\<close> is the sum of a column whose type
  is the one inferred from its own integers, as in a frame built from its rows by
  \<^verbatim>\<open>pd.DataFrame(rows)\<close> and in a column computed by \<^verbatim>\<open>df.apply\<close>. (A frame cut out of a
  larger one keeps the column types of the larger frame; the two differ only when
  an integer of the larger frame does not fit 64 bits.)
\<close>

datatype dtype = Int64 | UInt64 | Object

definition int64 :: "int \<Rightarrow> bool" where
  "int64 n = (- (2 ^ 63) \<le> n \<and> n < 2 ^ 63)"

definition wrap_int64 :: "int \<Rightarrow> int" where
  "wrap_int64 n = (n + 2 ^ 63) mod 2 ^ 64 - 2 ^ 63"

definition infer_dtype :: "int list \<Rightarrow> dtype" where
  "infer_dtype xs =
     (if list_all int64 xs then Int64
      else if list_all (\<lambda>x. 0 \<le> x \<and> x < 2 ^ 64) xs then UInt64
      else Object)"

definition sum_dtype :: "dtype \<Rightarrow> int list \<Rightarrow> int" where
  "sum_dtype t xs =
     (case t of
        Int64 \<Rightarrow> wrap_int64 (sum_list xs)
      | UInt64 \<Rightarrow> sum_list xs mod 2 ^ 64
      | Object \<Rightarrow> sum_list xs)"

definition column_sum :: "int list \<Rightarrow> int" where
  "column_sum xs = sum_dtype (infer_dtype xs) xs"

subsection \<open>Floats\<close>

text \<open>
  A Python \<open>float\<close> is an IEEE 754 binary64 number, and each operation on floats returns
  the float nearest to the exact result, the one with the even significand when two are
  equally near. \<open>float64 x\<close> is that float for a real \<open>x\<close>: with \<open>2\<^sup>e \<le> |x| < 2\<^sup>e\<^sup>+\<^sup>1\<close>, the
  multiple of \<open>2\<^sup>e\<^sup>-\<^sup>5\<^sup>2\<close> nearest to \<open>x\<close>. \<open>rne\<close> rounds a real to the nearest integer, a tie
  to the even one, and \<open>exponent x\<close> is the \<open>e\<close> above, found from the number of bits of
  the integer part of \<open>|x|\<close>, or of \<open>1 / |x|\<close> when \<open>|x| < 1\<close>. The exponent of a binary64
  number is limited to the range from -1022 to 1023, and \<open>float64\<close> has no such limit:
  it is the float of the code for the quotients and products of integers of at most 64
  bits, which is what the sums of \<open>int64\<close> and \<open>uint64\<close> columns are. (With larger integers
  in a column of Python objects a division can raise \<open>OverflowError\<close>, which this model
  does not describe.)

  \<open>a / b\<close> on two integers is the float nearest to the quotient; \<open>x * 5\<close> on a float is
  the float nearest to the product; \<open>n / y\<close> on an integer and a float first converts
  the integer, to the float nearest to it.
\<close>

definition rne :: "real \<Rightarrow> int" where
  "rne x =
     (let f = \<lfloor>x\<rfloor>; d = x - of_int f
      in if d < 1 / 2 then f else if 1 / 2 < d then f + 1 else if even f then f else f + 1)"

definition exponent :: "real \<Rightarrow> int" where
  "exponent x =
     (if 1 \<le> \<bar>x\<bar> then bitlen \<lfloor>\<bar>x\<bar>\<rfloor> - 1 else - bitlen (\<lceil>1 / \<bar>x\<bar>\<rceil> - 1))"

definition float64 :: "real \<Rightarrow> real" where
  "float64 x =
     (if x = 0 then 0
      else (let e = exponent x in of_int (rne (x * 2 powi (52 - e))) * 2 powi (e - 52)))"

subsection \<open>compute_kpis\<close>

text \<open>
  \<^verbatim>\<open>
  def compute_kpis(df):
      if df.empty:
          return None
      total = int(df["duration_min"].sum())
      focused = int((df.apply(lambda r: clamp(int(r["focused_min"]), 0, int(r["duration_min"])), axis=1)).sum())
      pause = int(df["pause_count"].sum())
      ratio = (focused / total) if total > 0 else 0.0
      avg_focus = ratio * 5
      pause_rate = (pause / (total / 60)) if total > 0 else 0.0
      return {"total": total, "focused": focused, "pause": pause, "ratio": ratio,
              "avg_focus": avg_focus, "pause_rate": pause_rate, "sessions": len(df)}
  \<close>
  The three floats of the summary are the reals that the floats are.
\<close>

record kpi =
  kpi_total :: int
  kpi_focused :: int
  kpi_pause :: int
  kpi_ratio :: real
  kpi_avg_focus :: real
  kpi_pause_rate :: real
  kpi_sessions :: nat

definition compute_kpis :: "'a row_scheme list \<Rightarrow> kpi option" where
  "compute_kpis df =
     (if df = [] then None
      else
        (let total = column_sum (map duration_min df);
             focused = column_sum (map (\<lambda>r. clamp (focused_min r) 0 (duration_min r)) df);
             pause = column_sum (map pause_count df);
             ratio = (if total > 0 then float64 (real_of_int focused / real_of_int total) else 0);
             avg_focus = float64 (ratio * 5);
             pause_rate =
               (if total > 0
                then float64 (float64 (real_of_int pause) / float64 (real_of_int total / 60))
                else 0)
         in Some \<lparr>kpi_total = total, kpi_focused = focused, kpi_pause = pause,
                   kpi_ratio = ratio, kpi_avg_focus = avg_focus, kpi_pause_rate = pause_rate,
                   kpi_sessions = length df\<rparr>))"

section \<open>The date range\<close>

text \<open>
  \<^verbatim>\<open>
  mask = (df["date_obj"].dt.date >= start_date) & (df["date_obj"].dt.date <= end_date)
  fdf = df.loc[mask].copy()
  \<close>
\<close>

definition mask :: "date \<Rightarrow> date \<Rightarrow> 'a drow_scheme \<Rightarrow> bool" where
  "mask start_date end_date r = (date_le start_date (date_obj r) \<and> date_le (date_obj r) end_date)"

definition fdf :: "date \<Rightarrow> date \<Rightarrow> 'a drow_scheme list \<Rightarrow> 'a drow_scheme list" where
  "fdf start_date end_date df = filter (mask start_date end_date) df"

section \<open>Focused minutes by weekday\<close>

text \<open>
  \<^verbatim>\<open>
  if fdf.empty:
      st.info(...)
  else:
      fdf["focused_clamped"] = fdf.apply(lambda r: clamp(int(r["focused_min"]), 0, int(r["duration_min"])), axis=1)
      by_w = fdf.groupby("weekday")["focused_clamped"].sum().reindex(WEEK_ORDER, fill_value=0).reset_index()
  \<close>
  \<open>groupby_sum\<close> is the series of the sums by group, its index the sorted distinct keys;
  the sums are those of the type of the column \<open>focused_clamped\<close>, in every group;
  \<open>reindex\<close> is the series with the given labels as its index, each holding the value the
  old series has at the label, or \<open>fill_value\<close> when the old index has no such label.
  \<open>by_w\<close> is \<open>None\<close> when the frame is empty and no table is computed.
\<close>

definition focused_clamped :: "'a row_scheme \<Rightarrow> int" where
  "focused_clamped r = clamp (focused_min r) 0 (duration_min r)"

definition groupby_sum :: "(string \<times> int) list \<Rightarrow> (string \<times> int) list" where
  "groupby_sum kvs =
     (let t = infer_dtype (map snd kvs)
      in map (\<lambda>k. (k, sum_dtype t (map snd (filter (\<lambda>kv. fst kv = k) kvs))))
             (sort (remdups (map fst kvs))))"

definition reindex :: "string list \<Rightarrow> int \<Rightarrow> (string \<times> int) list \<Rightarrow> (string \<times> int) list" where
  "reindex labels fill_value ser =
     map (\<lambda>l. (l, case map_of ser l of Some v \<Rightarrow> v | None \<Rightarrow> fill_value)) labels"

definition by_w :: "'a row_scheme list \<Rightarrow> (string \<times> int) list option" where
  "by_w df =
     (if df = [] then None
      else Some (reindex WEEK_ORDER 0
                   (groupby_sum (map (\<lambda>r. (row_weekday r, focused_clamped r)) df))))"

section \<open>Export and import\<close>

text \<open>
  The store as the Python object it is, in the shape \<^verbatim>\<open>json.dumps\<close> writes and
  \<^verbatim>\<open>json.loads\<close> returns: strings, integers, lists and dictionaries with string keys
  (no store holds a float). \<open>store_obj\<close> is the object of a store; a dictionary has an
  item for each key that is present, \<open>opt_item\<close>, and none for a key that is missing.
\<close>

datatype json =
  JNull
| JBool bool
| JInt int
| JStr string
| JList "json list"
| JObj "(string \<times> json) list"

definition opt_item :: "string \<Rightarrow> ('a \<Rightarrow> json) \<Rightarrow> 'a option \<Rightarrow> (string \<times> json) list" where
  "opt_item k f v = (case v of None \<Rightarrow> [] | Some x \<Rightarrow> [(k, f x)])"

definition session_items :: "session \<Rightarrow> (string \<times> json) list" where
  "session_items s =
     opt_item ''id'' JStr (key_id s) @ opt_item ''subject'' JStr (key_subject s) @
     opt_item ''start'' JStr (key_start s) @ opt_item ''end'' JStr (key_end s) @
     opt_item ''duration_min'' JInt (key_duration_min s) @
     opt_item ''focused_min'' JInt (key_focused_min s) @
     opt_item ''pause_count'' JInt (key_pause_count s) @
     opt_item ''created_at'' JStr (key_created_at s)"

definition session_obj :: "session \<Rightarrow> json" where
  "session_obj s = JObj (session_items s)"

definition bucket_items :: "bucket \<Rightarrow> (string \<times> json) list" where
  "bucket_items b =
     opt_item ''weekday'' JStr (key_weekday b) @
     opt_item ''sessions'' (\<lambda>ss. JList (map session_obj ss)) (key_sessions b)"

definition bucket_obj :: "bucket \<Rightarrow> json" where
  "bucket_obj b = JObj (bucket_items b)"

definition store_obj :: "store \<Rightarrow> json" where
  "store_obj s = JObj [(''days'', JObj (map (\<lambda>(ds, b). (ds, bucket_obj b)) (days s)))]"

text \<open>
  \<^verbatim>\<open>
  store_json = json.dumps(st.session_state.store, ensure_ascii=False, indent=2)
  st.download_button(..., data=store_json.encode("utf-8"), ...)

  up = st.file_uploader(...)
  if up is not None:
      try:
          obj = json.loads(up.read().decode("utf-8"))
          if isinstance(obj, dict) and "days" in obj:
              st.session_state.store = {"days": obj["days"]}
              st.success(...)
          else:
              st.error(...)
      except Exception:
          st.error(...)
  \<close>
  The library's \<open>dumps\<close> and \<open>loads\<close> are parameters, \<open>loads\<close> returning \<open>None\<close> when
  it raises. \<open>upload\<close> returns the object the session state holds as its store after
  the upload, and the message shown.
\<close>

datatype message = Restored | DaysKeyMissing | ParseFailed

definition download :: "(json \<Rightarrow> 'txt) \<Rightarrow> store \<Rightarrow> 'txt" where
  "download dumps s = dumps (store_obj s)"

definition upload :: "('txt \<Rightarrow> json option) \<Rightarrow> 'txt \<Rightarrow> json \<Rightarrow> json \<times> message" where
  "upload loads up cur =
     (case loads up of
        None \<Rightarrow> (cur, ParseFailed)
      | Some obj \<Rightarrow>
          (case obj of
             JObj kvs \<Rightarrow>
               (case map_of kvs ''days'' of
                  Some v \<Rightarrow> (JObj [(''days'', v)], Restored)
                | None \<Rightarrow> (cur, DaysKeyMissing))
           | _ \<Rightarrow> (cur, DaysKeyMissing)))"

section \<open>Example values\<close>

text \<open>
  A fixed environment, two dates (Monday 2024-01-01 and Sunday 2023-12-31) and a
  sequence of two \<^verbatim>\<open>add_session\<close> calls, used to evaluate the model at concrete inputs.
\<close>

definition ex_env :: env where
  "ex_env = \<lparr>py_hash = (\<lambda>_. - 1234567), now_str1 = ''2024-01-01 09:00'',
             now_str2 = ''2024-01-01 09:01''\<rparr>"

definition ex_monday :: date where
  "ex_monday = \<lparr>year = 2024, month = 1, day = 1\<rparr>"

definition ex_sunday :: date where
  "ex_sunday = \<lparr>year = 2023, month = 12, day = 31\<rparr>"

definition ex_calls :: "call list" where
  "ex_calls =
     [Add ex_env ex_monday ''math'' ''10:00'' ''11:00'' 2 500,
      Add ex_env ex_sunday ''  '' ''23:30'' ''0:15'' (- 3) (- 10)]"

definition ex_session_mon :: session where
  "ex_session_mon =
     \<lparr>key_id = Some ''20240101-1000-4567'', key_subject = Some ''math'',
      key_start = Some ''10:00'', key_end = Some ''11:00'', key_duration_min = Some 60,
      key_focused_min = Some 60, key_pause_count = Some 2,
      key_created_at = Some ''2024-01-01 09:01''\<rparr>"

definition ex_session_sun :: session where
  "ex_session_sun =
     \<lparr>key_id = Some ''20231231-2330-4567'', key_subject = Some default_subject,
      key_start = Some ''23:30'', key_end = Some ''0:15'', key_duration_min = Some 45,
      key_focused_min = Some 0, key_pause_count = Some 0,
      key_created_at = Some ''2024-01-01 09:01''\<rparr>"

definition ex_store :: store where
  "ex_store =
     \<lparr>days = [(''2024-01-01'', \<lparr>key_weekday = Some wd_mon, key_sessions = Some [ex_session_mon]\<rparr>),
              (''2023-12-31'', \<lparr>key_weekday = Some wd_sun, key_sessions = Some [ex_session_sun]\<rparr>)]\<rparr>"

text \<open>
  A store as an upload can leave it: the snapshot
  \<^verbatim>\<open>{"days": {"2024-01-01": {"weekday": wd_mon}}}\<close>, whose only day has no key \<open>sessions\<close>.
\<close>

definition ex_uploaded :: store where
  "ex_uploaded = \<lparr>days = [(''2024-01-01'', \<lparr>key_weekday = Some wd_mon, key_sessions = None\<rparr>)]\<rparr>"

text \<open>A row of the page's frame for a session of one hour on the date \<open>d\<close>.\<close>

definition ex_row_on :: "date \<Rightarrow> drow" where
  "ex_row_on d =
     \<lparr>sess_id = ''id'', sess_subject = ''math'', sess_start = ''10:00'', sess_end = ''11:00'',
      duration_min = 60, focused_min = 40, pause_count = 1, created_at = ''2024-01-03 09:00'',
      row_date = strftime_ymd d,
      row_weekday = (case weekday_kr d of Inl _ \<Rightarrow> [] | Inr w \<Rightarrow> w),
      date_obj = d\<rparr>"

section \<open>Time arithmetic\<close>

text \<open>The definitions that evaluate \<open>minutes_between\<close> at concrete strings.\<close>

lemmas time_defs =
  minutes_between_def parse_time_hhmm_def strptime_HM_def re_HM_def re_H_def re_M_def
  re_colon_def strip_def isspace_def isdigit_def digit_val_def dt_seconds_def add_days_def

lemma isdigit_val: "isdigit c \<Longrightarrow> 0 \<le> digit_val c \<and> digit_val c \<le> 9"
  by (auto simp: isdigit_def digit_val_def Let_def)

lemma re_H_range: "(h, r) \<in> set (re_H s) \<Longrightarrow> 0 \<le> h \<and> h < 24"
  unfolding re_H_def
  by (auto split: list.splits if_splits dest: isdigit_val simp: digit_val_def)

lemma re_M_range: "(m, r) \<in> set (re_M s) \<Longrightarrow> 0 \<le> m \<and> m < 60"
  unfolding re_M_def
  by (auto split: list.splits if_splits dest: isdigit_val simp: digit_val_def)

lemma re_HM_range: "(h, m, r) \<in> set (re_HM s) \<Longrightarrow> 0 \<le> h \<and> h < 24 \<and> 0 \<le> m \<and> m < 60"
  unfolding re_HM_def
  by (auto dest: re_H_range re_M_range)

text \<open>A time that parses is a time of day on day 0: hour in 0..23, minute in 0..59.\<close>

lemma strptime_HM_range:
  assumes "strptime_HM s = Inr x"
  shows "dt_day x = 0 \<and> 0 \<le> dt_hour x \<and> dt_hour x < 24 \<and> 0 \<le> dt_minute x \<and> dt_minute x < 60"
proof (cases "re_HM s")
  case Nil
  with assms show ?thesis by (simp add: strptime_HM_def)
next
  case (Cons p ps)
  obtain h m r where p: "p = (h, m, r)" by (cases p)
  have "(h, m, r) \<in> set (re_HM s)" using Cons p by simp
  then have "0 \<le> h \<and> h < 24 \<and> 0 \<le> m \<and> m < 60" by (rule re_HM_range)
  moreover have "x = \<lparr>dt_day = 0, dt_hour = h, dt_minute = m\<rparr>"
    using assms Cons p by (simp add: strptime_HM_def split: if_splits)
  ultimately show ?thesis by simp
qed

lemma parse_time_hhmm_range:
  "parse_time_hhmm t = Inr x \<Longrightarrow>
     dt_day x = 0 \<and> 0 \<le> dt_hour x \<and> dt_hour x < 24 \<and> 0 \<le> dt_minute x \<and> dt_minute x < 60"
  unfolding parse_time_hhmm_def by (rule strptime_HM_range)

lemma minutes_between_Inr:
  assumes "parse_time_hhmm start = Inr s" and "parse_time_hhmm end' = Inr e"
  shows "minutes_between start end' =
           Inr (if 60 * dt_hour s + dt_minute s < 60 * dt_hour e + dt_minute e
                then (60 * dt_hour e + dt_minute e) - (60 * dt_hour s + dt_minute s)
                else (60 * dt_hour e + dt_minute e + 1440) - (60 * dt_hour s + dt_minute s))"
proof -
  from parse_time_hhmm_range[OF assms(1)] parse_time_hhmm_range[OF assms(2)]
  have d: "dt_day s = 0" "dt_day e = 0" by simp_all
  show ?thesis
    using assms d by (simp add: minutes_between_def dt_seconds_def add_days_def Let_def)
qed

lemma minutes_between_parsed:
  "minutes_between start end' = Inr n \<Longrightarrow>
     \<exists>s e. parse_time_hhmm start = Inr s \<and> parse_time_hhmm end' = Inr e"
  by (auto simp: minutes_between_def split: sum.splits)

lemma minutes_between_bounds:
  assumes "minutes_between start end' = Inr n"
  shows "1 \<le> n \<and> n \<le> 1440"
proof -
  from minutes_between_parsed[OF assms] obtain s e
    where p: "parse_time_hhmm start = Inr s" "parse_time_hhmm end' = Inr e" by blast
  from parse_time_hhmm_range[OF p(1)] parse_time_hhmm_range[OF p(2)]
    minutes_between_Inr[OF p] assms
  show ?thesis by (auto split: if_splits)
qed

text \<open>Every string \<open>HH:MM\<close> of a time of day parses, to that hour and minute.\<close>

lemma digit_cases: "k < 10 \<Longrightarrow> k \<in> {0, 1, 2, 3, 4, 5, 6, 7, 8, 9 :: nat}"
  by auto

lemma digit_char_simps:
  "digit_char 0 = CHR ''0''" "digit_char 1 = CHR ''1''" "digit_char 2 = CHR ''2''"
  "digit_char 3 = CHR ''3''" "digit_char 4 = CHR ''4''" "digit_char 5 = CHR ''5''"
  "digit_char 6 = CHR ''6''" "digit_char 7 = CHR ''7''" "digit_char 8 = CHR ''8''"
  "digit_char 9 = CHR ''9''" "digit_char (Suc 0) = CHR ''1''"
  by (simp_all add: digit_char_def)

lemma digit_char_props:
  assumes "k < 10"
  shows "isdigit (digit_char k)" and "digit_val (digit_char k) = int k"
    and "\<not> isspace (digit_char k)" and "digit_char k \<noteq> CHR '':''"
  using digit_cases[OF assms]
  by (auto simp: digit_char_simps isdigit_def digit_val_def isspace_def)

lemma zfill2_str_nat:
  assumes "n < 100"
  shows "zfill 2 (str_nat n) = [digit_char (n div 10), digit_char (n mod 10)]"
proof (cases "n < 10")
  case True
  then show ?thesis by (simp add: zfill_def digit_char_simps str_nat.simps[of n])
next
  case False
  with assms have "n div 10 < 10" by simp
  with False show ?thesis by (simp add: zfill_def str_nat.simps[of n] str_nat.simps[of "n div 10"])
qed

lemma strip_digits:
  assumes "a < 10" and "z < 10"
  shows "strip (digit_char a # xs @ [digit_char z]) = digit_char a # xs @ [digit_char z]"
  using digit_char_props(3)[OF assms(1)] digit_char_props(3)[OF assms(2)]
  by (simp add: strip_def)

lemma re_H_digits:
  assumes "a \<le> 2" and "b < 10" and "a = 2 \<longrightarrow> b \<le> 3"
  shows "\<exists>tl. re_H (digit_char a # digit_char b # r) = (10 * int a + int b, r) # tl"
proof -
  from assms(1) consider "a = 0" | "a = 1" | "a = 2" by linarith
  then show ?thesis
  proof cases
    case 1
    with digit_cases[OF assms(2)] show ?thesis
      by (elim insertE emptyE; simp add: re_H_def digit_char_simps isdigit_def digit_val_def)
  next
    case 2
    with digit_cases[OF assms(2)] show ?thesis
      by (elim insertE emptyE; simp add: re_H_def digit_char_simps isdigit_def digit_val_def)
  next
    case 3
    with assms(3) have "b \<in> {0, 1, 2, 3}" by auto
    with 3 show ?thesis
      by (elim insertE emptyE; simp add: re_H_def digit_char_simps isdigit_def digit_val_def)
  qed
qed

lemma re_M_digits:
  assumes "a \<le> 5" and "b < 10"
  shows "\<exists>tl. re_M (digit_char a # digit_char b # r) = (10 * int a + int b, r) # tl"
proof -
  from assms(1) have "a \<in> {0, 1, 2, 3, 4, 5}" by auto
  with digit_cases[OF assms(2)] show ?thesis
    by (elim insertE emptyE; simp add: re_M_def digit_char_simps isdigit_def digit_val_def)
qed

lemma re_H_two_digits:
  assumes "h < 24"
  shows "\<exists>tl. re_H (digit_char (h div 10) # digit_char (h mod 10) # r) = (int h, r) # tl"
proof -
  have "h = 10 * (h div 10) + h mod 10" by simp
  then have h: "int h = 10 * int (h div 10) + int (h mod 10)" by linarith
  have "h div 10 \<le> 2" "h mod 10 < 10" "h div 10 = 2 \<longrightarrow> h mod 10 \<le> 3"
    using assms by presburger+
  from re_H_digits[OF this, of r] h show ?thesis by simp
qed

lemma re_M_two_digits:
  assumes "m < 60"
  shows "\<exists>tl. re_M (digit_char (m div 10) # digit_char (m mod 10) # r) = (int m, r) # tl"
proof -
  have "m = 10 * (m div 10) + m mod 10" by simp
  then have m: "int m = 10 * int (m div 10) + int (m mod 10)" by linarith
  have "m div 10 \<le> 5" "m mod 10 < 10" using assms by presburger+
  from re_M_digits[OF this, of r] m show ?thesis by simp
qed

lemma parse_time_hhmm_hhmm:
  assumes "h < 24" and "m < 60"
  shows "parse_time_hhmm (hhmm h m) = Inr \<lparr>dt_day = 0, dt_hour = int h, dt_minute = int m\<rparr>"
proof -
  let ?s = "[digit_char (h div 10), digit_char (h mod 10), CHR '':'',
             digit_char (m div 10), digit_char (m mod 10)]"
  have s: "hhmm h m = ?s" using assms by (simp add: hhmm_def zfill2_str_nat)
  have "strip ?s = ?s"
    using strip_digits[of "h div 10" "m mod 10"
        "[digit_char (h mod 10), CHR '':'', digit_char (m div 10)]"] assms
    by simp
  moreover from re_H_two_digits[OF assms(1)] obtain t1 where
    "re_H ?s = (int h, [CHR '':'', digit_char (m div 10), digit_char (m mod 10)]) # t1"
    by blast
  moreover from re_M_two_digits[OF assms(2)] obtain t2 where
    "re_M [digit_char (m div 10), digit_char (m mod 10)] = (int m, []) # t2"
    by blast
  ultimately show ?thesis
    by (simp add: s parse_time_hhmm_def strptime_HM_def re_HM_def re_colon_def)
qed

text \<open>
  C5. When both strings parse as times, \<open>minutes_between\<close> returns the difference of the
  two times of day in minutes if the end is strictly later in the day than the start,
  and otherwise that difference after 24 hours are added to the end. Every string
  \<open>HH:MM\<close> with an hour from 00 to 23 and a minute from 00 to 59 parses, so this holds
  for every pair of such strings. From 10:00 to 11:30 it is 90 minutes, and from 23:30 to
  00:15, across midnight, 45 minutes.
\<close>

theorem minutes_between_difference:
  "(parse_time_hhmm start = Inr s \<and> parse_time_hhmm end' = Inr e \<longrightarrow>
      minutes_between start end' =
        Inr (if 60 * dt_hour s + dt_minute s < 60 * dt_hour e + dt_minute e
             then (60 * dt_hour e + dt_minute e) - (60 * dt_hour s + dt_minute s)
             else (60 * dt_hour e + dt_minute e + 24 * 60) - (60 * dt_hour s + dt_minute s)))
   \<and> (h1 < 24 \<and> m1 < 60 \<and> h2 < 24 \<and> m2 < 60 \<longrightarrow>
        minutes_between (hhmm h1 m1) (hhmm h2 m2) =
          Inr (if 60 * h1 + m1 < 60 * h2 + m2
               then int (60 * h2 + m2) - int (60 * h1 + m1)
               else int (60 * h2 + m2) + 24 * 60 - int (60 * h1 + m1)))
   \<and> minutes_between ''10:00'' ''11:30'' = Inr 90
   \<and> minutes_between ''23:30'' ''00:15'' = Inr 45"
proof (intro conjI impI)
  assume "parse_time_hhmm start = Inr s \<and> parse_time_hhmm end' = Inr e"
  then show "minutes_between start end' =
        Inr (if 60 * dt_hour s + dt_minute s < 60 * dt_hour e + dt_minute e
             then (60 * dt_hour e + dt_minute e) - (60 * dt_hour s + dt_minute s)
             else (60 * dt_hour e + dt_minute e + 24 * 60) - (60 * dt_hour s + dt_minute s))"
    using minutes_between_Inr[of start s end' e] by simp
next
  assume a: "h1 < 24 \<and> m1 < 60 \<and> h2 < 24 \<and> m2 < 60"
  then have p1: "parse_time_hhmm (hhmm h1 m1) = Inr \<lparr>dt_day = 0, dt_hour = int h1, dt_minute = int m1\<rparr>"
    and p2: "parse_time_hhmm (hhmm h2 m2) = Inr \<lparr>dt_day = 0, dt_hour = int h2, dt_minute = int m2\<rparr>"
    by (simp_all add: parse_time_hhmm_hhmm)
  have "(60 * int h1 + int m1 < 60 * int h2 + int m2) = (60 * h1 + m1 < 60 * h2 + m2)"
    by linarith
  with minutes_between_Inr[OF p1 p2]
  show "minutes_between (hhmm h1 m1) (hhmm h2 m2) =
          Inr (if 60 * h1 + m1 < 60 * h2 + m2
               then int (60 * h2 + m2) - int (60 * h1 + m1)
               else int (60 * h2 + m2) + 24 * 60 - int (60 * h1 + m1))"
    by simp
next
  show "minutes_between ''10:00'' ''11:30'' = Inr 90" by (simp add: time_defs)
next
  show "minutes_between ''23:30'' ''00:15'' = Inr 45" by (simp add: time_defs)
qed

theorem minutes_between_difference_witness:
  "parse_time_hhmm ''09:15'' = Inr \<lparr>dt_day = 0, dt_hour = 9, dt_minute = 15\<rparr>
   \<and> parse_time_hhmm ''17:05'' = Inr \<lparr>dt_day = 0, dt_hour = 17, dt_minute = 5\<rparr>
   \<and> minutes_between ''09:15'' ''17:05'' = Inr 470
   \<and> minutes_between ''17:05'' ''09:15'' = Inr 970
   \<and> hhmm 22 40 = ''22:40'' \<and> hhmm 6 5 = ''06:05''
   \<and> minutes_between ''22:40'' ''06:05'' = Inr 445"
proof -
  have a: "parse_time_hhmm ''09:15'' = Inr \<lparr>dt_day = 0, dt_hour = 9, dt_minute = 15\<rparr>"
    by (simp add: time_defs)
  have b: "parse_time_hhmm ''17:05'' = Inr \<lparr>dt_day = 0, dt_hour = 17, dt_minute = 5\<rparr>"
    by (simp add: time_defs)
  from a b minutes_between_difference[of "''09:15''" _ "''17:05''"]
  have c: "minutes_between ''09:15'' ''17:05'' = Inr 470" by simp
  from a b minutes_between_difference[of "''17:05''" _ "''09:15''"]
  have d: "minutes_between ''17:05'' ''09:15'' = Inr 970" by simp
  have f: "hhmm 22 40 = ''22:40''" "hhmm 6 5 = ''06:05''"
    by (simp_all add: hhmm_def zfill_def str_nat.simps digit_char_def)
  have "(22::nat) < 24 \<and> (40::nat) < 60 \<and> (6::nat) < 24 \<and> (5::nat) < 60" by simp
  with minutes_between_difference[where ?h1.0 = 22 and ?m1.0 = 40 and ?h2.0 = 6 and ?m2.0 = 5]
  have "minutes_between (hhmm 22 40) (hhmm 6 5) = Inr 445" by simp
  then have g: "minutes_between ''22:40'' ''06:05'' = Inr 445" by (simp only: f)
  from a b c d f g show ?thesis by simp
qed

section \<open>KPI summary\<close>

lemma clamp_bounds: "lo \<le> hi \<Longrightarrow> lo \<le> clamp v lo hi \<and> clamp v lo hi \<le> hi"
  by (simp add: clamp_def)

lemma clamp_nonneg: "0 \<le> clamp v 0 hi"
  by (simp add: clamp_def)

lemma sum_clamp_nonneg: "0 \<le> sum_list (map (\<lambda>r. clamp (focused_min r) 0 (duration_min r)) df)"
  by (rule sum_list_nonneg) (auto simp: clamp_nonneg)

lemma sum_clamp_le_total:
  "(\<forall>r\<in>set df. 0 \<le> duration_min r) \<Longrightarrow>
     sum_list (map (\<lambda>r. clamp (focused_min r) 0 (duration_min r)) df) \<le> sum_list (map duration_min df)"
  by (rule sum_list_mono) (simp add: clamp_bounds)

subsection \<open>Sums of columns\<close>

text \<open>
  A sum that lies in the signed 64-bit range is the exact sum, whatever the type of the
  column: 64-bit addition does not wrap around there.
\<close>

lemma wrap_int64_id: "int64 n \<Longrightarrow> wrap_int64 n = n"
  by (simp add: int64_def wrap_int64_def)

lemma sum_dtype_exact:
  assumes "set xs \<subseteq> set ys" and "int64 (sum_list xs)"
  shows "sum_dtype (infer_dtype ys) xs = sum_list xs"
proof (cases "infer_dtype ys")
  case Int64
  with assms(2) show ?thesis by (simp add: sum_dtype_def wrap_int64_id)
next
  case UInt64
  then have "list_all (\<lambda>x. 0 \<le> x \<and> x < 2 ^ 64) ys"
    by (simp add: infer_dtype_def split: if_splits)
  with assms(1) have "\<forall>x\<in>set xs. 0 \<le> x" by (auto simp: list_all_iff)
  then have "0 \<le> sum_list xs" by (simp add: sum_list_nonneg)
  moreover from assms(2) have "sum_list xs < 2 ^ 64" by (simp add: int64_def)
  ultimately show ?thesis using UInt64 by (simp add: sum_dtype_def)
next
  case Object
  then show ?thesis by (simp add: sum_dtype_def)
qed

lemma column_sum_exact: "int64 (sum_list xs) \<Longrightarrow> column_sum xs = sum_list xs"
  unfolding column_sum_def by (rule sum_dtype_exact) simp_all

lemmas int64_defs =
  column_sum_def sum_dtype_def infer_dtype_def int64_def wrap_int64_def

subsection \<open>Rounding to a float\<close>

lemma rne_of_int: "rne (of_int n) = n"
  by (simp add: rne_def)

lemma rne_floor_le: "\<lfloor>x\<rfloor> \<le> rne x" and rne_le_floor: "rne x \<le> \<lfloor>x\<rfloor> + 1"
  by (simp_all add: rne_def Let_def)

lemma rne_ge: "of_int n \<le> x \<Longrightarrow> n \<le> rne x"
proof -
  assume "of_int n \<le> x"
  then have "n \<le> \<lfloor>x\<rfloor>" by (simp add: le_floor_iff)
  with rne_floor_le[of x] show ?thesis by simp
qed

lemma rne_le:
  assumes "x \<le> of_int n"
  shows "rne x \<le> n"
proof (cases "\<lfloor>x\<rfloor> = n")
  case True
  then have "of_int n \<le> x" by (metis of_int_floor_le)
  with assms have "x = of_int n" by simp
  then show ?thesis by (simp add: rne_of_int)
next
  case False
  from assms have "\<lfloor>x\<rfloor> \<le> n" by (simp add: floor_le_iff)
  with False have "\<lfloor>x\<rfloor> + 1 \<le> n" by simp
  with rne_le_floor[of x] show ?thesis by simp
qed

text \<open>The exponent of a real other than 0 is the \<open>e\<close> with \<open>2\<^sup>e \<le> |x| < 2\<^sup>e\<^sup>+\<^sup>1\<close>.\<close>

lemma exponent_bounds:
  assumes "x \<noteq> 0"
  shows "2 powi exponent x \<le> \<bar>x\<bar> \<and> \<bar>x\<bar> < 2 powi (exponent x + 1)"
proof (cases "1 \<le> \<bar>x\<bar>")
  case True
  define n where "n = \<lfloor>\<bar>x\<bar>\<rfloor>"
  have n: "0 < n" using True by (simp add: n_def)
  define b where "b = bitlen n"
  from bitlen_bounds[OF n] have bb: "2 ^ nat (b - 1) \<le> n" "n < 2 ^ nat b" by (simp_all add: b_def)
  have b1: "1 \<le> b" using n by (simp add: b_def bitlen_ge_iff_power)
  have e: "exponent x = b - 1" using True by (simp add: exponent_def n_def b_def)
  have "2 powi (b - 1) = (2::real) ^ nat (b - 1)" using b1 by (simp add: power_int_def)
  also have "\<dots> = of_int (2 ^ nat (b - 1))" by simp
  also have "\<dots> \<le> of_int n" using bb(1) by (simp only: of_int_le_iff)
  also have "\<dots> \<le> \<bar>x\<bar>" by (simp add: n_def)
  finally have lo: "2 powi (b - 1) \<le> \<bar>x\<bar>" .
  have "n + 1 \<le> 2 ^ nat b" using bb(2) by simp
  then have "real_of_int (n + 1) \<le> of_int (2 ^ nat b)" by (simp only: of_int_le_iff)
  moreover have "\<bar>x\<bar> < real_of_int (n + 1)" by (simp add: n_def)
  ultimately have "\<bar>x\<bar> < (2::real) ^ nat b" by simp
  also have "\<dots> = 2 powi b" using b1 by (simp add: power_int_def)
  finally have hi: "\<bar>x\<bar> < 2 powi b" .
  from lo hi e show ?thesis by simp
next
  case False
  define y where "y = 1 / \<bar>x\<bar>"
  have x: "0 < \<bar>x\<bar>" "\<bar>x\<bar> < 1" using assms False by simp_all
  then have y1: "1 < y" by (simp add: y_def)
  define n where "n = \<lceil>y\<rceil>"
  have ny: "y \<le> of_int n" "of_int n - 1 < y" by (simp_all add: n_def) linarith
  from y1 ny(1) have "1 < real_of_int n" by linarith
  then have n2: "2 \<le> n" by simp
  then have n1: "0 < n - 1" by simp
  define b where "b = bitlen (n - 1)"
  from bitlen_bounds[OF n1] have bb: "2 ^ nat (b - 1) \<le> n - 1" "n - 1 < 2 ^ nat b"
    by (simp_all add: b_def)
  have b1: "1 \<le> b" using n1 by (simp add: b_def bitlen_ge_iff_power)
  have e: "exponent x = - b" using False by (simp add: exponent_def n_def b_def y_def)
  have xy: "\<bar>x\<bar> = 1 / y" using x by (simp add: y_def)
  have "n \<le> 2 ^ nat b" using bb(2) by simp
  then have "real_of_int n \<le> of_int (2 ^ nat b)" by (simp only: of_int_le_iff)
  moreover have "real_of_int (2 ^ nat b) = 2 ^ nat b" by simp
  ultimately have yb: "y \<le> 2 ^ nat b" using ny(1) by linarith
  have "2 powi (- b) = 1 / (2::real) ^ nat b" using b1 by (simp add: power_int_def field_simps)
  also have "\<dots> \<le> 1 / y" using yb y1 by (simp add: frac_le)
  finally have lo: "2 powi (- b) \<le> \<bar>x\<bar>" by (simp add: xy)
  have "real_of_int (2 ^ nat (b - 1)) \<le> of_int (n - 1)" using bb(1) by (simp only: of_int_le_iff)
  moreover have "real_of_int (2 ^ nat (b - 1)) = 2 ^ nat (b - 1)" by simp
  moreover have "real_of_int (n - 1) = of_int n - 1" by simp
  ultimately have by': "(2::real) ^ nat (b - 1) < y" using ny(2) by linarith
  have "1 / y < 1 / (2::real) ^ nat (b - 1)" using by' by (simp add: frac_less2)
  also have "\<dots> = 2 powi (- b + 1)"
  proof -
    have "(2::real) powi (- b + 1) = 2 powi (- (b - 1))" by simp
    also have "\<dots> = inverse (2 powi (b - 1))" by (rule power_int_minus)
    also have "(2::real) powi (b - 1) = 2 ^ nat (b - 1)" using b1 by (simp add: power_int_def)
    finally show ?thesis by (simp add: inverse_eq_divide)
  qed
  finally have hi: "\<bar>x\<bar> < 2 powi (- b + 1)" by (simp add: xy)
  from lo hi e show ?thesis by simp
qed

lemma exponent_unique:
  assumes "2 powi e \<le> a" "a < 2 powi (e + 1)" "2 powi e' \<le> (a::real)" "a < 2 powi (e' + 1)"
  shows "e = e'"
proof (rule ccontr)
  assume "e \<noteq> e'"
  then consider "e + 1 \<le> e'" | "e' + 1 \<le> e" by linarith
  then show False
  proof cases
    case 1
    then have "(2::real) powi (e + 1) \<le> 2 powi e'" by (rule power_int_increasing) simp
    with assms show False by linarith
  next
    case 2
    then have "(2::real) powi (e' + 1) \<le> 2 powi e" by (rule power_int_increasing) simp
    with assms show False by linarith
  qed
qed

lemma exponent_eq:
  assumes "2 powi e \<le> \<bar>x\<bar>" and "\<bar>x\<bar> < 2 powi (e + 1)"
  shows "exponent x = e"
proof -
  have "0 < (2::real) powi e" by (rule zero_less_power_int) simp
  with assms(1) have "0 < \<bar>x\<bar>" by linarith
  then have "x \<noteq> 0" by simp
  from exponent_bounds[OF this] assms show ?thesis
    by (auto intro: exponent_unique)
qed

text \<open>The float of a real whose exponent is known.\<close>

lemma float64_eq:
  assumes "2 powi e \<le> \<bar>x\<bar>" and "\<bar>x\<bar> < 2 powi (e + 1)"
  shows "float64 x = of_int (rne (x * 2 powi (52 - e))) * 2 powi (e - 52)"
proof -
  have "0 < (2::real) powi e" by (rule zero_less_power_int) simp
  with assms(1) have "0 < \<bar>x\<bar>" by linarith
  then have "x \<noteq> 0" by simp
  then show ?thesis by (simp add: float64_def Let_def exponent_eq[OF assms])
qed

text \<open>A real that is a multiple of \<open>2\<^sup>e\<^sup>-\<^sup>5\<^sup>2\<close> is a float, and is its own float.\<close>

lemma float64_exact:
  assumes "2 powi e \<le> \<bar>x\<bar>" and "\<bar>x\<bar> < 2 powi (e + 1)" and "x * 2 powi (52 - e) = of_int m"
  shows "float64 x = x"
proof -
  have "float64 x = of_int m * 2 powi (e - 52)"
    by (simp add: float64_eq[OF assms(1,2)] assms(3) rne_of_int)
  also have "\<dots> = x * (2 powi (52 - e) * 2 powi (e - 52))" by (simp flip: assms(3))
  also have "(2::real) powi (52 - e) * 2 powi (e - 52) = 1" by (simp flip: power_int_add)
  finally show ?thesis by simp
qed

lemma float64_nonneg:
  assumes "0 \<le> x"
  shows "0 \<le> float64 x"
proof (cases "x = 0")
  case True
  then show ?thesis by (simp add: float64_def)
next
  case False
  have "0 \<le> x * 2 powi (52 - exponent x)" using assms by simp
  then have "real_of_int 0 \<le> x * 2 powi (52 - exponent x)" by simp
  then have "0 \<le> rne (x * 2 powi (52 - exponent x))" by (rule rne_ge)
  then show ?thesis using False by (simp add: float64_def Let_def)
qed

text \<open>Rounding does not pass a float: the float of a real below the float \<open>c\<close> is at most \<open>c\<close>.\<close>

lemma float64_le:
  assumes x: "0 < x" "x \<le> c"
    and c: "2 powi k \<le> c" "c < 2 powi (k + 1)" "c * 2 powi (52 - k) = of_int m"
  shows "float64 x \<le> c"
proof -
  define e where "e = exponent x"
  from x(1) have x0: "x \<noteq> 0" "\<bar>x\<bar> = x" by simp_all
  from exponent_bounds[OF x0(1)] have eb: "2 powi e \<le> x" "x < 2 powi (e + 1)"
    by (simp_all add: e_def x0(2))
  have f: "float64 x = of_int (rne (x * 2 powi (52 - e))) * 2 powi (e - 52)"
    using x0(1) by (simp add: float64_def e_def Let_def)
  have p: "0 < (2::real) powi (e - 52)" "0 < (2::real) powi (52 - e)"
    by (simp_all add: zero_less_power_int)
  have pp: "(2::real) powi (52 - e) * 2 powi (e - 52) = 1"
    by (simp flip: power_int_add)
  have ek: "e \<le> k"
  proof (rule ccontr)
    assume "\<not> e \<le> k"
    then have "k + 1 \<le> e" by simp
    then have "(2::real) powi (k + 1) \<le> 2 powi e" by (rule power_int_increasing) simp
    with eb(1) x(2) c(2) show False by linarith
  qed
  show ?thesis
  proof (cases "e = k")
    case True
    have "x * 2 powi (52 - e) \<le> c * 2 powi (52 - e)" using x(2) p(2) by simp
    also have "\<dots> = of_int m" using c(3) True by simp
    finally have "rne (x * 2 powi (52 - e)) \<le> m" by (rule rne_le)
    then have "real_of_int (rne (x * 2 powi (52 - e))) \<le> of_int m" by simp
    then have "float64 x \<le> of_int m * 2 powi (e - 52)"
      unfolding f using p(1) by (simp only: mult_le_cancel_right_pos)
    also have "\<dots> = c * (2 powi (52 - e) * 2 powi (e - 52))" using c(3) True by simp
    also have "\<dots> = c" by (simp add: pp)
    finally show ?thesis .
  next
    case False
    with ek have "e + 1 \<le> k" by simp
    then have le: "(2::real) powi (e + 1) \<le> 2 powi k" by (rule power_int_increasing) simp
    have "x * 2 powi (52 - e) \<le> 2 powi (e + 1) * 2 powi (52 - e)" using eb(2) p(2) by simp
    also have "\<dots> = 2 powi 53" by (simp flip: power_int_add)
    also have "\<dots> = of_int (2 ^ 53)" by simp
    finally have "rne (x * 2 powi (52 - e)) \<le> 2 ^ 53" by (rule rne_le)
    then have "real_of_int (rne (x * 2 powi (52 - e))) \<le> of_int (2 ^ 53)" by (simp only: of_int_le_iff)
    then have "float64 x \<le> of_int (2 ^ 53) * 2 powi (e - 52)"
      unfolding f using p(1) by (simp only: mult_le_cancel_right_pos)
    also have "\<dots> = 2 powi 53 * 2 powi (e - 52)" by simp
    also have "\<dots> = 2 powi (e + 1)"
    proof -
      have "(2::real) powi (53 + (e - 52)) = 2 powi 53 * 2 powi (e - 52)"
        by (rule power_int_add) simp
      moreover have "53 + (e - 52) = e + 1" by simp
      ultimately show ?thesis by (simp only:)
    qed
    also have "\<dots> \<le> c" using le c(1) by simp
    finally show ?thesis .
  qed
qed

lemma float64_unit:
  assumes "0 \<le> x" and "x \<le> 1"
  shows "0 \<le> float64 x \<and> float64 x \<le> 1"
proof (cases "x = 0")
  case True
  then show ?thesis by (simp add: float64_def)
next
  case False
  with assms(1) have "0 < x" by simp
  from this assms(2) have "float64 x \<le> 1"
    by (rule float64_le[where k = 0 and m = "2 ^ 52"]) simp_all
  with float64_nonneg[OF assms(1)] show ?thesis by simp
qed

lemma float64_times_5:
  assumes "0 \<le> x" and "x \<le> 1"
  shows "0 \<le> float64 (x * 5) \<and> float64 (x * 5) \<le> 5"
proof (cases "x = 0")
  case True
  then show ?thesis by (simp add: float64_def)
next
  case False
  with assms(1) have "0 < x * 5" by simp
  moreover from assms(2) have "x * 5 \<le> 5" by simp
  ultimately have "float64 (x * 5) \<le> 5"
    by (rule float64_le[where k = 2 and m = "5 * 2 ^ 50"]) simp_all
  moreover from assms(1) have "0 \<le> float64 (x * 5)" by (intro float64_nonneg) simp
  ultimately show ?thesis by simp
qed

text \<open>
  The floats of the examples. 2/3 is no float: the float nearest to it is
  0.6666666666666666, and five times that float rounds to 3.333333333333333, which is
  not the float nearest to 10/3, 3.3333333333333335.
\<close>

lemma float64_values:
  "float64 0 = 0" "float64 1 = 1" "float64 2 = 2" "float64 3 = 3" "float64 4 = 4"
  "float64 5 = 5" "float64 8 = 8" "float64 10 = 10" "float64 40 = 40"
  "float64 (3 / 2) = 3 / 2" "float64 (3 / 4) = 3 / 4"
proof -
  show "float64 0 = 0" by (simp add: float64_def)
  show "float64 1 = 1" by (rule float64_exact[where e = 0 and m = "2 ^ 52"]) simp_all
  show "float64 2 = 2" by (rule float64_exact[where e = 1 and m = "2 ^ 52"]) simp_all
  show "float64 3 = 3" by (rule float64_exact[where e = 1 and m = "3 * 2 ^ 51"]) simp_all
  show "float64 4 = 4" by (rule float64_exact[where e = 2 and m = "2 ^ 52"]) simp_all
  show "float64 5 = 5" by (rule float64_exact[where e = 2 and m = "5 * 2 ^ 50"]) simp_all
  show "float64 8 = 8" by (rule float64_exact[where e = 3 and m = "2 ^ 52"]) simp_all
  show "float64 10 = 10" by (rule float64_exact[where e = 3 and m = "5 * 2 ^ 50"]) simp_all
  show "float64 40 = 40" by (rule float64_exact[where e = 5 and m = "5 * 2 ^ 50"]) simp_all
  show "float64 (3 / 2) = 3 / 2"
    by (rule float64_exact[where e = 0 and m = "3 * 2 ^ 51"]) simp_all
  show "float64 (3 / 4) = 3 / 4"
    by (rule float64_exact[where e = "- 1" and m = "3 * 2 ^ 51"]) (simp_all add: power_int_minus)
qed

lemma float64_two_thirds: "float64 (2 / 3) = 6004799503160661 / 9007199254740992"
  by (simp add: float64_eq[where e = "- 1"] rne_def power_int_minus)

lemma float64_two_thirds_times_5:
  "float64 (6004799503160661 / 9007199254740992 * 5) = 3752999689475413 / 1125899906842624"
  "float64 (30023997515803305 / 9007199254740992) = 3752999689475413 / 1125899906842624"
  by (simp_all add: float64_eq[where e = 1] rne_def power_int_minus)

lemma float64_ten_thirds: "float64 (10 / 3) = 7505999378950827 / 2251799813685248"
  by (simp add: float64_eq[where e = 1] rne_def power_int_minus)

subsection \<open>The summary\<close>

text \<open>The summary of a frame with at least one row, field by field.\<close>

lemma compute_kpis_Some:
  assumes "df \<noteq> []"
  shows "\<exists>k. compute_kpis df = Some k
           \<and> kpi_total k = column_sum (map duration_min df)
           \<and> kpi_focused k = column_sum (map (\<lambda>r. clamp (focused_min r) 0 (duration_min r)) df)
           \<and> kpi_pause k = column_sum (map pause_count df)
           \<and> kpi_ratio k =
               (if kpi_total k > 0
                then float64 (real_of_int (kpi_focused k) / real_of_int (kpi_total k)) else 0)
           \<and> kpi_avg_focus k = float64 (kpi_ratio k * 5)
           \<and> kpi_pause_rate k =
               (if kpi_total k > 0
                then float64 (float64 (real_of_int (kpi_pause k)) / float64 (real_of_int (kpi_total k) / 60))
                else 0)
           \<and> kpi_sessions k = length df"
  using assms by (simp add: compute_kpis_def Let_def)

text \<open>
  C1, as stated, fails, in two ways. The total is the sum of \<open>duration_min\<close> as pandas
  computes it, in 64-bit integers: four rows of an uploaded snapshot with durations
  \<open>2\<^sup>6\<^sup>2\<close>, \<open>2\<^sup>6\<^sup>2\<close>, \<open>2\<^sup>6\<^sup>2\<close> and \<open>2\<^sup>6\<^sup>2 + 5\<close>, each with 10 focused minutes, have the sum
  \<open>2\<^sup>6\<^sup>4 + 5\<close>, and the total of the summary is 5. And the ratio and the average focus
  are floats: for the two records of the claim the ratio is 0.6666666666666666, which is
  not 2/3, and the average focus is 3.333333333333333, which is neither 10/3 nor the
  float nearest to 10/3.
\<close>

theorem compute_kpis_total_counterexample:
  "compute_kpis
     [\<lparr>sess_id = ''a'', sess_subject = ''math'', sess_start = ''10:00'', sess_end = ''11:00'',
       duration_min = 4611686018427387904, focused_min = 10, pause_count = 0, created_at = '''',
       row_date = ''2024-01-01'', row_weekday = wd_mon\<rparr>,
      \<lparr>sess_id = ''b'', sess_subject = ''math'', sess_start = ''10:00'', sess_end = ''11:00'',
       duration_min = 4611686018427387904, focused_min = 10, pause_count = 0, created_at = '''',
       row_date = ''2024-01-01'', row_weekday = wd_mon\<rparr>,
      \<lparr>sess_id = ''c'', sess_subject = ''math'', sess_start = ''10:00'', sess_end = ''11:00'',
       duration_min = 4611686018427387904, focused_min = 10, pause_count = 0, created_at = '''',
       row_date = ''2024-01-01'', row_weekday = wd_mon\<rparr>,
      \<lparr>sess_id = ''d'', sess_subject = ''math'', sess_start = ''10:00'', sess_end = ''11:00'',
       duration_min = 4611686018427387909, focused_min = 10, pause_count = 0, created_at = '''',
       row_date = ''2024-01-01'', row_weekday = wd_mon\<rparr>]
   = Some \<lparr>kpi_total = 5, kpi_focused = 40, kpi_pause = 0, kpi_ratio = 8,
            kpi_avg_focus = 40, kpi_pause_rate = 0, kpi_sessions = 4\<rparr>
   \<and> sum_list (map duration_min
     [\<lparr>sess_id = ''a'', sess_subject = ''math'', sess_start = ''10:00'', sess_end = ''11:00'',
       duration_min = 4611686018427387904, focused_min = 10, pause_count = 0, created_at = '''',
       row_date = ''2024-01-01'', row_weekday = wd_mon\<rparr>,
      \<lparr>sess_id = ''b'', sess_subject = ''math'', sess_start = ''10:00'', sess_end = ''11:00'',
       duration_min = 4611686018427387904, focused_min = 10, pause_count = 0, created_at = '''',
       row_date = ''2024-01-01'', row_weekday = wd_mon\<rparr>,
      \<lparr>sess_id = ''c'', sess_subject = ''math'', sess_start = ''10:00'', sess_end = ''11:00'',
       duration_min = 4611686018427387904, focused_min = 10, pause_count = 0, created_at = '''',
       row_date = ''2024-01-01'', row_weekday = wd_mon\<rparr>,
      \<lparr>sess_id = ''d'', sess_subject = ''math'', sess_start = ''10:00'', sess_end = ''11:00'',
       duration_min = 4611686018427387909, focused_min = 10, pause_count = 0, created_at = '''',
       row_date = ''2024-01-01'', row_weekday = wd_mon\<rparr>])
     = 18446744073709551621
   \<and> (5::int) \<noteq> 18446744073709551621
   \<and> compute_kpis
        [\<lparr>sess_id = ''a'', sess_subject = ''math'', sess_start = ''10:00'', sess_end = ''11:00'',
          duration_min = 60, focused_min = 30, pause_count = 2, created_at = '''',
          row_date = ''2024-01-01'', row_weekday = wd_mon\<rparr>,
         \<lparr>sess_id = ''b'', sess_subject = ''math'', sess_start = ''11:00'', sess_end = ''11:30'',
          duration_min = 30, focused_min = 30, pause_count = 1, created_at = '''',
          row_date = ''2024-01-01'', row_weekday = wd_mon\<rparr>]
      = Some \<lparr>kpi_total = 90, kpi_focused = 60, kpi_pause = 3,
               kpi_ratio = 6004799503160661 / 9007199254740992,
               kpi_avg_focus = 3752999689475413 / 1125899906842624,
               kpi_pause_rate = 2, kpi_sessions = 2\<rparr>
   \<and> (6004799503160661 / 9007199254740992 :: real) \<noteq> 2 / 3
   \<and> (3752999689475413 / 1125899906842624 :: real) \<noteq> 10 / 3
   \<and> (3752999689475413 / 1125899906842624 :: real) \<noteq> float64 (10 / 3)"
  by (simp add: compute_kpis_def clamp_def Let_def int64_defs float64_values float64_two_thirds
      float64_two_thirds_times_5 float64_ten_thirds)

text \<open>
  C1, amended. For a frame with at least one row in which the sum of \<open>duration_min\<close>, the
  sum of \<open>clamp(focused_min, 0, duration_min)\<close> and the sum of \<open>pause_count\<close> all lie in the
  signed 64-bit range, \<open>compute_kpis\<close> returns a summary whose total, focused minutes and
  pause total are these three sums, whose ratio is the float of focused / total when the
  total is positive and 0 otherwise, whose average focus is the float of the ratio times
  5, whose pause rate is the float of pauses / (total / 60), the inner quotient being
  rounded to a float first, when the total is positive and 0 otherwise, and whose session
  count is the number of rows. For the two records of 60 minutes (30 focused, 2 pauses)
  and 30 minutes (30 focused, 1 pause) the summary is 90, 60, 3, the ratio
  0.6666666666666666 \<open>= 6004799503160661 / 2\<^sup>5\<^sup>3\<close>, the average focus 3.333333333333333
  \<open>= 3752999689475413 / 2\<^sup>5\<^sup>0\<close>, and the pause rate 2.
\<close>

theorem compute_kpis_summary:
  "(df \<noteq> [] \<and> int64 (\<Sum>r\<leftarrow>df. duration_min r)
      \<and> int64 (\<Sum>r\<leftarrow>df. clamp (focused_min r) 0 (duration_min r))
      \<and> int64 (\<Sum>r\<leftarrow>df. pause_count r) \<longrightarrow>
      (\<exists>k. compute_kpis df = Some k
         \<and> kpi_total k = (\<Sum>r\<leftarrow>df. duration_min r)
         \<and> kpi_focused k = (\<Sum>r\<leftarrow>df. clamp (focused_min r) 0 (duration_min r))
         \<and> kpi_pause k = (\<Sum>r\<leftarrow>df. pause_count r)
         \<and> kpi_ratio k =
             (if kpi_total k > 0
              then float64 (real_of_int (kpi_focused k) / real_of_int (kpi_total k)) else 0)
         \<and> kpi_avg_focus k = float64 (kpi_ratio k * 5)
         \<and> kpi_pause_rate k =
             (if kpi_total k > 0
              then float64 (float64 (real_of_int (kpi_pause k)) / float64 (real_of_int (kpi_total k) / 60))
              else 0)
         \<and> kpi_sessions k = length df))
   \<and> compute_kpis
        [\<lparr>sess_id = i1, sess_subject = s1, sess_start = b1, sess_end = e1,
          duration_min = 60, focused_min = 30, pause_count = 2, created_at = c1,
          row_date = d1, row_weekday = w1\<rparr>,
         \<lparr>sess_id = i2, sess_subject = s2, sess_start = b2, sess_end = e2,
          duration_min = 30, focused_min = 30, pause_count = 1, created_at = c2,
          row_date = d2, row_weekday = w2\<rparr>]
      = Some \<lparr>kpi_total = 90, kpi_focused = 60, kpi_pause = 3,
               kpi_ratio = 6004799503160661 / 2 ^ 53,
               kpi_avg_focus = 3752999689475413 / 2 ^ 50,
               kpi_pause_rate = 2, kpi_sessions = 2\<rparr>"
proof (intro conjI impI)
  assume a: "df \<noteq> [] \<and> int64 (\<Sum>r\<leftarrow>df. duration_min r)
      \<and> int64 (\<Sum>r\<leftarrow>df. clamp (focused_min r) 0 (duration_min r))
      \<and> int64 (\<Sum>r\<leftarrow>df. pause_count r)"
  then have "df \<noteq> []" by simp
  from compute_kpis_Some[OF this] obtain k where k: "compute_kpis df = Some k"
    "kpi_total k = column_sum (map duration_min df)"
    "kpi_focused k = column_sum (map (\<lambda>r. clamp (focused_min r) 0 (duration_min r)) df)"
    "kpi_pause k = column_sum (map pause_count df)"
    "kpi_ratio k =
       (if kpi_total k > 0
        then float64 (real_of_int (kpi_focused k) / real_of_int (kpi_total k)) else 0)"
    "kpi_avg_focus k = float64 (kpi_ratio k * 5)"
    "kpi_pause_rate k =
       (if kpi_total k > 0
        then float64 (float64 (real_of_int (kpi_pause k)) / float64 (real_of_int (kpi_total k) / 60))
        else 0)"
    "kpi_sessions k = length df"
    by blast
  have t: "kpi_total k = (\<Sum>r\<leftarrow>df. duration_min r)"
    using k(2) a by (simp add: column_sum_exact)
  have f: "kpi_focused k = (\<Sum>r\<leftarrow>df. clamp (focused_min r) 0 (duration_min r))"
    using k(3) a by (simp add: column_sum_exact)
  have p: "kpi_pause k = (\<Sum>r\<leftarrow>df. pause_count r)"
    using k(4) a by (simp add: column_sum_exact)
  from k(1) t f p k(5-8)
  show "\<exists>k. compute_kpis df = Some k
         \<and> kpi_total k = (\<Sum>r\<leftarrow>df. duration_min r)
         \<and> kpi_focused k = (\<Sum>r\<leftarrow>df. clamp (focused_min r) 0 (duration_min r))
         \<and> kpi_pause k = (\<Sum>r\<leftarrow>df. pause_count r)
         \<and> kpi_ratio k =
             (if kpi_total k > 0
              then float64 (real_of_int (kpi_focused k) / real_of_int (kpi_total k)) else 0)
         \<and> kpi_avg_focus k = float64 (kpi_ratio k * 5)
         \<and> kpi_pause_rate k =
             (if kpi_total k > 0
              then float64 (float64 (real_of_int (kpi_pause k)) / float64 (real_of_int (kpi_total k) / 60))
              else 0)
         \<and> kpi_sessions k = length df"
    apply -
    apply (rule exI[of _ k])
    apply (intro conjI)
    apply assumption+
    done
next
  show "compute_kpis
        [\<lparr>sess_id = i1, sess_subject = s1, sess_start = b1, sess_end = e1,
          duration_min = 60, focused_min = 30, pause_count = 2, created_at = c1,
          row_date = d1, row_weekday = w1\<rparr>,
         \<lparr>sess_id = i2, sess_subject = s2, sess_start = b2, sess_end = e2,
          duration_min = 30, focused_min = 30, pause_count = 1, created_at = c2,
          row_date = d2, row_weekday = w2\<rparr>]
      = Some \<lparr>kpi_total = 90, kpi_focused = 60, kpi_pause = 3,
               kpi_ratio = 6004799503160661 / 2 ^ 53,
               kpi_avg_focus = 3752999689475413 / 2 ^ 50,
               kpi_pause_rate = 2, kpi_sessions = 2\<rparr>"
    by (simp add: compute_kpis_def clamp_def Let_def int64_defs float64_values float64_two_thirds
        float64_two_thirds_times_5)
qed

theorem compute_kpis_summary_witness:
  "\<exists>k. compute_kpis
     [\<lparr>sess_id = ''a'', sess_subject = ''math'', sess_start = ''10:00'', sess_end = ''10:45'',
       duration_min = 45, focused_min = 50, pause_count = 3, created_at = ''2024-01-01 11:00'',
       row_date = ''2024-01-01'', row_weekday = wd_mon\<rparr>]
      = Some k
   \<and> kpi_total k = 45 \<and> kpi_focused k = 45 \<and> kpi_pause k = 3 \<and> kpi_ratio k = 1
   \<and> kpi_avg_focus k = 5 \<and> kpi_pause_rate k = 4 \<and> kpi_sessions k = 1"
proof -
  let ?df = "[\<lparr>sess_id = ''a'', sess_subject = ''math'', sess_start = ''10:00'',
       sess_end = ''10:45'', duration_min = 45, focused_min = 50, pause_count = 3,
       created_at = ''2024-01-01 11:00'', row_date = ''2024-01-01'', row_weekday = wd_mon\<rparr>]"
  have "?df \<noteq> [] \<and> int64 (\<Sum>r\<leftarrow>?df. duration_min r)
      \<and> int64 (\<Sum>r\<leftarrow>?df. clamp (focused_min r) 0 (duration_min r))
      \<and> int64 (\<Sum>r\<leftarrow>?df. pause_count r)"
    by (simp add: int64_def clamp_def)
  with compute_kpis_summary[of ?df] obtain k where k: "compute_kpis ?df = Some k"
    "kpi_total k = (\<Sum>r\<leftarrow>?df. duration_min r)"
    "kpi_focused k = (\<Sum>r\<leftarrow>?df. clamp (focused_min r) 0 (duration_min r))"
    "kpi_pause k = (\<Sum>r\<leftarrow>?df. pause_count r)"
    "kpi_ratio k =
       (if kpi_total k > 0
        then float64 (real_of_int (kpi_focused k) / real_of_int (kpi_total k)) else 0)"
    "kpi_avg_focus k = float64 (kpi_ratio k * 5)"
    "kpi_pause_rate k =
       (if kpi_total k > 0
        then float64 (float64 (real_of_int (kpi_pause k)) / float64 (real_of_int (kpi_total k) / 60))
        else 0)"
    "kpi_sessions k = length ?df"
    by blast
  have t: "kpi_total k = 45" using k(2) by simp
  have f: "kpi_focused k = 45" using k(3) by (simp add: clamp_def)
  have p: "kpi_pause k = 3" using k(4) by simp
  have r: "kpi_ratio k = 1" using k(5) t f by (simp add: float64_values)
  have a: "kpi_avg_focus k = 5" using k(6) r by (simp add: float64_values)
  have q: "kpi_pause_rate k = 4" using k(7) t p by (simp add: float64_values)
  have n: "kpi_sessions k = 1" using k(8) by simp
  from k(1) t f p r a q n show ?thesis by blast
qed

text \<open>
  C2. On the empty frame \<open>compute_kpis\<close> returns \<open>None\<close>, which is no summary at all, and
  \<open>None\<close> is returned for the empty frame only: every frame with a row gets a summary.
\<close>

theorem compute_kpis_empty_sentinel:
  "compute_kpis [] = None \<and> (compute_kpis df = None \<longleftrightarrow> df = [])"
  by (simp add: compute_kpis_def Let_def)

text \<open>
  C3, as stated, fails, in two ways. The clamp keeps the focused minutes of a row
  between 0 and its duration only when the duration is not negative: rows are read from
  an uploaded snapshot without any check, and with a row of 60 minutes (60 focused) and a
  row of - 30 minutes the total is 30 and the focused sum 60, so the ratio is 2 and the
  average focus 10. And the total is a 64-bit sum: with the durations \<open>2\<^sup>6\<^sup>2\<close>, \<open>2\<^sup>6\<^sup>2\<close>,
  \<open>2\<^sup>6\<^sup>2\<close> and \<open>2\<^sup>6\<^sup>2 + 5\<close>, none of them negative, and 10 focused minutes in each row, the
  total is 5 and the focused sum 40, so the ratio is 8 and the average focus 40.
\<close>

theorem compute_kpis_ratio_counterexample:
  "compute_kpis
     [\<lparr>sess_id = ''a'', sess_subject = ''math'', sess_start = ''10:00'', sess_end = ''11:00'',
       duration_min = 60, focused_min = 60, pause_count = 0, created_at = '''',
       row_date = ''2024-01-01'', row_weekday = wd_mon\<rparr>,
      \<lparr>sess_id = ''b'', sess_subject = ''math'', sess_start = ''11:00'', sess_end = ''10:30'',
       duration_min = - 30, focused_min = 0, pause_count = 0, created_at = '''',
       row_date = ''2024-01-01'', row_weekday = wd_mon\<rparr>]
   = Some \<lparr>kpi_total = 30, kpi_focused = 60, kpi_pause = 0, kpi_ratio = 2,
            kpi_avg_focus = 10, kpi_pause_rate = 0, kpi_sessions = 2\<rparr>
   \<and> \<not> (2::real) \<le> 1 \<and> \<not> (10::real) \<le> 5
   \<and> compute_kpis
     [\<lparr>sess_id = ''a'', sess_subject = ''math'', sess_start = ''10:00'', sess_end = ''11:00'',
       duration_min = 4611686018427387904, focused_min = 10, pause_count = 0, created_at = '''',
       row_date = ''2024-01-01'', row_weekday = wd_mon\<rparr>,
      \<lparr>sess_id = ''b'', sess_subject = ''math'', sess_start = ''10:00'', sess_end = ''11:00'',
       duration_min = 4611686018427387904, focused_min = 10, pause_count = 0, created_at = '''',
       row_date = ''2024-01-01'', row_weekday = wd_mon\<rparr>,
      \<lparr>sess_id = ''c'', sess_subject = ''math'', sess_start = ''10:00'', sess_end = ''11:00'',
       duration_min = 4611686018427387904, focused_min = 10, pause_count = 0, created_at = '''',
       row_date = ''2024-01-01'', row_weekday = wd_mon\<rparr>,
      \<lparr>sess_id = ''d'', sess_subject = ''math'', sess_start = ''10:00'', sess_end = ''11:00'',
       duration_min = 4611686018427387909, focused_min = 10, pause_count = 0, created_at = '''',
       row_date = ''2024-01-01'', row_weekday = wd_mon\<rparr>]
   = Some \<lparr>kpi_total = 5, kpi_focused = 40, kpi_pause = 0, kpi_ratio = 8,
            kpi_avg_focus = 40, kpi_pause_rate = 0, kpi_sessions = 4\<rparr>
   \<and> \<not> (8::real) \<le> 1 \<and> \<not> (40::real) \<le> 5"
  by (simp add: compute_kpis_def clamp_def Let_def int64_defs float64_values)

text \<open>
  C3, amended. For every frame whose rows all have a duration of at least 0, whatever
  their focused minutes are, and whose durations sum to less than \<open>2\<^sup>6\<^sup>3\<close>, so that the
  64-bit sums are the exact sums, the ratio of the summary lies in [0, 1], and the
  average focus, which is the float of the ratio times 5 with no further clamping, lies
  in [0, 5]: rounding to a float does not pass the floats 0, 1 and 5.
\<close>

theorem compute_kpis_ratio_bounds:
  assumes "compute_kpis df = Some k" and "\<forall>r\<in>set df. 0 \<le> duration_min r"
    and "(\<Sum>r\<leftarrow>df. duration_min r) < 2 ^ 63"
  shows "0 \<le> kpi_ratio k \<and> kpi_ratio k \<le> 1 \<and> kpi_avg_focus k = float64 (kpi_ratio k * 5)
         \<and> 0 \<le> kpi_avg_focus k \<and> kpi_avg_focus k \<le> 5"
proof -
  let ?t = "sum_list (map duration_min df)"
  let ?f = "sum_list (map (\<lambda>r. clamp (focused_min r) 0 (duration_min r)) df)"
  have ne: "df \<noteq> []" using assms(1) by (auto simp: compute_kpis_def)
  have f0: "0 \<le> ?f" by (rule sum_clamp_nonneg)
  have ft: "?f \<le> ?t" using assms(2) by (rule sum_clamp_le_total)
  have "int64 ?t" "int64 ?f" using f0 ft assms(3) by (simp_all add: int64_def)
  then have e: "column_sum (map duration_min df) = ?t"
    "column_sum (map (\<lambda>r. clamp (focused_min r) 0 (duration_min r)) df) = ?f"
    by (simp_all add: column_sum_exact)
  from compute_kpis_Some[OF ne] assms(1) e
  have r: "kpi_ratio k = (if ?t > 0 then float64 (real_of_int ?f / real_of_int ?t) else 0)"
    and a: "kpi_avg_focus k = float64 (kpi_ratio k * 5)"
    by auto
  have b: "0 \<le> kpi_ratio k \<and> kpi_ratio k \<le> 1"
  proof (cases "?t > 0")
    case True
    then have "kpi_ratio k = float64 (real_of_int ?f / real_of_int ?t)" using r by simp
    moreover have "0 \<le> real_of_int ?f / real_of_int ?t" using f0 True by simp
    moreover have "real_of_int ?f / real_of_int ?t \<le> 1" using ft True by simp
    ultimately show ?thesis by (simp add: float64_unit)
  next
    case False
    then show ?thesis using r by simp
  qed
  then have "0 \<le> float64 (kpi_ratio k * 5) \<and> float64 (kpi_ratio k * 5) \<le> 5"
    by (intro float64_times_5) simp_all
  with a b show ?thesis by simp
qed

theorem compute_kpis_ratio_bounds_witness:
  "compute_kpis
     [\<lparr>sess_id = ''a'', sess_subject = ''math'', sess_start = ''10:00'', sess_end = ''11:00'',
       duration_min = 60, focused_min = 500, pause_count = 0, created_at = '''',
       row_date = ''2024-01-01'', row_weekday = wd_mon\<rparr>,
      \<lparr>sess_id = ''b'', sess_subject = ''math'', sess_start = ''11:00'', sess_end = ''11:30'',
       duration_min = 30, focused_min = - 7, pause_count = 1, created_at = '''',
       row_date = ''2024-01-01'', row_weekday = wd_mon\<rparr>]
   = Some \<lparr>kpi_total = 90, kpi_focused = 60, kpi_pause = 1,
            kpi_ratio = 6004799503160661 / 2 ^ 53,
            kpi_avg_focus = 3752999689475413 / 2 ^ 50,
            kpi_pause_rate = 6004799503160661 / 2 ^ 53, kpi_sessions = 2\<rparr>
   \<and> (0::real) \<le> 6004799503160661 / 2 ^ 53 \<and> (6004799503160661::real) / 2 ^ 53 \<le> 1
   \<and> (0::real) \<le> 3752999689475413 / 2 ^ 50 \<and> (3752999689475413::real) / 2 ^ 50 \<le> 5"
proof -
  let ?df = "[\<lparr>sess_id = ''a'', sess_subject = ''math'', sess_start = ''10:00'', sess_end = ''11:00'',
       duration_min = 60, focused_min = 500, pause_count = 0, created_at = '''',
       row_date = ''2024-01-01'', row_weekday = wd_mon\<rparr>,
      \<lparr>sess_id = ''b'', sess_subject = ''math'', sess_start = ''11:00'', sess_end = ''11:30'',
       duration_min = 30, focused_min = - 7, pause_count = 1, created_at = '''',
       row_date = ''2024-01-01'', row_weekday = wd_mon\<rparr>]"
  let ?k = "\<lparr>kpi_total = 90, kpi_focused = 60, kpi_pause = 1,
            kpi_ratio = 6004799503160661 / 2 ^ 53,
            kpi_avg_focus = 3752999689475413 / 2 ^ 50,
            kpi_pause_rate = 6004799503160661 / 2 ^ 53, kpi_sessions = 2\<rparr>"
  have c: "compute_kpis ?df = Some ?k"
    by (simp add: compute_kpis_def clamp_def Let_def int64_defs float64_values float64_two_thirds
        float64_two_thirds_times_5)
  have d: "\<forall>r\<in>set ?df. 0 \<le> duration_min r" by simp
  have s: "(\<Sum>r\<leftarrow>?df. duration_min r) < 2 ^ 63" by simp
  from compute_kpis_ratio_bounds[OF c d s]
  have "0 \<le> kpi_ratio ?k \<and> kpi_ratio ?k \<le> 1 \<and> 0 \<le> kpi_avg_focus ?k \<and> kpi_avg_focus ?k \<le> 5"
    by blast
  with c show ?thesis by simp
qed

section \<open>The weekday table\<close>

lemma sum_dtype_Nil: "sum_dtype t [] = 0"
  by (cases t) (simp_all add: sum_dtype_def wrap_int64_def)

lemma map_of_groupby_sum:
  "map_of (groupby_sum kvs) k =
     (if k \<in> fst ` set kvs
      then Some (sum_dtype (infer_dtype (map snd kvs)) (map snd (filter (\<lambda>kv. fst kv = k) kvs)))
      else None)"
  by (simp add: groupby_sum_def Let_def map_of_map_restrict restrict_map_def)

lemma filter_absent_key: "k \<notin> fst ` set kvs \<Longrightarrow> filter (\<lambda>kv. fst kv = k) kvs = []"
  by (induction kvs) auto

lemma reindex_groupby_sum:
  "reindex labels 0 (groupby_sum kvs) =
     map (\<lambda>l. (l, sum_dtype (infer_dtype (map snd kvs)) (map snd (filter (\<lambda>kv. fst kv = l) kvs))))
         labels"
  by (simp add: reindex_def map_of_groupby_sum filter_absent_key sum_dtype_Nil)

lemma group_of_rows:
  "map snd (filter (\<lambda>kv. fst kv = l) (map (\<lambda>r. (row_weekday r, focused_clamped r)) df)) =
     map focused_clamped (filter (\<lambda>r. row_weekday r = l) df)"
  by (induction df) auto

text \<open>
  The table of a frame with at least one row: for each label of \<^verbatim>\<open>WEEK_ORDER\<close> the sum,
  in the type of the column, of the clamped focused minutes of the rows with that label.
\<close>

lemma by_w_Some:
  "df \<noteq> [] \<Longrightarrow>
     by_w df =
       Some (map (\<lambda>l. (l, sum_dtype (infer_dtype (map focused_clamped df))
                             (map focused_clamped (filter (\<lambda>r. row_weekday r = l) df))))
                 WEEK_ORDER)"
  by (simp add: by_w_def reindex_groupby_sum group_of_rows comp_def)

lemma sum_indicator_distinct:
  "distinct labels \<Longrightarrow>
     (\<Sum>l\<leftarrow>labels. if w = l then (c::int) else 0) = (if w \<in> set labels then c else 0)"
  by (induction labels) auto

lemma sum_groups:
  assumes "distinct labels"
  shows "(\<Sum>l\<leftarrow>labels. \<Sum>r\<leftarrow>filter (\<lambda>r. wd r = l) df. (f r :: int)) =
           (\<Sum>r\<leftarrow>filter (\<lambda>r. wd r \<in> set labels) df. f r)"
proof (induction df)
  case Nil
  show ?case by (induction labels) auto
next
  case (Cons a df)
  have "(\<Sum>l\<leftarrow>labels. \<Sum>r\<leftarrow>filter (\<lambda>r. wd r = l) (a # df). f r) =
          (\<Sum>l\<leftarrow>labels. (if wd a = l then f a else 0) + (\<Sum>r\<leftarrow>filter (\<lambda>r. wd r = l) df. f r))"
    by (rule arg_cong[where f = sum_list]) auto
  also have "\<dots> = (\<Sum>l\<leftarrow>labels. if wd a = l then f a else 0) +
                   (\<Sum>l\<leftarrow>labels. \<Sum>r\<leftarrow>filter (\<lambda>r. wd r = l) df. f r)"
    by (simp add: sum_list_addf)
  also have "\<dots> = (if wd a \<in> set labels then f a else 0) +
                   (\<Sum>r\<leftarrow>filter (\<lambda>r. wd r \<in> set labels) df. f r)"
    using Cons assms by (simp add: sum_indicator_distinct)
  also have "\<dots> = (\<Sum>r\<leftarrow>filter (\<lambda>r. wd r \<in> set labels) (a # df). f r)"
    by simp
  finally show ?case .
qed

lemma distinct_WEEK_ORDER: "distinct WEEK_ORDER"
  by (simp add: WEEK_ORDER_def wd_mon_def wd_tue_def wd_wed_def wd_thu_def wd_fri_def wd_sat_def wd_sun_def)

lemma length_WEEK_ORDER: "length WEEK_ORDER = 7"
  by (simp add: WEEK_ORDER_def)

text \<open>
  The clamped focused minutes of a row are never negative, so the sum over the rows of
  one weekday is at least 0 and at most the sum over the rows of all seven.
\<close>

lemma focused_clamped_nonneg: "0 \<le> focused_clamped r"
  by (simp add: focused_clamped_def clamp_nonneg)

lemma sum_filter_nonneg: "0 \<le> (\<Sum>r\<leftarrow>filter P df. focused_clamped r)"
  by (rule sum_list_nonneg) (auto simp: focused_clamped_nonneg)

lemma sum_filter_mono:
  assumes "\<And>r. P r \<Longrightarrow> Q r"
  shows "(\<Sum>r\<leftarrow>filter P df. focused_clamped r) \<le> (\<Sum>r\<leftarrow>filter Q df. focused_clamped r)"
proof (induction df)
  case Nil
  show ?case by simp
next
  case (Cons a df)
  from focused_clamped_nonneg[of a] Cons assms[of a] show ?case by auto
qed

lemma group_entry_exact:
  assumes "(\<Sum>r\<leftarrow>filter P df. focused_clamped r) < 2 ^ 63"
  shows "sum_dtype (infer_dtype (map focused_clamped df)) (map focused_clamped (filter P df)) =
           (\<Sum>r\<leftarrow>filter P df. focused_clamped r)"
proof (rule sum_dtype_exact)
  show "set (map focused_clamped (filter P df)) \<subseteq> set (map focused_clamped df)" by auto
next
  from sum_filter_nonneg[of P df] assms
  show "int64 (\<Sum>r\<leftarrow>filter P df. focused_clamped r)" by (simp add: int64_def)
qed

text \<open>
  C4, as stated, fails, in three ways. \<^verbatim>\<open>reindex\<close> drops every group whose key is not
  in \<^verbatim>\<open>WEEK_ORDER\<close>: a row whose weekday is the empty string, the default
  \<^verbatim>\<open>store_to_flat_rows\<close> gives a day of an uploaded snapshot without a \<open>weekday\<close> key, has
  30 clamped focused minutes, and the 7 entries of the table sum to 0. On the empty frame
  (no row of the store is in the date range) the page computes
  no table at all. And the sum of a group is a 64-bit sum: two Monday rows of an
  uploaded snapshot with \<open>2\<^sup>6\<^sup>2\<close> clamped focused minutes each have the sum \<open>2\<^sup>6\<^sup>3\<close>, and the
  Monday entry of the table is \<open>- 2\<^sup>6\<^sup>3\<close>.
\<close>

theorem by_w_total_counterexample:
  "store_to_flat_rows
      \<lparr>days = [(''2024-01-01'',
          \<lparr>key_weekday = None,
           key_sessions = Some
             [\<lparr>key_id = Some ''a'', key_subject = Some ''math'', key_start = Some ''10:00'',
               key_end = Some ''11:00'', key_duration_min = Some 60, key_focused_min = Some 30,
               key_pause_count = Some 0, key_created_at = Some ''''\<rparr>]\<rparr>)]\<rparr>
     = [\<lparr>sess_id = ''a'', sess_subject = ''math'', sess_start = ''10:00'', sess_end = ''11:00'',
         duration_min = 60, focused_min = 30, pause_count = 0, created_at = '''',
         row_date = ''2024-01-01'', row_weekday = ''''\<rparr>]
   \<and> by_w [\<lparr>sess_id = ''a'', sess_subject = ''math'', sess_start = ''10:00'', sess_end = ''11:00'',
          duration_min = 60, focused_min = 30, pause_count = 0, created_at = '''',
          row_date = ''2024-01-01'', row_weekday = ''''\<rparr>]
     = Some [(wd_mon, 0), (wd_tue, 0), (wd_wed, 0), (wd_thu, 0), (wd_fri, 0), (wd_sat, 0), (wd_sun, 0)]
   \<and> sum_list (map snd [(wd_mon, 0::int), (wd_tue, 0), (wd_wed, 0), (wd_thu, 0), (wd_fri, 0),
                         (wd_sat, 0), (wd_sun, 0)]) = 0
   \<and> focused_clamped
        \<lparr>sess_id = ''a'', sess_subject = ''math'', sess_start = ''10:00'', sess_end = ''11:00'',
         duration_min = 60, focused_min = 30, pause_count = 0, created_at = '''',
         row_date = ''2024-01-01'', row_weekday = ''''\<rparr> = 30
   \<and> by_w ([] :: row list) = None
   \<and> by_w [\<lparr>sess_id = ''a'', sess_subject = ''math'', sess_start = ''10:00'', sess_end = ''11:00'',
          duration_min = 4611686018427387904, focused_min = 4611686018427387904, pause_count = 0,
          created_at = '''', row_date = ''2024-01-01'', row_weekday = wd_mon\<rparr>,
         \<lparr>sess_id = ''b'', sess_subject = ''math'', sess_start = ''10:00'', sess_end = ''11:00'',
          duration_min = 4611686018427387904, focused_min = 4611686018427387904, pause_count = 0,
          created_at = '''', row_date = ''2024-01-08'', row_weekday = wd_mon\<rparr>]
     = Some [(wd_mon, - 9223372036854775808), (wd_tue, 0), (wd_wed, 0), (wd_thu, 0), (wd_fri, 0),
             (wd_sat, 0), (wd_sun, 0)]
   \<and> focused_clamped
        \<lparr>sess_id = ''a'', sess_subject = ''math'', sess_start = ''10:00'', sess_end = ''11:00'',
          duration_min = 4611686018427387904, focused_min = 4611686018427387904, pause_count = 0,
          created_at = '''', row_date = ''2024-01-01'', row_weekday = wd_mon\<rparr>
      + focused_clamped
        \<lparr>sess_id = ''b'', sess_subject = ''math'', sess_start = ''10:00'', sess_end = ''11:00'',
          duration_min = 4611686018427387904, focused_min = 4611686018427387904, pause_count = 0,
          created_at = '''', row_date = ''2024-01-08'', row_weekday = wd_mon\<rparr>
      = 9223372036854775808"
proof -
  have empty: "by_w ([] :: row list) = None" by (simp add: by_w_def)
  show ?thesis
    unfolding empty
    by (simp add: by_w_Some WEEK_ORDER_def clamp_def focused_clamped_def wd_mon_def
        wd_tue_def wd_wed_def wd_thu_def wd_fri_def wd_sat_def wd_sun_def sum_dtype_def
        infer_dtype_def int64_def wrap_int64_def store_to_flat_rows_def flat_row_def
        dict_get_def sessions_of_def)
qed

text \<open>
  C4, amended. For every frame with at least one row (on an empty frame the page computes
  no table), \<open>by_w\<close> is a table of exactly 7 entries whose labels are the weekday labels
  in the order of \<^verbatim>\<open>WEEK_ORDER\<close>, Monday to Sunday, whatever weekdays the rows have.
  Each entry holds the sum of \<open>clamp(focused_min, 0, duration_min)\<close> over the rows with that
  weekday, which is 0 when there is none, provided that sum is below \<open>2\<^sup>6\<^sup>3\<close>. When the
  total of the clamped focused minutes over the rows whose weekday is one of the 7 labels
  is below \<open>2\<^sup>6\<^sup>3\<close>, the 7 entries sum to that total, and so to the total over the whole
  frame when every row has one of the 7 labels.
\<close>

theorem by_w_table:
  "df \<noteq> [] \<longrightarrow>
     (\<exists>tbl. by_w df = Some tbl
        \<and> length tbl = 7
        \<and> map fst tbl = [wd_mon, wd_tue, wd_wed, wd_thu, wd_fri, wd_sat, wd_sun]
        \<and> (\<forall>i<7. (\<Sum>r\<leftarrow>filter (\<lambda>r. row_weekday r = fst (tbl ! i)) df.
                      clamp (focused_min r) 0 (duration_min r)) < 2 ^ 63 \<longrightarrow>
              snd (tbl ! i) =
                (\<Sum>r\<leftarrow>filter (\<lambda>r. row_weekday r = fst (tbl ! i)) df.
                   clamp (focused_min r) 0 (duration_min r)))
        \<and> ((\<Sum>r\<leftarrow>filter (\<lambda>r. row_weekday r \<in> set WEEK_ORDER) df.
               clamp (focused_min r) 0 (duration_min r)) < 2 ^ 63 \<longrightarrow>
             sum_list (map snd tbl) =
               (\<Sum>r\<leftarrow>filter (\<lambda>r. row_weekday r \<in> set WEEK_ORDER) df.
                  clamp (focused_min r) 0 (duration_min r)))
        \<and> ((\<forall>r\<in>set df. row_weekday r \<in> set WEEK_ORDER)
             \<and> (\<Sum>r\<leftarrow>df. clamp (focused_min r) 0 (duration_min r)) < 2 ^ 63 \<longrightarrow>
             sum_list (map snd tbl) = (\<Sum>r\<leftarrow>df. clamp (focused_min r) 0 (duration_min r))))"
proof
  assume ne: "df \<noteq> []"
  let ?t = "infer_dtype (map focused_clamped df)"
  let ?g = "\<lambda>l. \<Sum>r\<leftarrow>filter (\<lambda>r. row_weekday r = l) df. focused_clamped r"
  let ?e = "\<lambda>l. sum_dtype ?t (map focused_clamped (filter (\<lambda>r. row_weekday r = l) df))"
  let ?c = "\<Sum>r\<leftarrow>filter (\<lambda>r. row_weekday r \<in> set WEEK_ORDER) df. focused_clamped r"
  let ?tbl = "map (\<lambda>l. (l, ?e l)) WEEK_ORDER"
  have b: "by_w df = Some ?tbl" using ne by (rule by_w_Some)
  have len: "length ?tbl = 7" by (simp add: length_WEEK_ORDER)
  have keys: "map fst ?tbl = [wd_mon, wd_tue, wd_wed, wd_thu, wd_fri, wd_sat, wd_sun]"
    by (simp add: WEEK_ORDER_def)
  have exact: "\<And>l. ?g l < 2 ^ 63 \<Longrightarrow> ?e l = ?g l"
    by (rule group_entry_exact)
  have entries: "\<forall>i<7. (\<Sum>r\<leftarrow>filter (\<lambda>r. row_weekday r = fst (?tbl ! i)) df.
                      clamp (focused_min r) 0 (duration_min r)) < 2 ^ 63 \<longrightarrow>
      snd (?tbl ! i) =
        (\<Sum>r\<leftarrow>filter (\<lambda>r. row_weekday r = fst (?tbl ! i)) df. clamp (focused_min r) 0 (duration_min r))"
  proof (intro allI impI)
    fix i :: nat
    assume i: "i < 7"
      and "(\<Sum>r\<leftarrow>filter (\<lambda>r. row_weekday r = fst (?tbl ! i)) df.
              clamp (focused_min r) 0 (duration_min r)) < 2 ^ 63"
    then have "?g (WEEK_ORDER ! i) < 2 ^ 63"
      by (simp add: length_WEEK_ORDER focused_clamped_def)
    from exact[OF this] i
    show "snd (?tbl ! i) =
        (\<Sum>r\<leftarrow>filter (\<lambda>r. row_weekday r = fst (?tbl ! i)) df. clamp (focused_min r) 0 (duration_min r))"
      by (simp add: length_WEEK_ORDER focused_clamped_def)
  qed
  have total: "?c < 2 ^ 63 \<Longrightarrow> sum_list (map snd ?tbl) = ?c"
  proof -
    assume c: "?c < 2 ^ 63"
    have "\<And>l. l \<in> set WEEK_ORDER \<Longrightarrow> ?e l = ?g l"
    proof -
      fix l assume l: "l \<in> set WEEK_ORDER"
      have "?g l \<le> ?c" by (rule sum_filter_mono) (simp add: l)
      with c have "?g l < 2 ^ 63" by simp
      then show "?e l = ?g l" by (rule exact)
    qed
    then have m: "map ?e WEEK_ORDER = map ?g WEEK_ORDER" by simp
    have "map snd ?tbl = map ?e WEEK_ORDER" by (simp add: comp_def)
    then have "sum_list (map snd ?tbl) = sum_list (map ?g WEEK_ORDER)" by (simp only: m)
    also have "\<dots> = ?c" using distinct_WEEK_ORDER by (rule sum_groups)
    finally show ?thesis .
  qed
  have total': "(\<Sum>r\<leftarrow>filter (\<lambda>r. row_weekday r \<in> set WEEK_ORDER) df.
               clamp (focused_min r) 0 (duration_min r)) < 2 ^ 63 \<longrightarrow>
             sum_list (map snd ?tbl) =
               (\<Sum>r\<leftarrow>filter (\<lambda>r. row_weekday r \<in> set WEEK_ORDER) df.
                  clamp (focused_min r) 0 (duration_min r))"
    using total by (simp add: focused_clamped_def)
  have all: "(\<forall>r\<in>set df. row_weekday r \<in> set WEEK_ORDER)
             \<and> (\<Sum>r\<leftarrow>df. clamp (focused_min r) 0 (duration_min r)) < 2 ^ 63 \<longrightarrow>
      sum_list (map snd ?tbl) = (\<Sum>r\<leftarrow>df. clamp (focused_min r) 0 (duration_min r))"
  proof
    assume a: "(\<forall>r\<in>set df. row_weekday r \<in> set WEEK_ORDER)
             \<and> (\<Sum>r\<leftarrow>df. clamp (focused_min r) 0 (duration_min r)) < 2 ^ 63"
    then have "filter (\<lambda>r. row_weekday r \<in> set WEEK_ORDER) df = df" by simp
    with total' a show "sum_list (map snd ?tbl) = (\<Sum>r\<leftarrow>df. clamp (focused_min r) 0 (duration_min r))"
      by simp
  qed
  from b len keys entries total' all
  show "\<exists>tbl. by_w df = Some tbl
        \<and> length tbl = 7
        \<and> map fst tbl = [wd_mon, wd_tue, wd_wed, wd_thu, wd_fri, wd_sat, wd_sun]
        \<and> (\<forall>i<7. (\<Sum>r\<leftarrow>filter (\<lambda>r. row_weekday r = fst (tbl ! i)) df.
                      clamp (focused_min r) 0 (duration_min r)) < 2 ^ 63 \<longrightarrow>
              snd (tbl ! i) =
                (\<Sum>r\<leftarrow>filter (\<lambda>r. row_weekday r = fst (tbl ! i)) df.
                   clamp (focused_min r) 0 (duration_min r)))
        \<and> ((\<Sum>r\<leftarrow>filter (\<lambda>r. row_weekday r \<in> set WEEK_ORDER) df.
               clamp (focused_min r) 0 (duration_min r)) < 2 ^ 63 \<longrightarrow>
             sum_list (map snd tbl) =
               (\<Sum>r\<leftarrow>filter (\<lambda>r. row_weekday r \<in> set WEEK_ORDER) df.
                  clamp (focused_min r) 0 (duration_min r)))
        \<and> ((\<forall>r\<in>set df. row_weekday r \<in> set WEEK_ORDER)
             \<and> (\<Sum>r\<leftarrow>df. clamp (focused_min r) 0 (duration_min r)) < 2 ^ 63 \<longrightarrow>
             sum_list (map snd tbl) = (\<Sum>r\<leftarrow>df. clamp (focused_min r) 0 (duration_min r)))"
    apply -
    apply (rule exI[of _ ?tbl])
    apply (intro conjI)
    apply assumption+
    done
qed

theorem by_w_table_witness:
  "\<exists>tbl. by_w
       [\<lparr>sess_id = ''a'', sess_subject = ''math'', sess_start = ''10:00'', sess_end = ''11:00'',
         duration_min = 60, focused_min = 500, pause_count = 0, created_at = '''',
         row_date = ''2024-01-01'', row_weekday = wd_mon\<rparr>,
        \<lparr>sess_id = ''b'', sess_subject = ''math'', sess_start = ''11:00'', sess_end = ''11:30'',
         duration_min = 30, focused_min = 20, pause_count = 1, created_at = '''',
         row_date = ''2024-01-07'', row_weekday = wd_sun\<rparr>] = Some tbl
     \<and> length tbl = 7 \<and> sum_list (map snd tbl) = 80"
proof -
  let ?df = "[\<lparr>sess_id = ''a'', sess_subject = ''math'', sess_start = ''10:00'', sess_end = ''11:00'',
         duration_min = 60, focused_min = 500, pause_count = 0, created_at = '''',
         row_date = ''2024-01-01'', row_weekday = wd_mon\<rparr>,
        \<lparr>sess_id = ''b'', sess_subject = ''math'', sess_start = ''11:00'', sess_end = ''11:30'',
         duration_min = 30, focused_min = 20, pause_count = 1, created_at = '''',
         row_date = ''2024-01-07'', row_weekday = wd_sun\<rparr>]"
  have ne: "?df \<noteq> []" by simp
  have canon: "(\<forall>r\<in>set ?df. row_weekday r \<in> set WEEK_ORDER)
      \<and> (\<Sum>r\<leftarrow>?df. clamp (focused_min r) 0 (duration_min r)) < 2 ^ 63"
    by (simp add: WEEK_ORDER_def clamp_def)
  from by_w_table[of ?df] ne obtain tbl where tbl: "by_w ?df = Some tbl" "length tbl = 7"
    "(\<forall>r\<in>set ?df. row_weekday r \<in> set WEEK_ORDER)
       \<and> (\<Sum>r\<leftarrow>?df. clamp (focused_min r) 0 (duration_min r)) < 2 ^ 63 \<longrightarrow>
       sum_list (map snd tbl) = (\<Sum>r\<leftarrow>?df. clamp (focused_min r) 0 (duration_min r))"
    by blast
  from tbl(3) canon have "sum_list (map snd tbl) = (\<Sum>r\<leftarrow>?df. clamp (focused_min r) 0 (duration_min r))"
    by blast
  then have "sum_list (map snd tbl) = 80" by (simp add: clamp_def)
  with tbl(1,2) show ?thesis by blast
qed

section \<open>The example store\<close>

text \<open>The definitions that evaluate a call of the store's interface at concrete arguments.\<close>

lemmas date_defs =
  strftime_ymd_def str_nat.simps zfill_def digit_char_def weekday_kr_def date_weekday_def toordinal_def
  days_before_year_def days_before_month_def DAYS_BEFORE_MONTH_def is_leap_def WEEKDAY_MAP_def

lemmas ex_defs =
  ex_calls_def ex_store_def ex_env_def ex_monday_def ex_sunday_def ex_session_mon_def
  ex_session_sun_def default_subject_def

lemma ex_store_run: "run_calls ex_calls = ex_store"
  by (simp add: run_calls_def init_store_def add_session_def ensure_bucket_def new_session_def
      append_session_def clamp_def remove_char_def Let_def time_defs date_defs ex_defs)

section \<open>Deleting a session\<close>

lemma fold_delete_filter:
  "fold AList.delete ks al = filter (\<lambda>p. fst p \<notin> set ks) al"
proof (induction ks arbitrary: al)
  case Nil
  show ?case by simp
next
  case (Cons k ks)
  have "AList.delete k al = filter (\<lambda>p. fst p \<noteq> k) al"
    by (simp add: AList.delete_eq case_prod_unfold eq_commute)
  then show ?case using Cons by (simp add: conj_commute)
qed

lemma sessions_of_keep_others:
  "sessions_of (keep_others session_id b) =
     filter (\<lambda>s. key_id s \<noteq> Some session_id) (sessions_of b)"
  by (simp add: keep_others_def sessions_of_def dict_get_def)

lemma emptied_iff:
  "emptied session_id b \<longleftrightarrow>
     sessions_of b \<noteq> [] \<and> filter (\<lambda>s. key_id s \<noteq> Some session_id) (sessions_of b) = []"
  by (auto simp: emptied_def sessions_of_keep_others Let_def)

text \<open>
  A day none of whose sessions has the id keeps its sessions, and gets the key
  \<open>sessions\<close>, with the empty list, when it had none.
\<close>

lemma keep_others_absent:
  "\<forall>x\<in>set (sessions_of b). key_id x \<noteq> Some session_id \<Longrightarrow>
     keep_others session_id b = b\<lparr>key_sessions := Some (sessions_of b)\<rparr>"
  by (simp add: keep_others_def)

lemma keep_others_absent_same:
  assumes "\<forall>x\<in>set (sessions_of b). key_id x \<noteq> Some session_id" and "key_sessions b \<noteq> None"
  shows "keep_others session_id b = b"
proof -
  from assms(2) obtain ss where "key_sessions b = Some ss" by blast
  then have "b\<lparr>key_sessions := Some (sessions_of b)\<rparr> = b"
    by (simp add: sessions_of_def dict_get_def)
  with keep_others_absent[OF assms(1)] show ?thesis by simp
qed

lemma emptied_absent:
  "\<forall>x\<in>set (sessions_of b). key_id x \<noteq> Some session_id \<Longrightarrow> \<not> emptied session_id b"
  by (auto simp: emptied_iff filter_empty_conv)

lemma delete_session_days:
  "days (delete_session session_id s) =
     filter (\<lambda>p. fst p \<notin> fst ` {q \<in> set (days s). emptied session_id (snd q)})
            (map (\<lambda>(ds, b). (ds, keep_others session_id b)) (days s))"
  by (simp add: delete_session_def Let_def fold_delete_filter case_prod_unfold)

lemma delete_session_absent_days:
  assumes "\<forall>(ds, b)\<in>set (days s). \<forall>x\<in>set (sessions_of b). key_id x \<noteq> Some session_id"
  shows "days (delete_session session_id s) =
           map (\<lambda>(ds, b). (ds, b\<lparr>key_sessions := Some (sessions_of b)\<rparr>)) (days s)"
proof -
  have a: "\<And>p. p \<in> set (days s) \<Longrightarrow> \<forall>x\<in>set (sessions_of (snd p)). key_id x \<noteq> Some session_id"
    using assms by (auto simp: case_prod_unfold)
  have k: "\<And>p. p \<in> set (days s) \<Longrightarrow>
      keep_others session_id (snd p) = (snd p)\<lparr>key_sessions := Some (sessions_of (snd p))\<rparr>"
    by (rule keep_others_absent) (rule a)
  have e: "\<And>p. p \<in> set (days s) \<Longrightarrow> \<not> emptied session_id (snd p)"
    by (rule emptied_absent) (rule a)
  have m: "map (\<lambda>(ds, b). (ds, keep_others session_id b)) (days s) =
           map (\<lambda>(ds, b). (ds, b\<lparr>key_sessions := Some (sessions_of b)\<rparr>)) (days s)"
    using k by (simp add: case_prod_unfold)
  have none: "{q \<in> set (days s). emptied session_id (snd q)} = {}"
    using e by auto
  show ?thesis
    by (simp only: delete_session_days m none) simp
qed

lemma delete_session_absent:
  assumes "\<forall>(ds, b)\<in>set (days s).
      key_sessions b \<noteq> None \<and> (\<forall>x\<in>set (sessions_of b). key_id x \<noteq> Some session_id)"
  shows "delete_session session_id s = s"
proof -
  have absent: "\<forall>(ds, b)\<in>set (days s). \<forall>x\<in>set (sessions_of b). key_id x \<noteq> Some session_id"
    using assms by auto
  have same: "\<And>p. p \<in> set (days s) \<Longrightarrow> (snd p)\<lparr>key_sessions := Some (sessions_of (snd p))\<rparr> = snd p"
  proof -
    fix p assume "p \<in> set (days s)"
    with assms have "key_sessions (snd p) \<noteq> None" by (auto simp: case_prod_unfold)
    then obtain ss where "key_sessions (snd p) = Some ss" by blast
    then show "(snd p)\<lparr>key_sessions := Some (sessions_of (snd p))\<rparr> = snd p"
      by (simp add: sessions_of_def dict_get_def)
  qed
  have "days (delete_session session_id s) =
          map (\<lambda>(ds, b). (ds, b\<lparr>key_sessions := Some (sessions_of b)\<rparr>)) (days s)"
    using absent by (rule delete_session_absent_days)
  also have "\<dots> = days s"
    using same by (simp add: case_prod_unfold map_idI)
  finally have "days (delete_session session_id s) = days s" .
  moreover have "store.more (delete_session session_id s) = store.more s"
    by (simp add: delete_session_def Let_def)
  ultimately show ?thesis by simp
qed

lemma delete_session_prunes:
  assumes "(ds, b) \<in> set (days s)" and "emptied session_id b"
  shows "ds \<notin> fst ` set (days (delete_session session_id s))"
proof -
  have "ds \<in> fst ` {q \<in> set (days s). emptied session_id (snd q)}"
    using assms by force
  moreover have "\<forall>p\<in>set (days (delete_session session_id s)).
      fst p \<notin> fst ` {q \<in> set (days s). emptied session_id (snd q)}"
    by (simp add: delete_session_days)
  ultimately show ?thesis by blast
qed

lemma delete_session_no_empty_bucket:
  assumes "\<forall>(ds, b)\<in>set (days s). sessions_of b \<noteq> []"
    and "(ds', b') \<in> set (days (delete_session session_id s))"
  shows "sessions_of b' \<noteq> []"
proof
  assume empty: "sessions_of b' = []"
  from assms(2) obtain b where b: "(ds', b) \<in> set (days s)" "b' = keep_others session_id b"
    and keep: "ds' \<notin> fst ` {q \<in> set (days s). emptied session_id (snd q)}"
    by (auto simp: delete_session_days)
  from assms(1) b(1) have "sessions_of b \<noteq> []" by auto
  with empty b(2) have "emptied session_id b" by (simp add: emptied_iff sessions_of_keep_others)
  with b(1) have "ds' \<in> fst ` {q \<in> set (days s). emptied session_id (snd q)}" by force
  with keep show False by contradiction
qed

text \<open>
  C6, as stated, fails: the store is also what an upload leaves, and a day of an uploaded
  snapshot may have no key \<open>sessions\<close>. \<open>delete_session\<close> reads the sessions of such a day
  as the empty list and writes the filtered list back, so after the call the day has the
  key, with the empty list. In the store of the snapshot
  \<^verbatim>\<open>{"days": {"2024-01-01": {"weekday": wd_mon}}}\<close> no session has the id \<open>nope\<close>, and
  deleting that id changes the store.
\<close>

theorem delete_session_absent_counterexample:
  "sessions_of \<lparr>key_weekday = Some wd_mon, key_sessions = None\<rparr> = []
   \<and> delete_session ''nope''
        \<lparr>days = [(''2024-01-01'', \<lparr>key_weekday = Some wd_mon, key_sessions = None\<rparr>)]\<rparr>
      = \<lparr>days = [(''2024-01-01'', \<lparr>key_weekday = Some wd_mon, key_sessions = Some []\<rparr>)]\<rparr>
   \<and> delete_session ''nope''
        \<lparr>days = [(''2024-01-01'', \<lparr>key_weekday = Some wd_mon, key_sessions = None\<rparr>)]\<rparr>
      \<noteq> \<lparr>days = [(''2024-01-01'', \<lparr>key_weekday = Some wd_mon, key_sessions = None\<rparr>)]\<rparr>"
  by (simp add: delete_session_def keep_others_def emptied_def sessions_of_def dict_get_def Let_def)

text \<open>
  C6, amended. When no session of the store has the id, \<open>delete_session\<close> raises nothing
  and changes nothing but this: a day without the key \<open>sessions\<close> gets the key, with the
  empty list. So in a store whose days all have the key \<open>sessions\<close>, as every store has
  that was not uploaded without it, the call returns the store unchanged. When a bucket
  holds a session with the id and no session is left in it once the sessions with the id
  are removed, the date of the bucket is no longer a key of the store. In a store that
  had no empty bucket, no bucket is empty after the call.
\<close>

theorem delete_session_noop_and_prune:
  "((\<forall>(ds, b)\<in>set (days s). \<forall>x\<in>set (sessions_of b). key_id x \<noteq> Some session_id) \<longrightarrow>
      days (delete_session session_id s) =
        map (\<lambda>(ds, b). (ds, b\<lparr>key_sessions := Some (sessions_of b)\<rparr>)) (days s))
   \<and> ((\<forall>(ds, b)\<in>set (days s).
          key_sessions b \<noteq> None \<and> (\<forall>x\<in>set (sessions_of b). key_id x \<noteq> Some session_id)) \<longrightarrow>
      delete_session session_id s = s)
   \<and> ((ds, b) \<in> set (days s) \<and> (\<exists>x\<in>set (sessions_of b). key_id x = Some session_id)
        \<and> filter (\<lambda>x. key_id x \<noteq> Some session_id) (sessions_of b) = [] \<longrightarrow>
        ds \<notin> fst ` set (days (delete_session session_id s)))
   \<and> ((\<forall>(ds, b)\<in>set (days s). sessions_of b \<noteq> []) \<longrightarrow>
        (\<forall>(ds, b)\<in>set (days (delete_session session_id s)). sessions_of b \<noteq> []))"
proof (intro conjI impI)
  assume "\<forall>(ds, b)\<in>set (days s). \<forall>x\<in>set (sessions_of b). key_id x \<noteq> Some session_id"
  then show "days (delete_session session_id s) =
        map (\<lambda>(ds, b). (ds, b\<lparr>key_sessions := Some (sessions_of b)\<rparr>)) (days s)"
    by (rule delete_session_absent_days)
next
  assume "\<forall>(ds, b)\<in>set (days s).
      key_sessions b \<noteq> None \<and> (\<forall>x\<in>set (sessions_of b). key_id x \<noteq> Some session_id)"
  then show "delete_session session_id s = s" by (rule delete_session_absent)
next
  assume a: "(ds, b) \<in> set (days s) \<and> (\<exists>x\<in>set (sessions_of b). key_id x = Some session_id)
        \<and> filter (\<lambda>x. key_id x \<noteq> Some session_id) (sessions_of b) = []"
  then have "sessions_of b \<noteq> []" by auto
  with a have e: "emptied session_id b" by (simp add: emptied_iff)
  from a have m: "(ds, b) \<in> set (days s)" by simp
  from m e show "ds \<notin> fst ` set (days (delete_session session_id s))"
    by (rule delete_session_prunes)
next
  assume "\<forall>(ds, b)\<in>set (days s). sessions_of b \<noteq> []"
  then show "\<forall>(ds, b)\<in>set (days (delete_session session_id s)). sessions_of b \<noteq> []"
    using delete_session_no_empty_bucket[of s _ _ session_id] by blast
qed

theorem delete_session_noop_and_prune_witness:
  "delete_session ''20240101-1000-0000'' ex_store = ex_store
   \<and> days (delete_session ''nope'' ex_uploaded) =
       [(''2024-01-01'', \<lparr>key_weekday = Some wd_mon, key_sessions = Some []\<rparr>)]
   \<and> ''2024-01-01'' \<notin> fst ` set (days (delete_session ''20240101-1000-4567'' ex_store))
   \<and> days (delete_session ''20240101-1000-4567'' ex_store) =
       [(''2023-12-31'', \<lparr>key_weekday = Some wd_sun, key_sessions = Some [ex_session_sun]\<rparr>)]"
proof -
  have absent: "\<forall>(ds, b)\<in>set (days ex_store).
      key_sessions b \<noteq> None \<and> (\<forall>x\<in>set (sessions_of b). key_id x \<noteq> Some ''20240101-1000-0000'')"
    by (simp add: ex_store_def ex_session_mon_def ex_session_sun_def sessions_of_def dict_get_def)
  from absent delete_session_noop_and_prune[where s = ex_store and session_id = "''20240101-1000-0000''"]
  have noop: "delete_session ''20240101-1000-0000'' ex_store = ex_store" by blast
  have absent': "\<forall>(ds, b)\<in>set (days ex_uploaded). \<forall>x\<in>set (sessions_of b). key_id x \<noteq> Some ''nope''"
    by (simp add: ex_uploaded_def sessions_of_def dict_get_def)
  from absent' delete_session_noop_and_prune[where s = ex_uploaded and session_id = "''nope''"]
  have "days (delete_session ''nope'' ex_uploaded) =
        map (\<lambda>(ds, b). (ds, b\<lparr>key_sessions := Some (sessions_of b)\<rparr>)) (days ex_uploaded)"
    by blast
  then have fill: "days (delete_session ''nope'' ex_uploaded) =
       [(''2024-01-01'', \<lparr>key_weekday = Some wd_mon, key_sessions = Some []\<rparr>)]"
    by (simp add: ex_uploaded_def sessions_of_def dict_get_def)
  have last: "(''2024-01-01'', \<lparr>key_weekday = Some wd_mon, key_sessions = Some [ex_session_mon]\<rparr>)
        \<in> set (days ex_store)
      \<and> (\<exists>x\<in>set (sessions_of \<lparr>key_weekday = Some wd_mon, key_sessions = Some [ex_session_mon]\<rparr>).
            key_id x = Some ''20240101-1000-4567'')
      \<and> filter (\<lambda>x. key_id x \<noteq> Some ''20240101-1000-4567'')
                (sessions_of \<lparr>key_weekday = Some wd_mon, key_sessions = Some [ex_session_mon]\<rparr>) = []"
    by (simp add: ex_store_def ex_session_mon_def sessions_of_def dict_get_def)
  from last delete_session_noop_and_prune[where s = ex_store and session_id = "''20240101-1000-4567''"
      and ds = "''2024-01-01''"
      and b = "\<lparr>key_weekday = Some wd_mon, key_sessions = Some [ex_session_mon]\<rparr>"]
  have pruned: "''2024-01-01'' \<notin> fst ` set (days (delete_session ''20240101-1000-4567'' ex_store))"
    by blast
  have rest: "days (delete_session ''20240101-1000-4567'' ex_store) =
       [(''2023-12-31'', \<lparr>key_weekday = Some wd_sun, key_sessions = Some [ex_session_sun]\<rparr>)]"
    by (simp add: delete_session_def keep_others_def emptied_def sessions_of_def dict_get_def Let_def
        ex_store_def ex_session_mon_def ex_session_sun_def)
  from noop fill pruned rest show ?thesis by blast
qed

section \<open>Adding a session\<close>

lemma date_weekday_range: "0 \<le> date_weekday d \<and> date_weekday d < 7"
  by (simp add: date_weekday_def)

text \<open>The subscript of \<^verbatim>\<open>WEEKDAY_MAP\<close> never raises, and the label is one of \<^verbatim>\<open>WEEK_ORDER\<close>.\<close>

lemma weekday_kr_Inr: "\<exists>w. weekday_kr d = Inr w \<and> w \<in> set WEEK_ORDER"
proof -
  from date_weekday_range[of d]
  have "date_weekday d \<in> {0, 1, 2, 3, 4, 5, 6}" by auto
  then show ?thesis
    by (auto simp: weekday_kr_def WEEKDAY_MAP_def WEEK_ORDER_def)
qed

lemma ensure_bucket_Inr:
  "\<exists>w. ensure_bucket d s =
          Inr (if map_of (days s) (strftime_ymd d) = None
               then s\<lparr>days := AList.update (strftime_ymd d)
                                \<lparr>key_weekday = Some w, key_sessions = Some []\<rparr> (days s)\<rparr>
               else s)
        \<and> w \<in> set WEEK_ORDER"
proof -
  from weekday_kr_Inr[of d] obtain w where w: "weekday_kr d = Inr w" "w \<in> set WEEK_ORDER"
    by blast
  have "ensure_bucket d s =
          Inr (if map_of (days s) (strftime_ymd d) = None
               then s\<lparr>days := AList.update (strftime_ymd d)
                                \<lparr>key_weekday = Some w, key_sessions = Some []\<rparr> (days s)\<rparr>
               else s)"
    using w(1) by (simp add: ensure_bucket_def Let_def)
  with w(2) show ?thesis by blast
qed

lemma new_session_fields:
  "key_duration_min (new_session ev ds subject start end' pause focused dur) = Some dur"
  "key_focused_min (new_session ev ds subject start end' pause focused dur) = Some (clamp focused 0 dur)"
  "key_pause_count (new_session ev ds subject start end' pause focused dur) = Some (max 0 pause)"
  by (simp_all add: new_session_def Let_def)

text \<open>
  With times that parse, \<^verbatim>\<open>add_session\<close> raises \<open>KeyError\<close> and leaves the store as it
  was when the bucket of the date has no key \<open>sessions\<close>.
\<close>

lemma add_session_KeyError:
  assumes "minutes_between start end' = Inr dur"
    and "map_of (days s) (strftime_ymd d) = Some b0" and "key_sessions b0 = None"
  shows "add_session ev d subject start end' pause focused s = (s, Some KeyError)"
proof -
  from assms(2) have e: "ensure_bucket d s = Inr s" by (simp add: ensure_bucket_def Let_def)
  have "append_session (strftime_ymd d)
          (new_session ev (strftime_ymd d) subject start end' pause focused dur) s = (s, Some KeyError)"
    using assms(2,3) by (simp add: append_session_def)
  then show ?thesis by (simp only: add_session_def Let_def e assms(1) sum.case)
qed

text \<open>Otherwise it appends the new session to the bucket of the date.\<close>

lemma add_session_bucket:
  assumes "minutes_between start end' = Inr dur"
    and "\<forall>b0. map_of (days s) (strftime_ymd d) = Some b0 \<longrightarrow> key_sessions b0 \<noteq> None"
  shows "\<exists>s' b.
           add_session ev d subject start end' pause focused s = (s', None)
           \<and> map_of (days s') (strftime_ymd d) = Some b
           \<and> key_sessions b =
               Some ((case map_of (days s) (strftime_ymd d) of None \<Rightarrow> [] | Some b0 \<Rightarrow> sessions_of b0)
                     @ [new_session ev (strftime_ymd d) subject start end' pause focused dur])"
proof -
  let ?ds = "strftime_ymd d"
  let ?sess = "new_session ev ?ds subject start end' pause focused dur"
  from ensure_bucket_Inr[of d s] obtain w where e:
    "ensure_bucket d s =
       Inr (if map_of (days s) ?ds = None
            then s\<lparr>days := AList.update ?ds \<lparr>key_weekday = Some w, key_sessions = Some []\<rparr> (days s)\<rparr>
            else s)"
    by blast
  let ?b1 = "\<lparr>key_weekday = Some w, key_sessions = Some []\<rparr>"
  let ?s1 = "if map_of (days s) ?ds = None then s\<lparr>days := AList.update ?ds ?b1 (days s)\<rparr> else s"
  have a: "add_session ev d subject start end' pause focused s = append_session ?ds ?sess ?s1"
    by (simp only: add_session_def Let_def e assms(1) sum.case)
  show ?thesis
  proof (cases "map_of (days s) ?ds")
    case None
    let ?s' = "?s1\<lparr>days := AList.map_entry ?ds (\<lambda>b. b\<lparr>key_sessions := Some ([] @ [?sess])\<rparr>) (days ?s1)\<rparr>"
    from None have "append_session ?ds ?sess ?s1 = (?s', None)"
      by (simp add: append_session_def update_conv')
    moreover from None have "map_of (days ?s') ?ds = Some (?b1\<lparr>key_sessions := Some ([] @ [?sess])\<rparr>)"
      by (simp add: map_of_map_entry update_conv')
    ultimately show ?thesis using a None by simp
  next
    case (Some b0)
    with assms(2) obtain ss where ss: "key_sessions b0 = Some ss" by auto
    let ?s' = "s\<lparr>days := AList.map_entry ?ds (\<lambda>b. b\<lparr>key_sessions := Some (ss @ [?sess])\<rparr>) (days s)\<rparr>"
    from Some ss have "append_session ?ds ?sess ?s1 = (?s', None)"
      by (simp add: append_session_def)
    moreover from Some have "map_of (days ?s') ?ds = Some (b0\<lparr>key_sessions := Some (ss @ [?sess])\<rparr>)"
      by (simp add: map_of_map_entry)
    ultimately show ?thesis using a Some ss by (simp add: sessions_of_def dict_get_def)
  qed
qed

lemma set_update_subset: "set (AList.update k v al) \<subseteq> insert (k, v) (set al)"
  by (induction al) auto

lemma set_map_entry:
  "p \<in> set (AList.map_entry k f al) \<Longrightarrow> p \<in> set al \<or> (\<exists>b. (k, b) \<in> set al \<and> p = (k, f b))"
  by (induction al) (auto split: if_splits)

text \<open>
  A session of the store after \<^verbatim>\<open>add_session\<close> was in the store before the call, or
  is the session the call built; in the second case the times parsed.
\<close>

lemma append_session_sessions:
  assumes "(ds', b') \<in> set (days (fst (append_session ds sess s)))"
    and "x \<in> set (sessions_of b')"
  shows "(\<exists>b. (ds', b) \<in> set (days s) \<and> x \<in> set (sessions_of b)) \<or> x = sess"
proof (cases "map_of (days s) ds")
  case None
  then have "fst (append_session ds sess s) = s" by (simp add: append_session_def)
  with assms show ?thesis by auto
next
  case (Some b0)
  then have b0: "(ds, b0) \<in> set (days s)" by (rule map_of_SomeD)
  show ?thesis
  proof (cases "key_sessions b0")
    case None
    with Some have "fst (append_session ds sess s) = s" by (simp add: append_session_def)
    with assms show ?thesis by auto
  next
    case (Some ss)
    let ?f = "\<lambda>b. b\<lparr>key_sessions := Some (ss @ [sess])\<rparr>"
    from Some \<open>map_of (days s) ds = Some b0\<close>
    have "fst (append_session ds sess s) = s\<lparr>days := AList.map_entry ds ?f (days s)\<rparr>"
      by (simp add: append_session_def)
    with assms(1) have "(ds', b') \<in> set (AList.map_entry ds ?f (days s))" by simp
    from set_map_entry[OF this]
    consider "(ds', b') \<in> set (days s)" | b where "ds' = ds" "b' = ?f b" by auto
    then show ?thesis
    proof cases
      case 1
      with assms(2) show ?thesis by auto
    next
      case 2
      with assms(2) have "x \<in> set ss \<or> x = sess" by (auto simp: sessions_of_def dict_get_def)
      moreover from Some have "set ss = set (sessions_of b0)" by (simp add: sessions_of_def dict_get_def)
      ultimately show ?thesis using b0 2(1) by auto
    qed
  qed
qed

lemma ensure_bucket_sessions:
  assumes "ensure_bucket d s = Inr s1" and "(ds', b') \<in> set (days s1)"
    and "x \<in> set (sessions_of b')"
  shows "\<exists>b. (ds', b) \<in> set (days s) \<and> x \<in> set (sessions_of b)"
proof -
  from ensure_bucket_Inr[of d s] assms(1) obtain w where
    s1: "s1 = (if map_of (days s) (strftime_ymd d) = None
               then s\<lparr>days := AList.update (strftime_ymd d)
                                \<lparr>key_weekday = Some w, key_sessions = Some []\<rparr> (days s)\<rparr>
               else s)"
    by auto
  let ?b1 = "\<lparr>key_weekday = Some w, key_sessions = Some []\<rparr>"
  from s1 assms(2) set_update_subset[of "strftime_ymd d" ?b1 "days s"]
  have "(ds', b') \<in> set (days s) \<or> b' = ?b1" by (auto split: if_splits)
  moreover have "sessions_of ?b1 = []" by (simp add: sessions_of_def dict_get_def)
  ultimately show ?thesis using assms(3) by auto
qed

lemma add_session_sessions:
  assumes "(ds', b') \<in> set (days (fst (add_session ev d subject start end' pause focused s)))"
    and "x \<in> set (sessions_of b')"
  shows "(\<exists>b. (ds', b) \<in> set (days s) \<and> x \<in> set (sessions_of b)) \<or>
         (\<exists>dur. minutes_between start end' = Inr dur \<and>
                x = new_session ev (strftime_ymd d) subject start end' pause focused dur)"
proof -
  let ?ds = "strftime_ymd d"
  from ensure_bucket_Inr[of d s] obtain s1 where e: "ensure_bucket d s = Inr s1" by blast
  show ?thesis
  proof (cases "minutes_between start end'")
    case (Inl err)
    then have "fst (add_session ev d subject start end' pause focused s) = s1"
      by (simp only: add_session_def Let_def e sum.case fst_conv)
    with assms(1) have "(ds', b') \<in> set (days s1)" by simp
    from ensure_bucket_sessions[OF e this assms(2)] show ?thesis by blast
  next
    case (Inr dur)
    let ?sess = "new_session ev ?ds subject start end' pause focused dur"
    have "add_session ev d subject start end' pause focused s = append_session ?ds ?sess s1"
      by (simp only: add_session_def Let_def e Inr sum.case)
    with assms(1) have "(ds', b') \<in> set (days (fst (append_session ?ds ?sess s1)))" by simp
    from append_session_sessions[OF this assms(2)] show ?thesis
    proof
      assume "\<exists>b. (ds', b) \<in> set (days s1) \<and> x \<in> set (sessions_of b)"
      then obtain b where "(ds', b) \<in> set (days s1)" "x \<in> set (sessions_of b)" by blast
      from ensure_bucket_sessions[OF e this] show ?thesis by blast
    next
      assume "x = ?sess"
      with Inr show ?thesis by blast
    qed
  qed
qed

lemma delete_session_sessions:
  assumes "(ds', b') \<in> set (days (delete_session session_id s))" and "x \<in> set (sessions_of b')"
  shows "\<exists>b. (ds', b) \<in> set (days s) \<and> x \<in> set (sessions_of b)"
proof -
  from assms(1) obtain b where "(ds', b) \<in> set (days s)" "b' = keep_others session_id b"
    by (auto simp: delete_session_days)
  with assms(2) show ?thesis by (auto simp: sessions_of_keep_others)
qed

text \<open>
  A property of sessions that every session built by \<^verbatim>\<open>add_session\<close> has holds for
  all sessions of the store after any sequence of calls: no call changes a session that
  is in the store.
\<close>

lemma apply_call_sessions:
  assumes new: "\<And>ev ds subject start end' pause focused dur.
      minutes_between start end' = Inr dur \<Longrightarrow>
        P (new_session ev ds subject start end' pause focused dur)"
    and old: "\<forall>(ds, b)\<in>set (days s). \<forall>x\<in>set (sessions_of b). P x"
  shows "\<forall>(ds, b)\<in>set (days (apply_call c s)). \<forall>x\<in>set (sessions_of b). P x"
proof (cases c)
  case (Add ev d subject start end' pause focused)
  show ?thesis
  proof (clarify)
    fix ds' b' x
    assume "(ds', b') \<in> set (days (apply_call c s))" and x: "x \<in> set (sessions_of b')"
    then have "(ds', b') \<in> set (days (fst (add_session ev d subject start end' pause focused s)))"
      using Add by simp
    from add_session_sessions[OF this x] show "P x"
    proof
      assume "\<exists>b. (ds', b) \<in> set (days s) \<and> x \<in> set (sessions_of b)"
      with old show ?thesis by auto
    next
      assume "\<exists>dur. minutes_between start end' = Inr dur \<and>
                x = new_session ev (strftime_ymd d) subject start end' pause focused dur"
      then obtain dur where "minutes_between start end' = Inr dur"
        "x = new_session ev (strftime_ymd d) subject start end' pause focused dur" by blast
      with new show ?thesis by simp
    qed
  qed
next
  case (Delete session_id)
  show ?thesis
  proof (clarify)
    fix ds' b' x
    assume "(ds', b') \<in> set (days (apply_call c s))" and x: "x \<in> set (sessions_of b')"
    then have "(ds', b') \<in> set (days (delete_session session_id s))" using Delete by simp
    from delete_session_sessions[OF this x] old show "P x" by auto
  qed
qed

lemma fold_apply_call_sessions:
  assumes new: "\<And>ev ds subject start end' pause focused dur.
      minutes_between start end' = Inr dur \<Longrightarrow>
        P (new_session ev ds subject start end' pause focused dur)"
  shows "\<forall>(ds, b)\<in>set (days s). \<forall>x\<in>set (sessions_of b). P x \<Longrightarrow>
         \<forall>(ds, b)\<in>set (days (fold apply_call calls s)). \<forall>x\<in>set (sessions_of b). P x"
proof (induction calls arbitrary: s)
  case Nil
  then show ?case by simp
next
  case (Cons c calls)
  from new Cons.prems
  have "\<forall>(ds, b)\<in>set (days (apply_call c s)). \<forall>x\<in>set (sessions_of b). P x"
    by (rule apply_call_sessions)
  then show ?case using Cons.IH by simp
qed

lemma run_calls_sessions:
  assumes "\<And>ev ds subject start end' pause focused dur.
      minutes_between start end' = Inr dur \<Longrightarrow>
        P (new_session ev ds subject start end' pause focused dur)"
  shows "\<forall>(ds, b)\<in>set (days (run_calls calls)). \<forall>x\<in>set (sessions_of b). P x"
proof -
  have "\<forall>(ds, b)\<in>set (days (init_store None)). \<forall>x\<in>set (sessions_of b). P x"
    by (simp add: init_store_def)
  with assms show ?thesis
    unfolding run_calls_def by (rule fold_apply_call_sessions)
qed

lemma run_calls_bounds:
  "\<forall>(ds, b)\<in>set (days (run_calls calls)). \<forall>x\<in>set (sessions_of b).
     \<exists>dur f p. key_duration_min x = Some dur \<and> key_focused_min x = Some f
       \<and> key_pause_count x = Some p \<and> 0 \<le> f \<and> f \<le> dur \<and> 0 \<le> p"
proof (rule run_calls_sessions)
  fix ev ds subject start end' pause focused dur
  assume mb: "minutes_between start end' = Inr dur"
  from minutes_between_bounds[OF mb] have "0 \<le> dur" by simp
  from clamp_bounds[OF this, of focused]
  show "\<exists>dur' f p.
          key_duration_min (new_session ev ds subject start end' pause focused dur) = Some dur'
        \<and> key_focused_min (new_session ev ds subject start end' pause focused dur) = Some f
        \<and> key_pause_count (new_session ev ds subject start end' pause focused dur) = Some p
        \<and> 0 \<le> f \<and> f \<le> dur' \<and> 0 \<le> p"
    by (simp add: new_session_fields)
qed

lemma run_calls_durations:
  "\<forall>(ds, b)\<in>set (days (run_calls calls)). \<forall>x\<in>set (sessions_of b).
     \<exists>n p. key_duration_min x = Some n \<and> 1 \<le> n \<and> n \<le> 1440
       \<and> key_pause_count x = Some p \<and> 0 \<le> p"
proof (rule run_calls_sessions)
  fix ev ds subject start end' pause focused dur
  assume "minutes_between start end' = Inr dur"
  from minutes_between_bounds[OF this]
  show "\<exists>n p. key_duration_min (new_session ev ds subject start end' pause focused dur) = Some n
          \<and> 1 \<le> n \<and> n \<le> 1440
          \<and> key_pause_count (new_session ev ds subject start end' pause focused dur) = Some p
          \<and> 0 \<le> p"
    by (simp add: new_session_fields)
qed

text \<open>
  C8. When the start and end times parse, so that \<open>minutes_between\<close> returns a duration,
  the session \<open>add_session\<close> builds has \<open>focused_min = clamp(focused, 0, duration_min)\<close> and
  \<open>pause_count = max(0, pause)\<close>, hence \<open>0 \<le> focused_min \<le> duration_min\<close> and
  \<open>pause_count \<ge> 0\<close>, and the call raises nothing and appends that session to the
  sessions of the bucket of the date. The one exception is a bucket that an upload has
  left without the key \<open>sessions\<close>: there the call raises \<open>KeyError\<close>, and the store is
  as before, with no new session. With a duration of 60, 500 focused minutes become 60 and
  - 10 become 0. The bounds hold for every session of the store after any sequence of
  \<^verbatim>\<open>add_session\<close> and \<^verbatim>\<open>delete_session\<close> calls on the initial store.
\<close>

theorem add_session_clamps:
  "(minutes_between start end' = Inr dur
      \<and> (\<forall>b0. map_of (days s) (strftime_ymd d) = Some b0 \<longrightarrow> key_sessions b0 \<noteq> None) \<longrightarrow>
      (\<exists>s' b sess.
          add_session ev d subject start end' pause focused s = (s', None)
          \<and> map_of (days s') (strftime_ymd d) = Some b
          \<and> key_sessions b =
              Some ((case map_of (days s) (strftime_ymd d) of None \<Rightarrow> [] | Some b0 \<Rightarrow> sessions_of b0)
                    @ [sess])
          \<and> key_duration_min sess = Some dur
          \<and> key_focused_min sess = Some (clamp focused 0 dur)
          \<and> key_pause_count sess = Some (max 0 pause)
          \<and> 0 \<le> clamp focused 0 dur \<and> clamp focused 0 dur \<le> dur
          \<and> 0 \<le> max 0 pause))
   \<and> (minutes_between start end' = Inr dur
        \<and> map_of (days s) (strftime_ymd d) = Some b0 \<and> key_sessions b0 = None \<longrightarrow>
        add_session ev d subject start end' pause focused s = (s, Some KeyError))
   \<and> clamp 500 0 60 = 60 \<and> clamp (- 10) 0 60 = 0
   \<and> (\<forall>(ds, b)\<in>set (days (run_calls calls)). \<forall>x\<in>set (sessions_of b).
         \<exists>dur f p. key_duration_min x = Some dur \<and> key_focused_min x = Some f
           \<and> key_pause_count x = Some p \<and> 0 \<le> f \<and> f \<le> dur \<and> 0 \<le> p)"
proof (intro conjI impI)
  show "\<forall>(ds, b)\<in>set (days (run_calls calls)). \<forall>x\<in>set (sessions_of b).
         \<exists>dur f p. key_duration_min x = Some dur \<and> key_focused_min x = Some f
           \<and> key_pause_count x = Some p \<and> 0 \<le> f \<and> f \<le> dur \<and> 0 \<le> p"
    by (rule run_calls_bounds)
next
  assume a: "minutes_between start end' = Inr dur
      \<and> (\<forall>b0. map_of (days s) (strftime_ymd d) = Some b0 \<longrightarrow> key_sessions b0 \<noteq> None)"
  then have mb: "minutes_between start end' = Inr dur"
    and has: "\<forall>b0. map_of (days s) (strftime_ymd d) = Some b0 \<longrightarrow> key_sessions b0 \<noteq> None"
    by simp_all
  from minutes_between_bounds[OF mb] have dur: "0 \<le> dur" by simp
  let ?sess = "new_session ev (strftime_ymd d) subject start end' pause focused dur"
  from add_session_bucket[OF mb has, of ev subject pause focused]
  obtain s' b where r: "add_session ev d subject start end' pause focused s = (s', None)"
    "map_of (days s') (strftime_ymd d) = Some b"
    "key_sessions b =
       Some ((case map_of (days s) (strftime_ymd d) of None \<Rightarrow> [] | Some b0 \<Rightarrow> sessions_of b0)
             @ [?sess])"
    by blast
  have f: "key_duration_min ?sess = Some dur" "key_focused_min ?sess = Some (clamp focused 0 dur)"
    "key_pause_count ?sess = Some (max 0 pause)"
    by (rule new_session_fields)+
  from clamp_bounds[OF dur, of focused]
  have fb: "0 \<le> clamp focused 0 dur" "clamp focused 0 dur \<le> dur" by simp_all
  have pb: "0 \<le> max 0 pause" by simp
  from r f fb pb
  show "\<exists>s' b sess.
          add_session ev d subject start end' pause focused s = (s', None)
          \<and> map_of (days s') (strftime_ymd d) = Some b
          \<and> key_sessions b =
              Some ((case map_of (days s) (strftime_ymd d) of None \<Rightarrow> [] | Some b0 \<Rightarrow> sessions_of b0)
                    @ [sess])
          \<and> key_duration_min sess = Some dur
          \<and> key_focused_min sess = Some (clamp focused 0 dur)
          \<and> key_pause_count sess = Some (max 0 pause)
          \<and> 0 \<le> clamp focused 0 dur \<and> clamp focused 0 dur \<le> dur
          \<and> 0 \<le> max 0 pause"
    apply -
    apply (rule exI[of _ s'])
    apply (rule exI[of _ b])
    apply (rule exI[of _ ?sess])
    apply (intro conjI)
    apply assumption+
    done
next
  assume "minutes_between start end' = Inr dur
        \<and> map_of (days s) (strftime_ymd d) = Some b0 \<and> key_sessions b0 = None"
  then show "add_session ev d subject start end' pause focused s = (s, Some KeyError)"
    by (simp add: add_session_KeyError)
next
  show "clamp 500 0 60 = 60" by (simp add: clamp_def)
next
  show "clamp (- 10) 0 60 = 0" by (simp add: clamp_def)
qed

theorem add_session_clamps_witness:
  "minutes_between ''10:00'' ''11:00'' = Inr 60
   \<and> (\<exists>s' b sess.
         add_session ex_env ex_monday ''math'' ''10:00'' ''11:00'' (- 3) 500 ex_store = (s', None)
         \<and> map_of (days s') ''2024-01-01'' = Some b
         \<and> key_sessions b = Some [ex_session_mon, sess]
         \<and> key_duration_min sess = Some 60 \<and> key_focused_min sess = Some 60
         \<and> key_pause_count sess = Some 0)
   \<and> add_session ex_env ex_monday ''math'' ''10:00'' ''11:00'' (- 3) 500 ex_uploaded
       = (ex_uploaded, Some KeyError)"
proof -
  have mb: "minutes_between ''10:00'' ''11:00'' = Inr 60" by (simp add: time_defs)
  have ds: "strftime_ymd ex_monday = ''2024-01-01''" by (simp add: date_defs ex_defs)
  have has: "\<forall>b0. map_of (days ex_store) (strftime_ymd ex_monday) = Some b0 \<longrightarrow> key_sessions b0 \<noteq> None"
    by (simp add: ds ex_store_def)
  from mb has add_session_clamps[where start = "''10:00''" and end' = "''11:00''" and dur = 60
      and ev = ex_env and d = ex_monday and subject = "''math''" and pause = "- 3"
      and focused = 500 and s = ex_store]
  obtain s' b sess where a:
    "add_session ex_env ex_monday ''math'' ''10:00'' ''11:00'' (- 3) 500 ex_store = (s', None)"
    "map_of (days s') (strftime_ymd ex_monday) = Some b"
    "key_sessions b =
       Some ((case map_of (days ex_store) (strftime_ymd ex_monday) of None \<Rightarrow> []
              | Some b0 \<Rightarrow> sessions_of b0) @ [sess])"
    "key_duration_min sess = Some 60" "key_focused_min sess = Some (clamp 500 0 60)"
    "key_pause_count sess = Some (max 0 (- 3))"
    by blast
  have b: "key_sessions b = Some [ex_session_mon, sess]"
    using a(3) ds by (simp add: ex_store_def sessions_of_def dict_get_def)
  have f: "key_focused_min sess = Some 60" using a(5) by (simp add: clamp_def)
  have p: "key_pause_count sess = Some 0" using a(6) by simp
  have none: "map_of (days ex_uploaded) (strftime_ymd ex_monday)
        = Some \<lparr>key_weekday = Some wd_mon, key_sessions = None\<rparr>
      \<and> key_sessions \<lparr>key_weekday = Some wd_mon, key_sessions = None\<rparr> = None"
    by (simp add: ds ex_uploaded_def)
  from mb none add_session_clamps[where start = "''10:00''" and end' = "''11:00''" and dur = 60
      and ev = ex_env and d = ex_monday and subject = "''math''" and pause = "- 3"
      and focused = 500 and s = ex_uploaded
      and ?b0.0 = "\<lparr>key_weekday = Some wd_mon, key_sessions = None\<rparr>"]
  have k: "add_session ex_env ex_monday ''math'' ''10:00'' ''11:00'' (- 3) 500 ex_uploaded
       = (ex_uploaded, Some KeyError)"
    by blast
  from mb a(1) a(2) ds b a(4) f p k show ?thesis by auto
qed

section \<open>Durations of the sessions in the store\<close>

lemma store_to_flat_rows_row:
  "r \<in> set (store_to_flat_rows s) \<Longrightarrow>
     \<exists>ds b x. (ds, b) \<in> set (days s) \<and> x \<in> set (sessions_of b)
        \<and> r = flat_row ds (dict_get (key_weekday b) '''') x"
  by (auto simp: store_to_flat_rows_def)

lemma flat_rows_bounds:
  assumes "\<forall>(ds, b)\<in>set (days s). \<forall>x\<in>set (sessions_of b).
      \<exists>n p. key_duration_min x = Some n \<and> 1 \<le> n \<and> n \<le> 1440
        \<and> key_pause_count x = Some p \<and> 0 \<le> p"
  shows "\<forall>r\<in>set (store_to_flat_rows s).
      1 \<le> duration_min r \<and> duration_min r \<le> 1440 \<and> 0 \<le> pause_count r"
proof
  fix r assume "r \<in> set (store_to_flat_rows s)"
  from store_to_flat_rows_row[OF this] obtain ds b x where
    "(ds, b) \<in> set (days s)" "x \<in> set (sessions_of b)"
    "r = flat_row ds (dict_get (key_weekday b) '''') x" by blast
  with assms show "1 \<le> duration_min r \<and> duration_min r \<le> 1440 \<and> 0 \<le> pause_count r"
    by (fastforce simp: flat_row_def dict_get_def)
qed

lemma sum_durations_le:
  "\<forall>r\<in>set df. duration_min r \<le> c \<Longrightarrow> sum_list (map duration_min df) \<le> c * int (length df)"
  by (induction df) (auto simp: algebra_simps)

lemma sum_durations_positive:
  "df \<noteq> [] \<Longrightarrow> \<forall>r\<in>set df. 1 \<le> duration_min r \<Longrightarrow> 0 < sum_list (map duration_min df)"
proof (induction df)
  case Nil
  then show ?case by simp
next
  case (Cons a df)
  then show ?case by (cases df) auto
qed

text \<open>
  C10. When both strings parse as times, \<open>minutes_between\<close> returns a number of minutes
  between 1 and 1440, and it returns 1440, never 0, when the two are the same time of
  day, as for a string \<open>HH:MM\<close> taken as both start and end. Hence after any sequence of
  \<^verbatim>\<open>add_session\<close> and \<^verbatim>\<open>delete_session\<close> calls on the initial store every session of
  the store has the key \<open>duration_min\<close> with a value of at least 1, and every flat row a
  duration of at least 1; and for a frame with at least one row, each of them a row of
  that store (whatever columns the page has added), the sum of the durations is positive.
  The total of the summary is that sum as pandas computes it, in 64-bit integers; in the
  frames in which the 64-bit sums do not wrap around the total is positive, so the ratio
  and the pause rate are the floats of the quotients and not the 0 of the other branch.
  The total adds durations of at most 1440 minutes, and is the exact sum for
  a frame of fewer than \<open>2\<^sup>6\<^sup>3 / 1440\<close> rows, more than \<open>6 \<cdot> 10\<^sup>1\<^sup>5\<close>; no frame in memory has
  that many. The pause counts are the numbers the calls passed, floored at 0, which the
  page takes from a number input of at most 999; the pause total is the exact sum when
  that is below \<open>2\<^sup>6\<^sup>3\<close>.
\<close>

theorem minutes_between_range_store_durations:
  "(parse_time_hhmm start = Inr s \<and> parse_time_hhmm end' = Inr e \<longrightarrow>
      (\<exists>n. minutes_between start end' = Inr n \<and> 1 \<le> n \<and> n \<le> 1440
          \<and> (dt_hour s = dt_hour e \<and> dt_minute s = dt_minute e \<longrightarrow> n = 1440)))
   \<and> (h < 24 \<and> m < 60 \<longrightarrow> minutes_between (hhmm h m) (hhmm h m) = Inr 1440)
   \<and> (\<forall>(ds, b)\<in>set (days (run_calls calls)). \<forall>x\<in>set (sessions_of b).
         \<exists>n. key_duration_min x = Some n \<and> 1 \<le> n)
   \<and> (\<forall>r\<in>set (store_to_flat_rows (run_calls calls)). 1 \<le> duration_min r)
   \<and> (df \<noteq> [] \<and> (\<forall>r\<in>set df. row.truncate r \<in> set (store_to_flat_rows (run_calls calls))) \<longrightarrow>
        0 < (\<Sum>r\<leftarrow>df. duration_min r))
   \<and> (df \<noteq> [] \<and> 1440 * int (length df) < 2 ^ 63 \<and> (\<Sum>r\<leftarrow>df. pause_count r) < 2 ^ 63
        \<and> (\<forall>r\<in>set df. row.truncate r \<in> set (store_to_flat_rows (run_calls calls))) \<longrightarrow>
        (\<exists>k. compute_kpis df = Some k \<and> 0 < kpi_total k
            \<and> kpi_total k = (\<Sum>r\<leftarrow>df. duration_min r)
            \<and> kpi_pause k = (\<Sum>r\<leftarrow>df. pause_count r)
            \<and> kpi_ratio k = float64 (real_of_int (kpi_focused k) / real_of_int (kpi_total k))
            \<and> kpi_pause_rate k =
                float64 (float64 (real_of_int (kpi_pause k)) / float64 (real_of_int (kpi_total k) / 60))))"
proof (intro conjI impI)
  assume p: "parse_time_hhmm start = Inr s \<and> parse_time_hhmm end' = Inr e"
  then have m: "minutes_between start end' =
           Inr (if 60 * dt_hour s + dt_minute s < 60 * dt_hour e + dt_minute e
                then (60 * dt_hour e + dt_minute e) - (60 * dt_hour s + dt_minute s)
                else (60 * dt_hour e + dt_minute e + 1440) - (60 * dt_hour s + dt_minute s))"
    (is "_ = Inr ?n")
    by (simp add: minutes_between_Inr)
  from minutes_between_bounds[OF m] have "1 \<le> ?n \<and> ?n \<le> 1440" .
  moreover have "dt_hour s = dt_hour e \<and> dt_minute s = dt_minute e \<longrightarrow> ?n = 1440" by simp
  ultimately show "\<exists>n. minutes_between start end' = Inr n \<and> 1 \<le> n \<and> n \<le> 1440
          \<and> (dt_hour s = dt_hour e \<and> dt_minute s = dt_minute e \<longrightarrow> n = 1440)"
    using m by blast
next
  assume "h < 24 \<and> m < 60"
  then have "parse_time_hhmm (hhmm h m) = Inr \<lparr>dt_day = 0, dt_hour = int h, dt_minute = int m\<rparr>"
    by (simp add: parse_time_hhmm_hhmm)
  from minutes_between_Inr[OF this this]
  show "minutes_between (hhmm h m) (hhmm h m) = Inr 1440" by simp
next
  show "\<forall>(ds, b)\<in>set (days (run_calls calls)). \<forall>x\<in>set (sessions_of b).
         \<exists>n. key_duration_min x = Some n \<and> 1 \<le> n"
    using run_calls_durations[of calls] by fastforce
next
  show "\<forall>r\<in>set (store_to_flat_rows (run_calls calls)). 1 \<le> duration_min r"
    using flat_rows_bounds[OF run_calls_durations, of calls] by blast
next
  assume a: "df \<noteq> [] \<and> (\<forall>r\<in>set df. row.truncate r \<in> set (store_to_flat_rows (run_calls calls)))"
  have st: "\<forall>r\<in>set (store_to_flat_rows (run_calls calls)).
      1 \<le> duration_min r \<and> duration_min r \<le> 1440 \<and> 0 \<le> pause_count r"
    by (rule flat_rows_bounds) (rule run_calls_durations)
  have "\<forall>r\<in>set df. 1 \<le> duration_min r"
  proof
    fix r assume "r \<in> set df"
    with a have "row.truncate r \<in> set (store_to_flat_rows (run_calls calls))" by blast
    with st have "1 \<le> duration_min (row.truncate r)" by blast
    then show "1 \<le> duration_min r" by (simp add: row.truncate_def)
  qed
  with a show "0 < (\<Sum>r\<leftarrow>df. duration_min r)" by (simp add: sum_durations_positive)
next
  assume a: "df \<noteq> [] \<and> 1440 * int (length df) < 2 ^ 63 \<and> (\<Sum>r\<leftarrow>df. pause_count r) < 2 ^ 63
        \<and> (\<forall>r\<in>set df. row.truncate r \<in> set (store_to_flat_rows (run_calls calls)))"
  then have ne: "df \<noteq> []" by simp
  have st: "\<forall>r\<in>set (store_to_flat_rows (run_calls calls)).
      1 \<le> duration_min r \<and> duration_min r \<le> 1440 \<and> 0 \<le> pause_count r"
    by (rule flat_rows_bounds) (rule run_calls_durations)
  have b: "\<forall>r\<in>set df. 1 \<le> duration_min r \<and> duration_min r \<le> 1440 \<and> 0 \<le> pause_count r"
  proof
    fix r assume "r \<in> set df"
    with a have "row.truncate r \<in> set (store_to_flat_rows (run_calls calls))" by blast
    with st have "1 \<le> duration_min (row.truncate r) \<and> duration_min (row.truncate r) \<le> 1440
        \<and> 0 \<le> pause_count (row.truncate r)"
      by blast
    then show "1 \<le> duration_min r \<and> duration_min r \<le> 1440 \<and> 0 \<le> pause_count r"
      by (simp add: row.truncate_def)
  qed
  then have lo: "\<forall>r\<in>set df. 1 \<le> duration_min r" and hi: "\<forall>r\<in>set df. duration_min r \<le> 1440"
    and pz: "\<forall>r\<in>set df. 0 \<le> pause_count r"
    by simp_all
  from lo ne have pos: "0 < sum_list (map duration_min df)" by (simp add: sum_durations_positive)
  from sum_durations_le[OF hi] a have "sum_list (map duration_min df) < 2 ^ 63" by simp
  with pos have "int64 (sum_list (map duration_min df))" by (simp add: int64_def)
  then have t: "column_sum (map duration_min df) = sum_list (map duration_min df)"
    by (rule column_sum_exact)
  from pz have "0 \<le> sum_list (map pause_count df)" by (intro sum_list_nonneg) auto
  with a have "int64 (sum_list (map pause_count df))" by (simp add: int64_def)
  then have p: "column_sum (map pause_count df) = sum_list (map pause_count df)"
    by (rule column_sum_exact)
  from compute_kpis_Some[OF ne] obtain k where k: "compute_kpis df = Some k"
    "kpi_total k = column_sum (map duration_min df)"
    "kpi_pause k = column_sum (map pause_count df)"
    "kpi_ratio k =
       (if kpi_total k > 0
        then float64 (real_of_int (kpi_focused k) / real_of_int (kpi_total k)) else 0)"
    "kpi_pause_rate k =
       (if kpi_total k > 0
        then float64 (float64 (real_of_int (kpi_pause k)) / float64 (real_of_int (kpi_total k) / 60))
        else 0)"
    by blast
  from k(2) t pos have kt: "0 < kpi_total k" "kpi_total k = (\<Sum>r\<leftarrow>df. duration_min r)" by simp_all
  from k(3) p have kp: "kpi_pause k = (\<Sum>r\<leftarrow>df. pause_count r)" by simp
  from k(4) kt(1)
  have kr: "kpi_ratio k = float64 (real_of_int (kpi_focused k) / real_of_int (kpi_total k))" by simp
  from k(5) kt(1)
  have kq: "kpi_pause_rate k =
      float64 (float64 (real_of_int (kpi_pause k)) / float64 (real_of_int (kpi_total k) / 60))"
    by simp
  from k(1) kt kp kr kq
  show "\<exists>k. compute_kpis df = Some k \<and> 0 < kpi_total k
            \<and> kpi_total k = (\<Sum>r\<leftarrow>df. duration_min r)
            \<and> kpi_pause k = (\<Sum>r\<leftarrow>df. pause_count r)
            \<and> kpi_ratio k = float64 (real_of_int (kpi_focused k) / real_of_int (kpi_total k))
            \<and> kpi_pause_rate k =
                float64 (float64 (real_of_int (kpi_pause k)) / float64 (real_of_int (kpi_total k) / 60))"
    by blast
qed

theorem minutes_between_range_store_durations_witness:
  "parse_time_hhmm ''08:30'' = Inr \<lparr>dt_day = 0, dt_hour = 8, dt_minute = 30\<rparr>
   \<and> parse_time_hhmm ''8:30 '' = Inr \<lparr>dt_day = 0, dt_hour = 8, dt_minute = 30\<rparr>
   \<and> minutes_between ''08:30'' ''8:30 '' = Inr 1440
   \<and> minutes_between (hhmm 8 30) (hhmm 8 30) = Inr 1440
   \<and> store_to_flat_rows (run_calls ex_calls) =
       [flat_row ''2023-12-31'' wd_sun ex_session_sun, flat_row ''2024-01-01'' wd_mon ex_session_mon]
   \<and> (\<exists>k. compute_kpis [flat_row ''2024-01-01'' wd_mon ex_session_mon] = Some k \<and> kpi_total k = 60
          \<and> kpi_ratio k = 1 \<and> kpi_pause_rate k = 2)"
proof -
  have p1: "parse_time_hhmm ''08:30'' = Inr \<lparr>dt_day = 0, dt_hour = 8, dt_minute = 30\<rparr>"
    by (simp add: time_defs)
  have p2: "parse_time_hhmm ''8:30 '' = Inr \<lparr>dt_day = 0, dt_hour = 8, dt_minute = 30\<rparr>"
    by (simp add: time_defs)
  from p1 p2 minutes_between_range_store_durations[where start = "''08:30''" and end' = "''8:30 ''"
      and s = "\<lparr>dt_day = 0, dt_hour = 8, dt_minute = 30\<rparr>"
      and e = "\<lparr>dt_day = 0, dt_hour = 8, dt_minute = 30\<rparr>"]
  have m: "minutes_between ''08:30'' ''8:30 '' = Inr 1440" by auto
  have "(8::nat) < 24 \<and> (30::nat) < 60" by simp
  with minutes_between_range_store_durations[where h = 8 and m = 30]
  have m': "minutes_between (hhmm 8 30) (hhmm 8 30) = Inr 1440" by blast
  have rows: "store_to_flat_rows (run_calls ex_calls) =
       [flat_row ''2023-12-31'' wd_sun ex_session_sun, flat_row ''2024-01-01'' wd_mon ex_session_mon]"
    by (simp add: ex_store_run) (simp add: store_to_flat_rows_def ex_store_def sessions_of_def dict_get_def)
  let ?df = "[flat_row ''2024-01-01'' wd_mon ex_session_mon]"
  have sub: "?df \<noteq> [] \<and> 1440 * int (length ?df) < 2 ^ 63 \<and> (\<Sum>r\<leftarrow>?df. pause_count r) < 2 ^ 63
      \<and> (\<forall>r\<in>set ?df. row.truncate r \<in> set (store_to_flat_rows (run_calls ex_calls)))"
    by (simp add: rows row.truncate_def flat_row_def dict_get_def ex_session_mon_def)
  from sub minutes_between_range_store_durations[where calls = ex_calls and df = ?df]
  obtain k where k: "compute_kpis ?df = Some k" "0 < kpi_total k"
    "kpi_ratio k = float64 (real_of_int (kpi_focused k) / real_of_int (kpi_total k))"
    "kpi_pause_rate k =
       float64 (float64 (real_of_int (kpi_pause k)) / float64 (real_of_int (kpi_total k) / 60))"
    by blast
  have c: "compute_kpis ?df = Some \<lparr>kpi_total = 60, kpi_focused = 60, kpi_pause = 2, kpi_ratio = 1,
      kpi_avg_focus = 5, kpi_pause_rate = 2, kpi_sessions = 1\<rparr>"
    by (simp add: compute_kpis_def Let_def flat_row_def dict_get_def ex_session_mon_def clamp_def
        int64_defs float64_values)
  from k(1) c have t: "kpi_total k = 60" "kpi_focused k = 60" "kpi_pause k = 2" by auto
  from k(3) t have r: "kpi_ratio k = 1" by (simp add: float64_values)
  from k(4) t have q: "kpi_pause_rate k = 2" by (simp add: float64_values)
  from p1 p2 m m' rows k(1) t(1) r q show ?thesis by blast
qed

section \<open>Rows in the date range\<close>

text \<open>The ordinal of a valid date grows with the date.\<close>

lemma div_step:
  fixes y k :: int
  assumes "0 < k"
  shows "y div k = (y - 1) div k + (if y mod k = 0 then 1 else 0)"
proof -
  define q where "q = (y - 1) div k"
  define r where "r = (y - 1) mod k"
  have y: "y = k * q + r + 1" by (simp add: q_def r_def)
  have r: "0 \<le> r" "r < k" using assms by (simp_all add: r_def)
  show ?thesis
  proof (cases "r + 1 = k")
    case True
    then have "y = k * (q + 1)" using y by (simp add: algebra_simps)
    then have "y div k = q + 1" "y mod k = 0" using assms by simp_all
    then show ?thesis by (simp add: q_def)
  next
    case False
    with r have r1: "0 \<le> r + 1" "r + 1 < k" by simp_all
    have y': "y = k * q + (r + 1)" using y by simp
    have "y div k = q" using int_div_pos_eq[OF y' r1] .
    moreover have "y mod k = r + 1" using int_mod_pos_eq[OF y' r1] .
    ultimately show ?thesis using r by (simp add: q_def)
  qed
qed

lemma mod_400_100: "(y::int) mod 400 = 0 \<Longrightarrow> y mod 100 = 0"
proof -
  assume "y mod 400 = 0"
  then have "400 dvd y" by (simp add: mod_eq_0_iff_dvd)
  moreover have "(100::int) dvd 400" by simp
  ultimately have "100 dvd y" by (rule dvd_trans[rotated])
  then show ?thesis by (simp add: mod_eq_0_iff_dvd)
qed

lemma mod_100_4: "(y::int) mod 100 = 0 \<Longrightarrow> y mod 4 = 0"
proof -
  assume "y mod 100 = 0"
  then have "100 dvd y" by (simp add: mod_eq_0_iff_dvd)
  moreover have "(4::int) dvd 100" by simp
  ultimately have "4 dvd y" by (rule dvd_trans[rotated])
  then show ?thesis by (simp add: mod_eq_0_iff_dvd)
qed

lemma days_before_year_step:
  "days_before_year (y + 1) = days_before_year y + (if is_leap y then 366 else 365)"
proof -
  define i4 :: int where "i4 = (if y mod 4 = 0 then 1 else 0)"
  define i100 :: int where "i100 = (if y mod 100 = 0 then 1 else 0)"
  define i400 :: int where "i400 = (if y mod 400 = 0 then 1 else 0)"
  define p4 p100 p400 where "p4 = (y - 1) div 4" and "p100 = (y - 1) div 100"
    and "p400 = (y - 1) div 400"
  define q4 q100 q400 where "q4 = y div 4" and "q100 = y div 100" and "q400 = y div 400"
  have d4: "q4 = p4 + i4" unfolding i4_def p4_def q4_def by (rule div_step) simp
  have d100: "q100 = p100 + i100" unfolding i100_def p100_def q100_def by (rule div_step) simp
  have d400: "q400 = p400 + i400" unfolding i400_def p400_def q400_def by (rule div_step) simp
  have n: "days_before_year (y + 1) = y * 365 + q4 - q100 + q400"
    by (simp add: days_before_year_def q4_def q100_def q400_def)
  have o: "days_before_year y = (y - 1) * 365 + p4 - p100 + p400"
    by (simp add: days_before_year_def Let_def p4_def p100_def p400_def)
  have "days_before_year (y + 1) = days_before_year y + 365 + (i4 - i100 + i400)"
    unfolding n o d4 d100 d400 by (simp add: algebra_simps)
  moreover have "i4 - i100 + i400 = (if is_leap y then 1 else 0)"
  proof -
    define b4 b100 b400 where "b4 \<longleftrightarrow> y mod 4 = 0" and "b100 \<longleftrightarrow> y mod 100 = 0"
      and "b400 \<longleftrightarrow> y mod 400 = 0"
    have i: "i4 = (if b4 then 1 else 0)" "i100 = (if b100 then 1 else 0)"
      "i400 = (if b400 then 1 else 0)"
      unfolding i4_def i100_def i400_def b4_def b100_def b400_def by (rule refl)+
    have leap: "is_leap y \<longleftrightarrow> b4 \<and> (\<not> b100 \<or> b400)"
      unfolding is_leap_def b4_def b100_def b400_def by (rule refl)
    have imp: "b400 \<longrightarrow> b100" "b100 \<longrightarrow> b4"
      unfolding b4_def b100_def b400_def using mod_400_100[of y] mod_100_4[of y] by blast+
    show ?thesis
      unfolding i leap using imp by (cases b4; cases b100; cases b400) simp_all
  qed
  ultimately show ?thesis by simp
qed

lemma days_before_year_mono: "y \<le> y' \<Longrightarrow> days_before_year y \<le> days_before_year y'"
proof (induction y' rule: int_ge_induct)
  case base
  show ?case by simp
next
  case (step i)
  then show ?case by (simp add: days_before_year_step)
qed

lemma month_cases: "1 \<le> m \<Longrightarrow> m \<le> 12 \<Longrightarrow> m \<in> {1, 2, 3, 4, 5, 6, 7, 8, 9, 10, 11, 12 :: int}"
  by simp presburger

lemma day_of_year_bound:
  assumes "1 \<le> m" "m \<le> 12" "dd \<le> days_in_month y m"
  shows "days_before_month y m + dd \<le> (if is_leap y then 366 else 365)"
  using month_cases[OF assms(1,2)] assms(3)
  by (auto simp: days_before_month_def days_in_month_def DAYS_BEFORE_MONTH_def DAYS_IN_MONTH_def)

lemma days_before_month_nonneg:
  assumes "1 \<le> m" "m \<le> 12"
  shows "0 \<le> days_before_month y m"
  using month_cases[OF assms]
  by (auto simp: days_before_month_def DAYS_BEFORE_MONTH_def)

lemma days_in_month_nonneg:
  assumes "1 \<le> m" "m \<le> 12"
  shows "0 \<le> days_in_month y m"
  using month_cases[OF assms]
  by (auto simp: days_in_month_def DAYS_IN_MONTH_def)

lemma days_before_month_step:
  assumes "1 \<le> m" "m \<le> 11"
  shows "days_before_month y (m + 1) = days_before_month y m + days_in_month y m"
proof -
  from assms have "m \<in> {1, 2, 3, 4, 5, 6, 7, 8, 9, 10, 11}" by simp presburger
  then show ?thesis
    by (auto simp: days_before_month_def days_in_month_def DAYS_BEFORE_MONTH_def DAYS_IN_MONTH_def)
qed

lemma days_before_month_mono:
  "m \<le> m' \<Longrightarrow> 1 \<le> m \<Longrightarrow> m' \<le> 12 \<Longrightarrow> days_before_month y m \<le> days_before_month y m'"
proof (induction m' rule: int_ge_induct)
  case base
  show ?case by simp
next
  case (step i)
  from step.prems step.hyps have i: "1 \<le> i" "i \<le> 11" by simp_all
  from days_before_month_step[OF i, of y] days_in_month_nonneg[of i y] i step.IH step.prems
  show ?case by simp
qed

lemma days_before_next_month:
  assumes "1 \<le> m" "m < m'" "m' \<le> 12" "dd \<le> days_in_month y m"
  shows "days_before_month y m + dd \<le> days_before_month y m'"
proof -
  from assms have m: "m \<le> 11" by simp
  have "days_before_month y m + dd \<le> days_before_month y (m + 1)"
    using days_before_month_step[OF assms(1) m, of y] assms(4) by simp
  also have "\<dots> \<le> days_before_month y m'"
    using assms by (intro days_before_month_mono) simp_all
  finally show ?thesis .
qed

lemma toordinal_mono:
  assumes "valid_date a" and "valid_date b" and "date_le a b"
  shows "toordinal a \<le> toordinal b"
proof -
  from assms(1) have a: "1 \<le> month a" "month a \<le> 12" "1 \<le> day a"
    "day a \<le> days_in_month (year a) (month a)"
    by (simp_all add: valid_date_def)
  from assms(2) have b: "1 \<le> month b" "month b \<le> 12" "1 \<le> day b"
    by (simp_all add: valid_date_def)
  from assms(3) consider "year a < year b"
    | "year a = year b" "month a < month b"
    | "year a = year b" "month a = month b" "day a \<le> day b"
    by (auto simp: date_le_def)
  then show ?thesis
  proof cases
    case 1
    have "toordinal a \<le> days_before_year (year a) + (if is_leap (year a) then 366 else 365)"
      using day_of_year_bound[OF a(1,2,4)] by (simp add: toordinal_def)
    also have "\<dots> = days_before_year (year a + 1)" by (simp add: days_before_year_step)
    also have "\<dots> \<le> days_before_year (year b)" using 1 by (simp add: days_before_year_mono)
    also have "\<dots> \<le> toordinal b"
      using days_before_month_nonneg[OF b(1,2), of "year b"] b(3) by (simp add: toordinal_def)
    finally show ?thesis .
  next
    case 2
    from days_before_next_month[OF a(1) 2(2) b(2) a(4)] 2(1) b(3)
    show ?thesis by (simp add: toordinal_def)
  next
    case 3
    then show ?thesis by (simp add: toordinal_def)
  qed
qed

lemma date_le_refl: "date_le a a"
  by (simp add: date_le_def)

text \<open>
  C9. For a range with \<open>start_date \<le> end_date\<close>, the filtered frame holds exactly the rows
  of the frame whose date \<open>d\<close> satisfies \<open>start_date \<le> d \<le> end_date\<close>, in their order; only
  the dates are compared. A row dated \<open>start_date\<close> or \<open>end_date\<close> is kept, and a row dated
  the day before \<open>start_date\<close> or the day after \<open>end_date\<close> is not.
\<close>

theorem fdf_inclusive:
  "date_le start_date end_date \<longrightarrow>
     fdf start_date end_date df =
       filter (\<lambda>r. date_le start_date (date_obj r) \<and> date_le (date_obj r) end_date) df
     \<and> (\<forall>r. r \<in> set (fdf start_date end_date df) \<longleftrightarrow>
               r \<in> set df \<and> date_le start_date (date_obj r) \<and> date_le (date_obj r) end_date)
     \<and> (\<forall>r\<in>set df. date_obj r = start_date \<or> date_obj r = end_date \<longrightarrow>
               r \<in> set (fdf start_date end_date df))
     \<and> (\<forall>r\<in>set df. valid_date (date_obj r) \<and> valid_date start_date
               \<and> toordinal (date_obj r) = toordinal start_date - 1 \<longrightarrow>
               r \<notin> set (fdf start_date end_date df))
     \<and> (\<forall>r\<in>set df. valid_date (date_obj r) \<and> valid_date end_date
               \<and> toordinal (date_obj r) = toordinal end_date + 1 \<longrightarrow>
               r \<notin> set (fdf start_date end_date df))"
proof (intro impI conjI ballI allI)
  show "fdf start_date end_date df =
       filter (\<lambda>r. date_le start_date (date_obj r) \<and> date_le (date_obj r) end_date) df"
    by (simp add: fdf_def mask_def[abs_def])
next
  fix r :: "'a drow_scheme"
  show "r \<in> set (fdf start_date end_date df) \<longleftrightarrow>
          r \<in> set df \<and> date_le start_date (date_obj r) \<and> date_le (date_obj r) end_date"
    by (simp add: fdf_def mask_def)
next
  fix r :: "'a drow_scheme"
  assume le: "date_le start_date end_date" and r: "r \<in> set df"
    and "date_obj r = start_date \<or> date_obj r = end_date"
  then show "r \<in> set (fdf start_date end_date df)"
    by (auto simp: fdf_def mask_def date_le_refl)
next
  fix r :: "'a drow_scheme"
  assume a: "valid_date (date_obj r) \<and> valid_date start_date
               \<and> toordinal (date_obj r) = toordinal start_date - 1"
  show "r \<notin> set (fdf start_date end_date df)"
  proof
    assume "r \<in> set (fdf start_date end_date df)"
    then have dl: "date_le start_date (date_obj r)" by (simp add: fdf_def mask_def)
    from a have v: "valid_date start_date" "valid_date (date_obj r)" by simp_all
    from toordinal_mono[OF v dl] a show False by linarith
  qed
next
  fix r :: "'a drow_scheme"
  assume a: "valid_date (date_obj r) \<and> valid_date end_date
               \<and> toordinal (date_obj r) = toordinal end_date + 1"
  show "r \<notin> set (fdf start_date end_date df)"
  proof
    assume "r \<in> set (fdf start_date end_date df)"
    then have dl: "date_le (date_obj r) end_date" by (simp add: fdf_def mask_def)
    from a have v: "valid_date (date_obj r)" "valid_date end_date" by simp_all
    from toordinal_mono[OF v dl] a show False by linarith
  qed
qed

theorem fdf_inclusive_witness:
  "date_le ex_sunday ex_monday
   \<and> ex_row_on ex_sunday \<in> set (fdf ex_sunday ex_monday
        [ex_row_on \<lparr>year = 2023, month = 12, day = 30\<rparr>, ex_row_on ex_sunday,
         ex_row_on ex_monday, ex_row_on \<lparr>year = 2024, month = 1, day = 2\<rparr>])
   \<and> ex_row_on ex_monday \<in> set (fdf ex_sunday ex_monday
        [ex_row_on \<lparr>year = 2023, month = 12, day = 30\<rparr>, ex_row_on ex_sunday,
         ex_row_on ex_monday, ex_row_on \<lparr>year = 2024, month = 1, day = 2\<rparr>])
   \<and> ex_row_on \<lparr>year = 2023, month = 12, day = 30\<rparr> \<notin> set (fdf ex_sunday ex_monday
        [ex_row_on \<lparr>year = 2023, month = 12, day = 30\<rparr>, ex_row_on ex_sunday,
         ex_row_on ex_monday, ex_row_on \<lparr>year = 2024, month = 1, day = 2\<rparr>])
   \<and> ex_row_on \<lparr>year = 2024, month = 1, day = 2\<rparr> \<notin> set (fdf ex_sunday ex_monday
        [ex_row_on \<lparr>year = 2023, month = 12, day = 30\<rparr>, ex_row_on ex_sunday,
         ex_row_on ex_monday, ex_row_on \<lparr>year = 2024, month = 1, day = 2\<rparr>])"
proof -
  let ?before = "\<lparr>year = 2023, month = 12, day = 30\<rparr>"
  let ?after = "\<lparr>year = 2024, month = 1, day = 2\<rparr>"
  let ?df = "[ex_row_on ?before, ex_row_on ex_sunday, ex_row_on ex_monday, ex_row_on ?after]"
  have le: "date_le ex_sunday ex_monday" by (simp add: date_le_def ex_sunday_def ex_monday_def)
  note t = fdf_inclusive[where start_date = ex_sunday and end_date = ex_monday and df = ?df,
      rule_format, OF le]
  note bounds = t[THEN conjunct2, THEN conjunct2, THEN conjunct1, rule_format]
  note before = t[THEN conjunct2, THEN conjunct2, THEN conjunct2, THEN conjunct1, rule_format]
  note after = t[THEN conjunct2, THEN conjunct2, THEN conjunct2, THEN conjunct2, rule_format]
  have v: "valid_date ?before" "valid_date ex_sunday" "valid_date ex_monday" "valid_date ?after"
    by (simp_all add: valid_date_def days_in_month_def DAYS_IN_MONTH_def ex_sunday_def ex_monday_def)
  have o: "toordinal ?before = toordinal ex_sunday - 1" "toordinal ?after = toordinal ex_monday + 1"
    by (simp_all add: date_defs ex_sunday_def ex_monday_def)
  have d: "\<And>d. date_obj (ex_row_on d) = d" by (simp add: ex_row_on_def)
  have a: "ex_row_on ex_sunday \<in> set (fdf ex_sunday ex_monday ?df)"
    by (rule bounds) (simp_all add: d)
  have b: "ex_row_on ex_monday \<in> set (fdf ex_sunday ex_monday ?df)"
    by (rule bounds) (simp_all add: d)
  have c: "ex_row_on ?before \<notin> set (fdf ex_sunday ex_monday ?df)"
    by (rule before) (simp_all add: d v o)
  have e: "ex_row_on ?after \<notin> set (fdf ex_sunday ex_monday ?df)"
    by (rule after) (simp_all add: d v o)
  from le a b c e show ?thesis by blast
qed

section \<open>Import of an exported snapshot\<close>

text \<open>
  Two stores with the same object are the same store: the object of a dictionary has, at
  each key, the value the dictionary has there, and no item when the key is missing.
\<close>

lemma map_of_opt_item:
  "map_of (opt_item k f v) k' = (if k' = k then map_option f v else None)"
  by (cases v) (simp_all add: opt_item_def)

lemma map_of_opt_item_append:
  "map_of (opt_item k f v @ rest) k' =
     (if k' = k then (case v of None \<Rightarrow> map_of rest k' | Some x \<Rightarrow> Some (f x)) else map_of rest k')"
  by (cases v) (simp_all add: opt_item_def)

lemma map_option_inj:
  assumes "inj f" and "map_option f x = map_option f y"
  shows "x = y"
  using assms by (cases x; cases y) (auto dest: injD)

lemma inj_JStr: "inj JStr" and inj_JInt: "inj JInt" and inj_JList: "inj JList"
  by (simp_all add: inj_on_def)

lemma map_of_session_items:
  "map_of (session_items s) ''id'' = map_option JStr (key_id s)"
  "map_of (session_items s) ''subject'' = map_option JStr (key_subject s)"
  "map_of (session_items s) ''start'' = map_option JStr (key_start s)"
  "map_of (session_items s) ''end'' = map_option JStr (key_end s)"
  "map_of (session_items s) ''duration_min'' = map_option JInt (key_duration_min s)"
  "map_of (session_items s) ''focused_min'' = map_option JInt (key_focused_min s)"
  "map_of (session_items s) ''pause_count'' = map_option JInt (key_pause_count s)"
  "map_of (session_items s) ''created_at'' = map_option JStr (key_created_at s)"
  unfolding session_items_def
  by (simp_all only: map_of_opt_item_append map_of_opt_item)
     (simp_all split: option.split)

lemma session_obj_inj:
  assumes "session_obj a = session_obj b"
  shows "a = b"
proof -
  from assms have e: "map_of (session_items a) k = map_of (session_items b) k" for k
    by (simp add: session_obj_def)
  have "key_id a = key_id b"
    using e[of "''id''"] unfolding map_of_session_items by (rule map_option_inj[OF inj_JStr])
  moreover have "key_subject a = key_subject b"
    using e[of "''subject''"] unfolding map_of_session_items by (rule map_option_inj[OF inj_JStr])
  moreover have "key_start a = key_start b"
    using e[of "''start''"] unfolding map_of_session_items by (rule map_option_inj[OF inj_JStr])
  moreover have "key_end a = key_end b"
    using e[of "''end''"] unfolding map_of_session_items by (rule map_option_inj[OF inj_JStr])
  moreover have "key_duration_min a = key_duration_min b"
    using e[of "''duration_min''"] unfolding map_of_session_items
    by (rule map_option_inj[OF inj_JInt])
  moreover have "key_focused_min a = key_focused_min b"
    using e[of "''focused_min''"] unfolding map_of_session_items
    by (rule map_option_inj[OF inj_JInt])
  moreover have "key_pause_count a = key_pause_count b"
    using e[of "''pause_count''"] unfolding map_of_session_items
    by (rule map_option_inj[OF inj_JInt])
  moreover have "key_created_at a = key_created_at b"
    using e[of "''created_at''"] unfolding map_of_session_items
    by (rule map_option_inj[OF inj_JStr])
  ultimately show ?thesis by (cases a; cases b) simp
qed

lemma map_session_obj_inj: "inj (\<lambda>ss. JList (map session_obj ss))"
proof (rule injI)
  fix xs ys assume "JList (map session_obj xs) = JList (map session_obj ys)"
  then have "map session_obj xs = map session_obj ys" by simp
  then show "xs = ys"
    by (rule map_injective) (auto simp: inj_on_def dest: session_obj_inj)
qed

lemma map_of_bucket_items:
  "map_of (bucket_items b) ''weekday'' = map_option JStr (key_weekday b)"
  "map_of (bucket_items b) ''sessions'' =
     map_option (\<lambda>ss. JList (map session_obj ss)) (key_sessions b)"
  unfolding bucket_items_def
  by (simp_all only: map_of_opt_item_append map_of_opt_item)
     (simp_all split: option.split)

lemma bucket_obj_inj:
  assumes "bucket_obj a = bucket_obj b"
  shows "a = b"
proof -
  from assms have e: "map_of (bucket_items a) k = map_of (bucket_items b) k" for k
    by (simp add: bucket_obj_def)
  have "key_weekday a = key_weekday b"
    using e[of "''weekday''"] unfolding map_of_bucket_items by (rule map_option_inj[OF inj_JStr])
  moreover have "key_sessions a = key_sessions b"
    using e[of "''sessions''"] unfolding map_of_bucket_items
    by (rule map_option_inj[OF map_session_obj_inj])
  ultimately show ?thesis by (cases a; cases b) simp
qed

lemma store_obj_inj:
  assumes "store_obj a = store_obj b"
  shows "a = b"
proof -
  let ?f = "\<lambda>(ds, b). (ds :: string, bucket_obj b)"
  have "inj ?f" by (auto simp: inj_on_def dest: bucket_obj_inj)
  moreover from assms have "map ?f (days a) = map ?f (days b)" by (simp add: store_obj_def)
  ultimately have "days a = days b" by (rule map_injective[rotated])
  then show ?thesis by (cases a; cases b) simp
qed

text \<open>
  An upload of what the download serialised restores the object of the store, when the
  library reads back the document it wrote.
\<close>

lemma upload_download:
  assumes "loads (dumps (store_obj s)) = Some (store_obj s)"
  shows "upload loads (download dumps s) cur = (store_obj s, Restored)"
  using assms by (simp add: upload_def download_def store_obj_def)

text \<open>
  C7. For the store \<open>s\<close> after any sequence of \<^verbatim>\<open>add_session\<close> and
  \<^verbatim>\<open>delete_session\<close> calls on the initial store: when \<^verbatim>\<open>json.loads\<close> reads back the
  document \<^verbatim>\<open>json.dumps\<close> wrote for \<open>s\<close>, uploading the downloaded snapshot is accepted
  and leaves as the store an object equal to the object of \<open>s\<close>, whatever the store was
  before the upload; and \<open>s\<close> is the only store with that object. The two library
  functions are parameters of the model; the handlers add nothing to and drop nothing
  from the document, whose only top-level key is \<open>days\<close>.
\<close>

theorem upload_download_roundtrip:
  "loads (dumps (store_obj (run_calls calls))) = Some (store_obj (run_calls calls)) \<longrightarrow>
     upload loads (download dumps (run_calls calls)) cur = (store_obj (run_calls calls), Restored)
     \<and> (\<forall>s'. store_obj s' = store_obj (run_calls calls) \<longrightarrow> s' = run_calls calls)"
proof (intro impI conjI allI)
  assume "loads (dumps (store_obj (run_calls calls))) = Some (store_obj (run_calls calls))"
  then show "upload loads (download dumps (run_calls calls)) cur =
               (store_obj (run_calls calls), Restored)"
    by (rule upload_download)
next
  fix s'
  assume "store_obj s' = store_obj (run_calls calls)"
  then show "s' = run_calls calls" by (rule store_obj_inj)
qed

text \<open>
  The example store, with a library that hands the document over as it is in the place
  of the serialised text.
\<close>

theorem upload_download_roundtrip_witness:
  "upload Some (download (\<lambda>doc. doc) (run_calls ex_calls)) JNull = (store_obj ex_store, Restored)
   \<and> store_obj ex_store =
       JObj [(''days'', JObj
         [(''2024-01-01'', JObj [(''weekday'', JStr wd_mon),
             (''sessions'', JList [session_obj ex_session_mon])]),
          (''2023-12-31'', JObj [(''weekday'', JStr wd_sun),
             (''sessions'', JList [session_obj ex_session_sun])])])]"
proof -
  have h: "Some ((\<lambda>doc. doc) (store_obj (run_calls ex_calls))) = Some (store_obj (run_calls ex_calls))"
    by simp
  from h upload_download_roundtrip[where loads = Some and dumps = "\<lambda>doc. doc" and calls = ex_calls
      and cur = JNull]
  have "upload Some (download (\<lambda>doc. doc) (run_calls ex_calls)) JNull =
          (store_obj (run_calls ex_calls), Restored)"
    by blast
  then have a: "upload Some (download (\<lambda>doc. doc) (run_calls ex_calls)) JNull =
          (store_obj ex_store, Restored)"
    by (simp add: ex_store_run)
  have b: "store_obj ex_store =
       JObj [(''days'', JObj
         [(''2024-01-01'', JObj [(''weekday'', JStr wd_mon),
             (''sessions'', JList [session_obj ex_session_mon])]),
          (''2023-12-31'', JObj [(''weekday'', JStr wd_sun),
             (''sessions'', JList [session_obj ex_session_sun])])])]"
    by (simp add: store_obj_def bucket_obj_def bucket_items_def opt_item_def ex_store_def)
  from a b show ?thesis by blast
qed

end
